(* ===== verification/Spock_Prelude.thy ===== *)
theory Spock_Prelude
  imports Main "HOL-Library.Word" "HOL-Library.AList"
begin

text \<open>
  Shared vocabulary of the development: the machine types of the C sources, the constants that
  stand for ``not set'', C strings, results with an error branch, a reader monad over the rest of
  a message, and hash tables as association lists.  Nothing here models a function of Spock by
  itself; the component theories build on it.
\<close>

section \<open>Machine types\<close>

text \<open>
  Unsigned C integers are words of their width, so that comparison is unsigned comparison.
  A \<open>TimestampTz\<close> is an \<open>int64\<close>; it is kept as the 64-bit pattern that goes over the wire and
  compared through \<^const>\<open>sint\<close>.
\<close>

type_synonym byte = "8 word"
type_synonym uint16 = "16 word"
type_synonym uint32 = "32 word"
type_synonym uint64 = "64 word"
type_synonym Oid = "32 word"
type_synonym XLogRecPtr = "64 word"
type_synonym TransactionId = "32 word"
type_synonym RepOriginId = "16 word"
type_synonym TimestampTz = "64 word"
type_synonym bytes = "byte list"

abbreviation (input) InvalidOid :: Oid where "InvalidOid \<equiv> 0"
abbreviation (input) InvalidXLogRecPtr :: XLogRecPtr where "InvalidXLogRecPtr \<equiv> 0"
abbreviation (input) InvalidRepOriginId :: RepOriginId where "InvalidRepOriginId \<equiv> 0"
abbreviation (input) InvalidTransactionId :: TransactionId where "InvalidTransactionId \<equiv> 0"

definition ts_less :: "TimestampTz \<Rightarrow> TimestampTz \<Rightarrow> bool" where
  "ts_less a b \<longleftrightarrow> sint a < sint b"

section \<open>Collections of rules\<close>

named_theorems rd_simps \<open>how the message readers compute\<close>
named_theorems wire_laws \<open>the laws of the byte-level format\<close>
named_theorems hash_simps \<open>hash tables as association lists\<close>
named_theorems progress_simps \<open>fields of the progress records\<close>

section \<open>C strings\<close>

text \<open>
  A C string is the list of its bytes before the terminating NUL.  \<open>cs\<close> gives the bytes of a
  literal of the source.
\<close>

definition cstr :: "bytes \<Rightarrow> bool" where
  "cstr s \<longleftrightarrow> 0 \<notin> set s"

definition ch :: "char \<Rightarrow> byte" where
  "ch c = word_of_nat (of_char c)"

definition cs :: "string \<Rightarrow> bytes" where
  "cs s = map ch s"

text \<open>The bytes of an array that holds a NUL-terminated string: what \<open>strcmp\<close> and \<open>strlen\<close> see.\<close>

definition cstr_of :: "bytes \<Rightarrow> bytes" where
  "cstr_of a = takeWhile (\<lambda>b. b \<noteq> 0) a"

lemma cstr_of_terminated [simp]: "cstr s \<Longrightarrow> cstr_of (s @ 0 # r) = s"
  unfolding cstr_of_def cstr_def by (induction s) auto

lemma cstr_of_cstr [simp]: "cstr (cstr_of a)"
  by (auto simp: cstr_of_def cstr_def dest: set_takeWhileD)

lemma cs_append [simp]: "cs (a @ b) = cs a @ cs b"
  by (simp add: cs_def)

lemma length_cs [simp]: "length (cs s) = length s"
  by (simp add: cs_def)

text \<open>\<open>printf ("%u")\<close>.\<close>

fun show_nat :: "nat \<Rightarrow> bytes" where
  "show_nat n = (if n < 10 then [word_of_nat (48 + n)] else show_nat (n div 10) @ [word_of_nat (48 + n mod 10)])"

declare show_nat.simps [simp del]

text \<open>The size of a name of the server, and \<open>namestrcpy\<close>, which cuts a longer string.\<close>

definition NAMEDATALEN :: nat where "NAMEDATALEN = 64"

definition namestrcpy :: "bytes \<Rightarrow> bytes" where
  "namestrcpy str = take (NAMEDATALEN - 1) (cstr_of str)"

section \<open>Results and readers\<close>

text \<open>
  A result is \<open>Inl\<close> of an error or \<open>Inr\<close> of a value.  A reader takes the unread rest of the
  message (the bytes after the cursor of the \<open>StringInfo\<close>) and returns the value and the new rest.
\<close>

type_synonym ('e, 'a) rd = "bytes \<Rightarrow> 'e + ('a \<times> bytes)"

definition res_bind :: "'e + 'a \<Rightarrow> ('a \<Rightarrow> 'e + 'b) \<Rightarrow> 'e + 'b" where
  "res_bind m f = (case m of Inl e \<Rightarrow> Inl e | Inr a \<Rightarrow> f a)"

definition rd_ret :: "'a \<Rightarrow> ('e, 'a) rd" where
  "rd_ret a = (\<lambda>s. Inr (a, s))"

definition rd_fail :: "'e \<Rightarrow> ('e, 'a) rd" where
  "rd_fail e = (\<lambda>s. Inl e)"

definition rd_bind :: "('e, 'a) rd \<Rightarrow> ('a \<Rightarrow> ('e, 'b) rd) \<Rightarrow> ('e, 'b) rd" where
  "rd_bind m f = (\<lambda>s. case m s of Inl e \<Rightarrow> Inl e | Inr (a, s') \<Rightarrow> f a s')"

text \<open>A primitive getter that raises when the message is too short becomes a reader.\<close>

definition rd_lift :: "'e \<Rightarrow> (bytes \<Rightarrow> ('a \<times> bytes) option) \<Rightarrow> ('e, 'a) rd" where
  "rd_lift e g = (\<lambda>s. case g s of None \<Rightarrow> Inl e | Some as \<Rightarrow> Inr as)"

lemma res_bind_simps [simp]:
  "res_bind (Inl e) f = Inl e"
  "res_bind (Inr a) f = f a"
  by (simp_all add: res_bind_def)

lemma res_bind_eq_Inr [simp]:
  "res_bind m f = Inr b \<longleftrightarrow> (\<exists>a. m = Inr a \<and> f a = Inr b)"
  by (cases m) auto

lemma map_sum_eq_Inr [simp]: "map_sum f g m = Inr b \<longleftrightarrow> (\<exists>a. m = Inr a \<and> g a = b)"
  by (cases m) auto

lemma rd_ret_app [rd_simps, simp]: "rd_ret a s = Inr (a, s)"
  by (simp add: rd_ret_def)

lemma rd_fail_app [rd_simps, simp]: "rd_fail e s = Inl e"
  by (simp add: rd_fail_def)

lemma rd_bind_app [rd_simps]:
  "rd_bind m f s = (case m s of Inl e \<Rightarrow> Inl e | Inr (a, s') \<Rightarrow> f a s')"
  by (simp add: rd_bind_def)

lemma rd_bind_eq_Inr:
  "rd_bind m f s = Inr (b, s2) \<longleftrightarrow> (\<exists>a s1. m s = Inr (a, s1) \<and> f a s1 = Inr (b, s2))"
  by (auto simp: rd_bind_def split: sum.splits)

text \<open>Reading \<open>n\<close> items in a row: the body of a counted \<open>for\<close> loop over the message.\<close>

fun rd_many :: "nat \<Rightarrow> ('e, 'a) rd \<Rightarrow> ('e, 'a list) rd" where
  "rd_many 0 m = rd_ret []"
| "rd_many (Suc n) m = rd_bind m (\<lambda>a. rd_bind (rd_many n m) (\<lambda>as. rd_ret (a # as)))"

lemma rd_many_encoded:
  assumes "\<And>x r. x \<in> set xs \<Longrightarrow> m (enc x @ r) = Inr (dec x, r)"
  shows "rd_many (length xs) m (concat (map enc xs) @ r) = Inr (map dec xs, r)"
  using assms by (induction xs) (simp_all add: rd_simps)

text \<open>A fallible function over a list stops at the first error, as a loop that raises does.\<close>

fun res_map :: "('a \<Rightarrow> 'e + 'b) \<Rightarrow> 'a list \<Rightarrow> 'e + 'b list" where
  "res_map f [] = Inr []"
| "res_map f (x # xs) = res_bind (f x) (\<lambda>y. res_bind (res_map f xs) (\<lambda>ys. Inr (y # ys)))"

lemma res_map_Inr_length: "res_map f xs = Inr ys \<Longrightarrow> length ys = length xs"
  by (induction xs arbitrary: ys) auto

lemma res_map_Inr_nth: "res_map f xs = Inr ys \<Longrightarrow> i < length xs \<Longrightarrow> f (xs ! i) = Inr (ys ! i)"
proof (induction xs arbitrary: ys i)
  case Nil
  then show ?case by simp
next
  case (Cons x xs)
  then show ?case by (cases i) auto
qed

lemma res_map_total: "(\<And>x. x \<in> set xs \<Longrightarrow> f x = Inr (g x)) \<Longrightarrow> res_map f xs = Inr (map g xs)"
  by (induction xs) auto

text \<open>A loop over the rest of an array.\<close>

lemma drop_eq_ConsD: "drop i xs = y # ys \<Longrightarrow> i < length xs \<and> xs ! i = y \<and> drop (Suc i) xs = ys"
  by (metis Cons_nth_drop_Suc drop_all leI list.distinct(1) list.inject)

section \<open>Hash tables\<close>

text \<open>
  A hash table is an association list with distinct keys, in the order a sequential scan
  (\<open>hash_seq_search\<close>) meets the entries.  \<open>hash_put\<close> overwrites in place or adds an entry.
\<close>

type_synonym ('k, 'v) htab = "('k \<times> 'v) list"

definition hash_find :: "('k, 'v) htab \<Rightarrow> 'k \<Rightarrow> 'v option" where
  "hash_find h k = map_of h k"

definition hash_put :: "'k \<Rightarrow> 'v \<Rightarrow> ('k, 'v) htab \<Rightarrow> ('k, 'v) htab" where
  "hash_put k v h = AList.update k v h"

definition hash_wf :: "('k, 'v) htab \<Rightarrow> bool" where
  "hash_wf h \<longleftrightarrow> distinct (map fst h)"

lemma hash_find_put [hash_simps]:
  "hash_find (hash_put k v h) k' = (if k' = k then Some v else hash_find h k')"
  by (simp add: hash_find_def hash_put_def update_conv')

lemma hash_wf_put [hash_simps, intro]: "hash_wf h \<Longrightarrow> hash_wf (hash_put k v h)"
  by (simp add: hash_wf_def hash_put_def distinct_update)

lemma hash_find_Nil [hash_simps]: "hash_find [] k = None"
  by (simp add: hash_find_def)

lemma hash_wf_Nil [hash_simps, intro]: "hash_wf []"
  by (simp add: hash_wf_def)

text \<open>A sequential scan that changes the values in place.\<close>

lemma hash_find_map_values [hash_simps]:
  "hash_find (map (\<lambda>(k, v). (k, f v)) h) k = map_option f (hash_find h k)"
  by (simp add: hash_find_def map_of_map)

lemma hash_wf_map_values [hash_simps]: "hash_wf (map (\<lambda>(k, v). (k, f v)) h) = hash_wf h"
  by (simp add: hash_wf_def comp_def case_prod_unfold)

lemma hash_find_Some_set: "hash_find h k = Some v \<Longrightarrow> (k, v) \<in> set h"
  by (simp add: hash_find_def map_of_SomeD)

lemma hash_find_wf: "hash_wf h \<Longrightarrow> hash_find h k = Some v \<longleftrightarrow> (k, v) \<in> set h"
  by (simp add: hash_find_def hash_wf_def)

lemma length_hash_put:
  "length (hash_put k v h) = (if hash_find h k = None then Suc (length h) else length h)"
  by (induction h) (auto simp: hash_put_def hash_find_def)

end
