(* ===== verification/Spock_Wire.thy ===== *)
theory Spock_Wire
  imports Spock_Prelude
begin

unbundle bit_operations_syntax

text \<open>
  The byte format under the native protocol.  Spock writes and reads its messages through
  PostgreSQL's \<open>pqformat\<close> routines, which are not part of the repository: they are a parameter
  \<open>pq\<close> of every definition of the protocol.  The locale \<open>pq_format\<close> states what the protocol
  relies on (every getter undoes its sender and leaves the rest of the message), \<open>pq_octets\<close> adds
  the widths that the documentation of the routines fixes.  The last section gives the network
  byte order as a concrete instance and interprets both locales on it.
\<close>

section \<open>The parameter\<close>

record pqformat =
  pq_sendint8 :: "byte \<Rightarrow> bytes"
  pq_sendint16 :: "uint16 \<Rightarrow> bytes"
  pq_sendint32 :: "uint32 \<Rightarrow> bytes"
  pq_sendint64 :: "uint64 \<Rightarrow> bytes"
  pq_sendstring :: "bytes \<Rightarrow> bytes"
  pq_getmsgint8 :: "bytes \<Rightarrow> (byte \<times> bytes) option"
  pq_getmsgint16 :: "bytes \<Rightarrow> (uint16 \<times> bytes) option"
  pq_getmsgint32 :: "bytes \<Rightarrow> (uint32 \<times> bytes) option"
  pq_getmsgint64 :: "bytes \<Rightarrow> (uint64 \<times> bytes) option"
  pq_getmsgbytes :: "int \<Rightarrow> bytes \<Rightarrow> (bytes \<times> bytes) option"
  pq_getmsgstring :: "bytes \<Rightarrow> (bytes \<times> bytes) option"
  pq_getmsgrawstring :: "bytes \<Rightarrow> (bytes \<times> bytes) option"

text \<open>
  \<open>pq_sendbyte\<close> is \<open>pq_sendint8\<close> and \<open>pq_getmsgbyte\<close> is \<open>pq_getmsgint8\<close>; \<open>pq_sendint(out, x, n)\<close>
  and \<open>pq_getmsgint(in, n)\<close> are the ones of width \<open>n\<close>.  A getter is \<^const>\<open>None\<close> where the routine
  raises (not enough data, or a negative length).  The string routines convert between the
  client's and the server's encoding, which the startup handshake requires to be the same.
\<close>

locale pq_format =
  fixes pq :: pqformat
  assumes get_send8: "pq_getmsgint8 pq (pq_sendint8 pq b @ r) = Some (b, r)"
    and get_send16: "pq_getmsgint16 pq (pq_sendint16 pq w @ r) = Some (w, r)"
    and get_send32: "pq_getmsgint32 pq (pq_sendint32 pq d @ r) = Some (d, r)"
    and get_send64: "pq_getmsgint64 pq (pq_sendint64 pq q @ r) = Some (q, r)"
    and get_bytes: "length s = n \<Longrightarrow> n < 2 ^ 31 \<Longrightarrow> pq_getmsgbytes pq (int n) (s @ r) = Some (s, r)"
    and get_sendstring: "cstr s \<Longrightarrow> pq_getmsgstring pq (pq_sendstring pq s @ r) = Some (s, r)"
    and getraw_sendstring: "cstr s \<Longrightarrow> pq_getmsgrawstring pq (pq_sendstring pq s @ r) = Some (s, r)"
begin

text \<open>The laws as they are used on readers.\<close>

lemmas get_laws = get_send8 get_send16 get_send32 get_send64 get_sendstring getraw_sendstring

lemma rd_send8: "rd_lift e (pq_getmsgint8 pq) (pq_sendint8 pq b @ r) = Inr (b, r)"
  by (simp add: rd_lift_def get_send8)

lemma rd_send16: "rd_lift e (pq_getmsgint16 pq) (pq_sendint16 pq w @ r) = Inr (w, r)"
  by (simp add: rd_lift_def get_send16)

lemma rd_send32: "rd_lift e (pq_getmsgint32 pq) (pq_sendint32 pq d @ r) = Inr (d, r)"
  by (simp add: rd_lift_def get_send32)

lemma rd_send64: "rd_lift e (pq_getmsgint64 pq) (pq_sendint64 pq q @ r) = Inr (q, r)"
  by (simp add: rd_lift_def get_send64)

lemma rd_bytes: "length s = n \<Longrightarrow> n < 2 ^ 31 \<Longrightarrow>
    rd_lift e (pq_getmsgbytes pq (int n)) (s @ r) = Inr (s, r)"
  by (simp add: rd_lift_def get_bytes)

lemma rd_string: "cstr s \<Longrightarrow> rd_lift e (pq_getmsgstring pq) (pq_sendstring pq s @ r) = Inr (s, r)"
  by (simp add: rd_lift_def get_sendstring)

lemma rd_rawstring:
  "cstr s \<Longrightarrow> rd_lift e (pq_getmsgrawstring pq) (pq_sendstring pq s @ r) = Inr (s, r)"
  by (simp add: rd_lift_def getraw_sendstring)

lemmas rd_laws = rd_send8 rd_send16 rd_send32 rd_send64 rd_bytes rd_string rd_rawstring

text \<open>The laws at the end of a message, with nothing after the item.\<close>

lemmas rd_laws_end = rd_send8 [where r = "[]", simplified] rd_send16 [where r = "[]", simplified]
  rd_send32 [where r = "[]", simplified] rd_send64 [where r = "[]", simplified]
  rd_string [where r = "[]", simplified] rd_rawstring [where r = "[]", simplified]
  rd_bytes [where r = "[]", simplified]

end

text \<open>
  The widths: one octet for a byte, a string followed by its terminating NUL, eight octets
  consumed by the 64-bit getter.
\<close>

locale pq_octets = pq_format +
  assumes send8_octet: "pq_sendint8 pq b = [b]"
    and sendstring_octets: "cstr s \<Longrightarrow> pq_sendstring pq s = s @ [0]"
    and get8_octet: "pq_getmsgint8 pq (b # r) = Some (b, r)"
    and get64_octets: "8 \<le> length s \<Longrightarrow> \<exists>q. pq_getmsgint64 pq s = Some (q, drop 8 s)"

section \<open>Network byte order\<close>

definition be16 :: "uint16 \<Rightarrow> bytes" where
  "be16 w = [ucast (drop_bit 8 w), ucast w]"

definition be32 :: "uint32 \<Rightarrow> bytes" where
  "be32 w = be16 (ucast (drop_bit 16 w)) @ be16 (ucast w)"

definition be64 :: "uint64 \<Rightarrow> bytes" where
  "be64 w = be32 (ucast (drop_bit 32 w)) @ be32 (ucast w)"

fun of_be8 :: "bytes \<Rightarrow> (byte \<times> bytes) option" where
  "of_be8 (b # r) = Some (b, r)"
| "of_be8 [] = None"

fun of_be16 :: "bytes \<Rightarrow> (uint16 \<times> bytes) option" where
  "of_be16 (a # b # r) = Some (push_bit 8 (ucast a) OR ucast b, r)"
| "of_be16 _ = None"

definition of_be32 :: "bytes \<Rightarrow> (uint32 \<times> bytes) option" where
  "of_be32 s = Option.bind (of_be16 s) (\<lambda>(h, s1). Option.bind (of_be16 s1) (\<lambda>(l, s2).
     Some (push_bit 16 (ucast h) OR ucast l, s2)))"

definition of_be64 :: "bytes \<Rightarrow> (uint64 \<times> bytes) option" where
  "of_be64 s = Option.bind (of_be32 s) (\<lambda>(h, s1). Option.bind (of_be32 s1) (\<lambda>(l, s2).
     Some (push_bit 32 (ucast h) OR ucast l, s2)))"

definition of_octets :: "int \<Rightarrow> bytes \<Rightarrow> (bytes \<times> bytes) option" where
  "of_octets n s =
     (if 0 \<le> n \<and> n \<le> int (length s) then Some (take (nat n) s, drop (nat n) s) else None)"

definition of_cstring :: "bytes \<Rightarrow> (bytes \<times> bytes) option" where
  "of_cstring s =
     (case dropWhile (\<lambda>b. b \<noteq> 0) s of
        [] \<Rightarrow> None
      | _ # r \<Rightarrow> Some (takeWhile (\<lambda>b. b \<noteq> 0) s, r))"

definition pq_network :: pqformat where
  "pq_network =
     \<lparr>pq_sendint8 = (\<lambda>b. [b]), pq_sendint16 = be16, pq_sendint32 = be32, pq_sendint64 = be64,
      pq_sendstring = (\<lambda>s. s @ [0]),
      pq_getmsgint8 = of_be8, pq_getmsgint16 = of_be16, pq_getmsgint32 = of_be32,
      pq_getmsgint64 = of_be64, pq_getmsgbytes = of_octets,
      pq_getmsgstring = of_cstring, pq_getmsgrawstring = of_cstring\<rparr>"

lemma join16: "push_bit 8 (ucast (ucast (drop_bit 8 w) :: byte)) OR ucast (ucast w :: byte) = (w :: uint16)"
  by (rule bit_word_eqI) (auto simp: bit_simps)

lemma join32: "push_bit 16 (ucast (ucast (drop_bit 16 w) :: uint16)) OR ucast (ucast w :: uint16) = (w :: uint32)"
  by (rule bit_word_eqI) (auto simp: bit_simps)

lemma join64: "push_bit 32 (ucast (ucast (drop_bit 32 w) :: uint32)) OR ucast (ucast w :: uint32) = (w :: uint64)"
  by (rule bit_word_eqI) (auto simp: bit_simps)

lemma of_be16_be16: "of_be16 (be16 w @ r) = Some (w, r)"
  by (simp add: be16_def join16)

lemma of_be32_be32: "of_be32 (be32 w @ r) = Some (w, r)"
  by (simp add: of_be32_def be32_def of_be16_be16 join32)

lemma of_be64_be64: "of_be64 (be64 w @ r) = Some (w, r)"
  by (simp add: of_be64_def be64_def of_be32_be32 join64)

lemma of_cstring_sent: "cstr s \<Longrightarrow> of_cstring (s @ 0 # r) = Some (s, r)"
  unfolding of_cstring_def cstr_def by (induction s) (auto split: list.splits)

lemma of_be64_eight: "8 \<le> length s \<Longrightarrow> \<exists>q. of_be64 s = Some (q, drop 8 s)"
  by (auto simp: of_be64_def of_be32_def numeral_eq_Suc Suc_le_length_iff)

interpretation net: pq_octets pq_network
  by unfold_locales
    (auto simp: pq_network_def of_be16_be16 of_be32_be32 of_be64_be64 of_octets_def
       of_cstring_sent of_be64_eight)

end
