(* ===== verification/Spock_Relcache.thy ===== *)
theory Spock_Relcache
  imports Spock_Prelude
begin

text \<open>
  The cache of remote relations (\<open>src/spock_relcache.c\<close>): what a RELATION message told about a
  table of the provider, and, once the table has been opened, how its columns map to the local
  table.  The local catalogs (opening a table by name or by oid, attribute options, candidate
  functions) are PostgreSQL's and come in through the record \<open>local_catalog\<close>.
\<close>

section \<open>Data\<close>

record pg_attribute =
  attname :: bytes
  atttypid :: Oid
  atttypmod :: uint32
  attlen :: int
  attbyval :: bool
  attnum :: int
  attisdropped :: bool
  attgenerated :: bool

text \<open>A trigger of a local table: \<open>tgenabled\<close> and whether \<open>TRIGGER_FOR_ROW\<close> holds of \<open>tgtype\<close>.\<close>

record pg_trigger =
  tgenabled :: byte
  tgrow :: bool

text \<open>An open relation, as far as Spock looks into one.\<close>

record Relation =
  rd_id :: Oid
  rd_nspname :: "bytes option"
  rd_relname :: bytes
  rd_att :: "pg_attribute list"
  rd_idattrs :: "int list"
  rd_replidindex :: Oid
  rd_triggers :: "pg_trigger list"

record SpockRelation =
  sr_remoteid :: uint32
  sr_nspname :: bytes
  sr_relname :: bytes
  sr_natts :: nat
  sr_attnames :: "bytes list"
  sr_attrtypes :: "Oid list"
  sr_attrtypmods :: "Oid list"
  sr_reloid :: Oid
  sr_idxoid :: Oid
  sr_rel :: "Relation option"
  sr_attmap :: "nat list"
  sr_has_delta_columns :: bool
  sr_delta_apply_functions :: "Oid list"
  sr_hasTriggers :: bool

record SpockRemoteRel =
  rr_relid :: Oid
  rr_nspname :: bytes
  rr_relname :: bytes
  rr_natts :: nat
  rr_attnames :: "bytes list"
  rr_hasRowFilter :: bool
  rr_relkind :: byte
  rr_ispartition :: bool

type_synonym relcache = "(uint32, SpockRelation) htab"

text \<open>
  The local catalogs: \<open>table_openrv_extended\<close>, \<open>try_table_open\<close>, the \<open>delta_apply_function\<close>
  option of an attribute, \<open>SplitIdentifierString\<close> at a dot, and \<open>FuncnameGetCandidates\<close> for three
  arguments, each candidate with its oid and its argument types.
\<close>

record local_catalog =
  openrv :: "bytes \<Rightarrow> bytes \<Rightarrow> Relation option"
  try_table_open :: "Oid \<Rightarrow> Relation option"
  delta_option :: "Oid \<Rightarrow> nat \<Rightarrow> bytes option"
  split_identifier :: "bytes \<Rightarrow> bytes list option"
  funcname_candidates :: "bytes list \<Rightarrow> (Oid \<times> Oid \<times> Oid \<times> Oid) list"

datatype relcache_error =
    Cache_lookup_failed uint32
  | Unknown_column_name bytes
  | Invalid_delta_function_name bytes
  | Delta_function_not_found bytes

section \<open>Operations\<close>

definition relcache_free_entry :: "SpockRelation \<Rightarrow> SpockRelation" where
  "relcache_free_entry e =
     e\<lparr>sr_natts := 0, sr_reloid := InvalidOid, sr_rel := None, sr_has_delta_columns := False\<rparr>"

text \<open>
  \<open>hash_search (HASH_ENTER)\<close>: the entry found, or a new one whose fields other than the key hold
  whatever was in that memory (\<open>junk\<close>).
\<close>

definition relcache_enter :: "SpockRelation \<Rightarrow> uint32 \<Rightarrow> relcache \<Rightarrow> SpockRelation" where
  "relcache_enter junk remoteid h =
     (case hash_find h remoteid of
        Some e \<Rightarrow> relcache_free_entry e
      | None \<Rightarrow> junk\<lparr>sr_remoteid := remoteid\<rparr>)"

definition spock_relation_cache_update ::
  "SpockRelation \<Rightarrow> uint32 \<Rightarrow> bytes \<Rightarrow> bytes \<Rightarrow> bytes list \<Rightarrow> Oid list \<Rightarrow> Oid list
     \<Rightarrow> relcache \<Rightarrow> relcache" where
  "spock_relation_cache_update junk remoteid schemaname relname attnames attrtypes attrtypmods h =
     (let entry = relcache_enter junk remoteid h;
          natts = length attnames
      in hash_put remoteid
           (entry\<lparr>sr_nspname := cstr_of schemaname, sr_relname := cstr_of relname,
              sr_natts := natts,
              sr_attnames := map cstr_of attnames,
              sr_attrtypes := attrtypes, sr_attrtypmods := attrtypmods,
              sr_attmap := replicate natts 0,
              sr_has_delta_columns := False,
              sr_delta_apply_functions := replicate natts InvalidOid,
              sr_reloid := InvalidOid\<rparr>) h)"

definition spock_relation_cache_updater ::
  "SpockRelation \<Rightarrow> SpockRemoteRel \<Rightarrow> relcache \<Rightarrow> relcache" where
  "spock_relation_cache_updater junk remoterel h =
     (let entry = relcache_enter junk (rr_relid remoterel) h;
          natts = rr_natts remoterel
      in hash_put (rr_relid remoterel)
           (entry\<lparr>sr_nspname := cstr_of (rr_nspname remoterel),
              sr_relname := cstr_of (rr_relname remoterel),
              sr_natts := natts,
              sr_attnames := map cstr_of (take natts (rr_attnames remoterel)),
              sr_attmap := replicate natts 0,
              sr_has_delta_columns := False,
              sr_delta_apply_functions := replicate natts InvalidOid,
              sr_reloid := InvalidOid\<rparr>) h)"

definition spock_relation_close :: "SpockRelation \<Rightarrow> SpockRelation" where
  "spock_relation_close rel = rel\<lparr>sr_rel := None\<rparr>"

definition spock_relation_cache_reset :: "relcache \<Rightarrow> relcache" where
  "spock_relation_cache_reset h = map (\<lambda>(k, e). (k, e\<lparr>sr_reloid := InvalidOid\<rparr>)) h"

definition spock_relcache_invalidate_callback :: "Oid \<Rightarrow> relcache \<Rightarrow> relcache" where
  "spock_relcache_invalidate_callback reloid h =
     (if reloid \<noteq> InvalidOid then
        map (\<lambda>(k, e). (k, if sr_reloid e = reloid then e\<lparr>sr_reloid := InvalidOid\<rparr> else e)) h
      else map (\<lambda>(k, e). (k, e\<lparr>sr_reloid := InvalidOid\<rparr>)) h)"

fun tupdesc_find :: "pg_attribute list \<Rightarrow> bytes \<Rightarrow> nat \<Rightarrow> nat option" where
  "tupdesc_find [] name i = None"
| "tupdesc_find (a # atts) name i = (if attname a = name then Some i else tupdesc_find atts name (Suc i))"

definition tupdesc_get_att_by_name :: "pg_attribute list \<Rightarrow> bytes \<Rightarrow> relcache_error + nat" where
  "tupdesc_get_att_by_name desc name =
     (case tupdesc_find desc name 0 of
        Some i \<Rightarrow> Inr i
      | None \<Rightarrow> Inl (Unknown_column_name name))"

definition spock_lookup_delta_function ::
  "local_catalog \<Rightarrow> bytes \<Rightarrow> Oid \<Rightarrow> relcache_error + Oid" where
  "spock_lookup_delta_function cat fname typeoid =
     (case split_identifier cat fname of
        None \<Rightarrow> Inl (Invalid_delta_function_name fname)
      | Some namelist \<Rightarrow>
          if namelist = [] then Inl (Invalid_delta_function_name fname)
          else (case find (\<lambda>(oid, a0, a1, a2). a0 = typeoid \<and> a1 = typeoid \<and> a2 = typeoid)
                       (funcname_candidates cat namelist) of
                  Some (oid, _) \<Rightarrow> Inr (if oid \<noteq> InvalidOid then oid else InvalidOid)
                | None \<Rightarrow> Inr InvalidOid))"

text \<open>
  The loop of \<open>spock_relation_open\<close> over the remote columns: the map to the local columns, the
  delta-apply functions by local position, and whether any column has one.
\<close>

fun relation_open_columns ::
  "local_catalog \<Rightarrow> Relation \<Rightarrow> bytes list \<Rightarrow> nat list \<Rightarrow> Oid list \<Rightarrow> bool
     \<Rightarrow> relcache_error + (nat list \<times> Oid list \<times> bool)" where
  "relation_open_columns cat r [] attmap dfuncs has_delta = Inr (attmap, dfuncs, has_delta)"
| "relation_open_columns cat r (name # names) attmap dfuncs has_delta =
     res_bind (tupdesc_get_att_by_name (rd_att r) name) (\<lambda>attid.
       case delta_option cat (rd_id r) (attid + 1) of
         None \<Rightarrow> relation_open_columns cat r names (attmap @ [attid]) dfuncs has_delta
       | Some fname \<Rightarrow>
           res_bind (spock_lookup_delta_function cat fname (atttypid (rd_att r ! attid))) (\<lambda>dfunc.
             if dfunc = InvalidOid then Inl (Delta_function_not_found fname)
             else relation_open_columns cat r names (attmap @ [attid])
                    (dfuncs[attid := dfunc]) True))"

definition trigger_fires_on_replica :: "pg_trigger \<Rightarrow> bool" where
  "trigger_fires_on_replica t \<longleftrightarrow>
     \<not> (tgenabled t = ch (CHR ''O'') \<or> tgenabled t = ch (CHR ''D'')) \<and> tgrow t"

text \<open>
  \<open>spock_relation_open\<close>.  \<open>pending\<close> are the invalidations that \<open>AcceptInvalidationMessages\<close>
  delivers to the callback first.  The result is the cache after the call and the open entry, or
  \<^const>\<open>None\<close> in place of the entry when the local table is gone.
\<close>

definition spock_relation_open ::
  "local_catalog \<Rightarrow> Oid list \<Rightarrow> uint32 \<Rightarrow> relcache
     \<Rightarrow> relcache_error + (SpockRelation option \<times> relcache)" where
  "spock_relation_open cat pending remoteid h0 =
     (let h = fold spock_relcache_invalidate_callback pending h0 in
      case hash_find h remoteid of
        None \<Rightarrow> Inl (Cache_lookup_failed remoteid)
      | Some entry \<Rightarrow>
          if sr_reloid entry = InvalidOid then
            (case openrv cat (sr_nspname entry) (sr_relname entry) of
               None \<Rightarrow> Inr (None, hash_put remoteid (entry\<lparr>sr_rel := None\<rparr>) h)
             | Some r \<Rightarrow>
                 res_bind (relation_open_columns cat r (take (sr_natts entry) (sr_attnames entry))
                             [] (replicate (length (rd_att r)) InvalidOid) False)
                   (\<lambda>(attmap, dfuncs, has_delta).
                      let entry' = entry\<lparr>sr_rel := Some r, sr_attmap := attmap,
                            sr_delta_apply_functions := dfuncs,
                            sr_has_delta_columns := has_delta,
                            sr_reloid := rd_id r, sr_idxoid := rd_replidindex r,
                            sr_hasTriggers := list_ex trigger_fires_on_replica (rd_triggers r)\<rparr>
                      in Inr (Some entry', hash_put remoteid entry' h)))
          else if sr_rel entry = None then
            (case try_table_open cat (sr_reloid entry) of
               None \<Rightarrow> Inr (None, hash_put remoteid (entry\<lparr>sr_rel := None\<rparr>) h)
             | Some r \<Rightarrow> (let entry' = entry\<lparr>sr_rel := Some r\<rparr>
                         in Inr (Some entry', hash_put remoteid entry' h)))
          else Inr (Some entry, h))"

section \<open>The columns of an open entry\<close>

lemma tupdesc_find_Some:
  "tupdesc_find atts name i = Some j \<Longrightarrow>
     i \<le> j \<and> j - i < length atts \<and> attname (atts ! (j - i)) = name"
proof (induction atts arbitrary: i)
  case (Cons a atts)
  show ?case
  proof (cases "attname a = name")
    case False
    with Cons.prems have find: "tupdesc_find atts name (Suc i) = Some j" by simp
    with Cons.IH [OF find] show ?thesis by (auto simp: Suc_diff_le nth_Cons' Suc_le_eq)
  qed (use Cons.prems in auto)
qed simp

lemma tupdesc_find_None:
  "tupdesc_find atts name i = None \<longleftrightarrow> name \<notin> attname ` set atts"
  by (induction atts arbitrary: i) auto

lemma tupdesc_get_att_Inr:
  "tupdesc_get_att_by_name desc name = Inr i \<Longrightarrow> i < length desc \<and> attname (desc ! i) = name"
  by (auto simp: tupdesc_get_att_by_name_def split: option.splits dest: tupdesc_find_Some)

lemma tupdesc_get_att_Inl:
  "tupdesc_get_att_by_name desc name = Inl e \<longleftrightarrow>
     name \<notin> attname ` set desc \<and> e = Unknown_column_name name"
  by (auto simp: tupdesc_get_att_by_name_def tupdesc_find_None split: option.splits
      dest: tupdesc_find_Some)

lemma relation_open_columns_map:
  "relation_open_columns cat r names attmap dfuncs has_delta = Inr (attmap', dfuncs', has_delta') \<Longrightarrow>
   \<exists>m. attmap' = attmap @ m \<and>
     list_all2 (\<lambda>name i. tupdesc_get_att_by_name (rd_att r) name = Inr i) names m"
proof (induction names arbitrary: attmap dfuncs has_delta)
  case (Cons name names)
  then obtain i where find: "tupdesc_get_att_by_name (rd_att r) name = Inr i"
    and rest: "\<exists>f d. relation_open_columns cat r names (attmap @ [i]) f d =
      Inr (attmap', dfuncs', has_delta')"
    by (fastforce split: option.splits if_splits)
  from rest Cons.IH obtain m where "attmap' = (attmap @ [i]) @ m"
    "list_all2 (\<lambda>name i. tupdesc_get_att_by_name (rd_att r) name = Inr i) names m"
    by blast
  with find show ?case by (intro exI [of _ "i # m"]) simp
qed simp

lemma relation_open_columns_length:
  "relation_open_columns cat r names attmap dfuncs has_delta = Inr (attmap', dfuncs', has_delta') \<Longrightarrow>
   length dfuncs' = length dfuncs"
  by (induction names arbitrary: attmap dfuncs has_delta) (auto split: option.splits if_splits)

lemma relation_open_columns_result:
  assumes "relation_open_columns cat r names [] dfuncs d = Inr (attmap', dfuncs', d')"
  shows "list_all2 (\<lambda>name i. tupdesc_get_att_by_name (rd_att r) name = Inr i) names attmap' \<and>
    length dfuncs' = length dfuncs"
  using relation_open_columns_map [OF assms] relation_open_columns_length [OF assms] by auto

lemma tupdesc_get_att_total:
  "name \<in> attname ` set desc \<Longrightarrow> \<exists>i. tupdesc_get_att_by_name desc name = Inr i"
  by (cases "tupdesc_get_att_by_name desc name") (auto simp: tupdesc_get_att_Inl)

text \<open>A table without delta columns opens as soon as it has a column of every remote name.\<close>

lemma relation_open_columns_total:
  assumes "set names \<subseteq> attname ` set (rd_att r)" "\<And>n. delta_option cat (rd_id r) n = None"
  shows "\<exists>m. relation_open_columns cat r names attmap dfuncs d = Inr (m, dfuncs, d)"
  using assms
proof (induction names arbitrary: attmap)
  case (Cons name names)
  then obtain i where "tupdesc_get_att_by_name (rd_att r) name = Inr i"
    using tupdesc_get_att_total [of name "rd_att r"] by auto
  with Cons show ?case by auto
qed simp

text \<open>
  What a user of an open entry relies on: the local table is there, there is one local column for
  each remote one, and it is the column of that name.
\<close>

definition entry_mapped :: "SpockRelation \<Rightarrow> bool" where
  "entry_mapped e \<longleftrightarrow>
     (\<exists>r. sr_rel e = Some r \<and> sr_reloid e = rd_id r \<and>
        list_all2 (\<lambda>name i. i < length (rd_att r) \<and> attname (rd_att r ! i) = name)
          (take (sr_natts e) (sr_attnames e)) (sr_attmap e))"

lemma spock_relation_open_fresh:
  assumes entry: "hash_find (fold spock_relcache_invalidate_callback pending h) remoteid = Some entry"
    and inval: "sr_reloid entry = InvalidOid"
    and "spock_relation_open cat pending remoteid h = Inr (Some e, h')"
  shows "\<exists>r. openrv cat (sr_nspname entry) (sr_relname entry) = Some r \<and>
    list_all2 (\<lambda>name i. tupdesc_get_att_by_name (rd_att r) name = Inr i)
      (take (sr_natts entry) (sr_attnames entry)) (sr_attmap e) \<and>
    length (sr_delta_apply_functions e) = length (rd_att r) \<and>
    sr_rel e = Some r \<and> sr_reloid e = rd_id r \<and> sr_idxoid e = rd_replidindex r \<and>
    sr_hasTriggers e = list_ex trigger_fires_on_replica (rd_triggers r) \<and>
    sr_natts e = sr_natts entry \<and> sr_attnames e = sr_attnames entry \<and>
    sr_attrtypes e = sr_attrtypes entry \<and> sr_attrtypmods e = sr_attrtypmods entry"
  using assms
  by (auto simp: spock_relation_open_def Let_def split: option.splits
      dest!: relation_open_columns_result)

lemma spock_relation_open_total:
  assumes "hash_find h remoteid = Some entry" "sr_reloid entry = InvalidOid"
    and "openrv cat (sr_nspname entry) (sr_relname entry) = Some r"
    and "set (take (sr_natts entry) (sr_attnames entry)) \<subseteq> attname ` set (rd_att r)"
    and "\<And>n. delta_option cat (rd_id r) n = None"
  shows "\<exists>e h'. spock_relation_open cat [] remoteid h = Inr (Some e, h')"
  using assms(1-3) relation_open_columns_total
    [OF assms(4,5), of "[]" "replicate (length (rd_att r)) InvalidOid" False]
  by (auto simp: spock_relation_open_def Let_def)

lemma list_all2_same_index:
  "list_all2 (\<lambda>name i. f name = Inr i) xs js \<Longrightarrow> distinct xs \<Longrightarrow>
   (\<And>x i. x \<in> set xs \<Longrightarrow> f x = Inr i \<Longrightarrow> g i = x) \<Longrightarrow> distinct js"
proof (induction rule: list_all2_induct)
  case (Cons x xs i js)
  have "i \<notin> set js"
  proof
    assume "i \<in> set js"
    then obtain k where "k < length js" "js ! k = i" by (auto simp: in_set_conv_nth)
    then have "xs ! k \<in> set xs" "f (xs ! k) = Inr i"
      using list_all2_lengthD [OF Cons.hyps(2)] list_all2_nthD2 [OF Cons.hyps(2), of k] by simp_all
    then show False using Cons.prems(1) Cons.prems(2) [of x i] Cons.prems(2) [of "xs ! k" i] Cons.hyps(1)
      by auto
  qed
  then show ?case using Cons by auto
qed simp

lemma spock_relation_open_entry:
  "spock_relation_open cat pending remoteid h = Inr (Some e, h') \<Longrightarrow> hash_find h' remoteid = Some e"
  by (auto simp: spock_relation_open_def Let_def hash_simps split: option.splits if_splits)

lemma open_fresh_distinct:
  assumes "list_all2 (\<lambda>name i. tupdesc_get_att_by_name (rd_att r) name = Inr i) names attmap"
    and "distinct names"
  shows "distinct attmap"
  using assms
  by (rule list_all2_same_index [where g = "\<lambda>i. attname (rd_att r ! i)"])
    (auto dest: tupdesc_get_att_Inr)

text \<open>
  Opening a relation whose entry is not bound to a local table (as after a RELATION message or
  an invalidation) returns an entry that is bound: its local table is the one of the remote name,
  each remote column is mapped to the local column of the same name, two remote columns never to
  the same local one, and the entry returned is the one the cache now holds.
\<close>

theorem spock_relation_open_maps_columns:
  assumes "hash_find (fold spock_relcache_invalidate_callback pending h) remoteid = Some entry"
    and "sr_reloid entry = InvalidOid"
    and "distinct (take (sr_natts entry) (sr_attnames entry))"
    and "spock_relation_open cat pending remoteid h = Inr (Some e, h')"
  shows "sr_rel e = openrv cat (sr_nspname entry) (sr_relname entry) \<and> entry_mapped e \<and>
    distinct (sr_attmap e) \<and> hash_find h' remoteid = Some e"
proof -
  obtain r where r: "openrv cat (sr_nspname entry) (sr_relname entry) = Some r"
    and m: "list_all2 (\<lambda>name i. tupdesc_get_att_by_name (rd_att r) name = Inr i)
      (take (sr_natts entry) (sr_attnames entry)) (sr_attmap e)"
    and e: "sr_rel e = Some r" "sr_reloid e = rd_id r" "sr_natts e = sr_natts entry"
      "sr_attnames e = sr_attnames entry"
    using spock_relation_open_fresh [OF assms(1,2,4)]
    by blast
  from m have "list_all2 (\<lambda>name i. i < length (rd_att r) \<and> attname (rd_att r ! i) = name)
      (take (sr_natts entry) (sr_attnames entry)) (sr_attmap e)"
    by (rule list_all2_mono) (auto dest: tupdesc_get_att_Inr)
  with r e show ?thesis
    using open_fresh_distinct [OF m assms(3)] spock_relation_open_entry [OF assms(4)]
    by (auto simp: entry_mapped_def)
qed

text \<open>The same at a two-column table whose local columns are in another order.\<close>

definition demo_att :: "string \<Rightarrow> int \<Rightarrow> pg_attribute" where
  "demo_att name n = \<lparr>attname = cs name, atttypid = 23, atttypmod = -1, attlen = 4, attbyval = True,
     attnum = n, attisdropped = False, attgenerated = False\<rparr>"

definition demo_table :: Relation where
  "demo_table = \<lparr>rd_id = 16400, rd_nspname = Some (cs ''public''), rd_relname = cs ''t'',
     rd_att = [demo_att ''b'' 1, demo_att ''a'' 2], rd_idattrs = [2], rd_replidindex = 16401,
     rd_triggers = []\<rparr>"

definition demo_catalog :: local_catalog where
  "demo_catalog = \<lparr>openrv = (\<lambda>n r. if r = cs ''t'' then Some demo_table else None),
     try_table_open = (\<lambda>oid. if oid = 16400 then Some demo_table else None),
     delta_option = (\<lambda>_ _. None), split_identifier = (\<lambda>_. None),
     funcname_candidates = (\<lambda>_. [])\<rparr>"

definition demo_junk :: SpockRelation where
  "demo_junk = \<lparr>sr_remoteid = 99, sr_nspname = [], sr_relname = [], sr_natts = 0, sr_attnames = [],
     sr_attrtypes = [], sr_attrtypmods = [], sr_reloid = 7, sr_idxoid = 7, sr_rel = None,
     sr_attmap = [], sr_has_delta_columns = True, sr_delta_apply_functions = [],
     sr_hasTriggers = False\<rparr>"

definition demo_cache :: relcache where
  "demo_cache = spock_relation_cache_update demo_junk 5 (cs ''public'' @ [0]) (cs ''t'' @ [0])
     [cs ''a'' @ [0], cs ''b'' @ [0]] [23, 23] [-1, -1] []"

lemmas demo_defs = demo_att_def demo_table_def demo_catalog_def demo_junk_def demo_cache_def

theorem spock_relation_open_maps_columns_witness:
  "\<exists>e h'. spock_relation_open demo_catalog [3] 5 demo_cache = Inr (Some e, h') \<and>
     sr_attmap e = [1, 0] \<and> entry_mapped e \<and> hash_find h' 5 = Some e"
proof -
  obtain entry where entry:
    "hash_find (fold spock_relcache_invalidate_callback [3] demo_cache) 5 = Some entry"
    "sr_reloid entry = InvalidOid" "distinct (take (sr_natts entry) (sr_attnames entry))"
    by (simp add: demo_defs spock_relation_cache_update_def relcache_enter_def
        spock_relcache_invalidate_callback_def hash_find_def hash_put_def cs_def ch_def cstr_of_def)
  obtain e h' where op: "spock_relation_open demo_catalog [3] 5 demo_cache = Inr (Some e, h')"
    and "sr_attmap e = [1, 0]"
    by (simp add: demo_defs spock_relation_open_def spock_relation_cache_update_def relcache_enter_def
        spock_relcache_invalidate_callback_def hash_find_def hash_put_def cs_def ch_def cstr_of_def
        tupdesc_get_att_by_name_def Let_def)
  then show ?thesis
    using spock_relation_open_maps_columns [OF entry op] by auto
qed

section \<open>The cache over time\<close>

text \<open>
  Every cache the apply worker can have: it starts empty and changes by the operations above, with
  whatever the local catalogs are at that moment.
\<close>

inductive relcache_reach :: "relcache \<Rightarrow> bool" where
  reach_empty: "relcache_reach []"
| reach_update: "relcache_reach h \<Longrightarrow>
    relcache_reach (spock_relation_cache_update junk rid nsp rn names types typmods h)"
| reach_updater: "relcache_reach h \<Longrightarrow> rr_natts rr = length (rr_attnames rr) \<Longrightarrow>
    relcache_reach (spock_relation_cache_updater junk rr h)"
| reach_invalidate: "relcache_reach h \<Longrightarrow> relcache_reach (spock_relcache_invalidate_callback oid h)"
| reach_reset: "relcache_reach h \<Longrightarrow> relcache_reach (spock_relation_cache_reset h)"
| reach_open: "relcache_reach h \<Longrightarrow> spock_relation_open cat pending rid h = Inr (x, h') \<Longrightarrow>
    relcache_reach h'"
| reach_close: "relcache_reach h \<Longrightarrow> hash_find h rid = Some e \<Longrightarrow>
    relcache_reach (hash_put rid (spock_relation_close e) h)"

definition entry_ok :: "uint32 \<Rightarrow> SpockRelation \<Rightarrow> bool" where
  "entry_ok k e \<longleftrightarrow>
     sr_remoteid e = k \<and> length (sr_attnames e) = sr_natts e \<and> length (sr_attmap e) = sr_natts e \<and>
     (sr_reloid e = InvalidOid \<or>
      (\<exists>r::Relation. rd_id r = sr_reloid e \<and>
         list_all2 (\<lambda>name i. i < length (rd_att r) \<and> attname (rd_att r ! i) = name)
           (sr_attnames e) (sr_attmap e)))"

definition relcache_ok :: "relcache \<Rightarrow> bool" where
  "relcache_ok h \<longleftrightarrow> hash_wf h \<and> (\<forall>k e. hash_find h k = Some e \<longrightarrow> entry_ok k e)"

lemma relcache_ok_put: "relcache_ok h \<Longrightarrow> entry_ok k e \<Longrightarrow> relcache_ok (hash_put k e h)"
  by (auto simp: relcache_ok_def hash_simps)

lemma relcache_ok_map:
  assumes "relcache_ok h" "\<And>k e. entry_ok k e \<Longrightarrow> entry_ok k (f e)"
  shows "relcache_ok (map (\<lambda>(k, e). (k, f e)) h)"
  using assms by (auto simp: relcache_ok_def hash_simps)

lemma relcache_ok_invalidate:
  "relcache_ok h \<Longrightarrow> relcache_ok (spock_relcache_invalidate_callback oid h)"
  unfolding spock_relcache_invalidate_callback_def
  by (auto intro!: relcache_ok_map simp: entry_ok_def)

lemma relcache_ok_invalidates:
  "relcache_ok h \<Longrightarrow> relcache_ok (fold spock_relcache_invalidate_callback pending h)"
  by (induction pending arbitrary: h) (auto intro: relcache_ok_invalidate)

lemma relcache_enter_remoteid: "relcache_ok h \<Longrightarrow> sr_remoteid (relcache_enter junk rid h) = rid"
  by (auto simp: relcache_enter_def relcache_ok_def entry_ok_def relcache_free_entry_def
      split: option.splits)

lemma entry_ok_rel [simp]: "entry_ok k (e\<lparr>sr_rel := x\<rparr>) = entry_ok k e"
  by (simp add: entry_ok_def)

lemma entry_ok_fresh:
  fixes r :: Relation
  assumes "list_all2 (\<lambda>name i. tupdesc_get_att_by_name (rd_att r) name = Inr i)
      (take (sr_natts e0) (sr_attnames e0)) attmap"
    and "entry_ok k e0"
  shows "entry_ok k (e0\<lparr>sr_rel := x, sr_attmap := attmap, sr_delta_apply_functions := f,
      sr_has_delta_columns := d, sr_reloid := rd_id r, sr_idxoid := i, sr_hasTriggers := t\<rparr>)"
proof -
  have "list_all2 (\<lambda>name i. i < length (rd_att r) \<and> attname (rd_att r ! i) = name)
      (sr_attnames e0) attmap"
    using assms by (auto simp: entry_ok_def dest: tupdesc_get_att_Inr elim: list_all2_mono)
  then show ?thesis
    using assms(2) by (auto simp: entry_ok_def dest: list_all2_lengthD)
qed

lemma relcache_ok_open:
  assumes "relcache_ok h0" "spock_relation_open cat pending rid h0 = Inr (x, h')"
  shows "relcache_ok h'"
proof -
  define h where "h = fold spock_relcache_invalidate_callback pending h0"
  have ok: "relcache_ok h" unfolding h_def by (rule relcache_ok_invalidates) fact
  show ?thesis
    using assms(2) ok unfolding spock_relation_open_def h_def [symmetric] Let_def
    by (auto split: option.splits if_splits dest!: relation_open_columns_result
        intro!: relcache_ok_put entry_ok_fresh) (auto simp: relcache_ok_def)
qed

lemma relcache_reach_ok: "relcache_reach h \<Longrightarrow> relcache_ok h"
proof (induction rule: relcache_reach.induct)
  case reach_empty
  show ?case by (simp add: relcache_ok_def hash_simps)
next
  case (reach_update h junk rid nsp rn names types typmods)
  then show ?case
    by (auto simp: spock_relation_cache_update_def Let_def entry_ok_def relcache_enter_remoteid
        intro!: relcache_ok_put)
next
  case (reach_updater h rr junk)
  then show ?case
    by (auto simp: spock_relation_cache_updater_def Let_def entry_ok_def relcache_enter_remoteid
        intro!: relcache_ok_put)
next
  case (reach_reset h)
  then show ?case
    unfolding spock_relation_cache_reset_def by (auto intro!: relcache_ok_map simp: entry_ok_def)
next
  case (reach_close h rid e)
  then show ?case
    by (auto simp: spock_relation_close_def relcache_ok_def hash_simps)
qed (auto intro: relcache_ok_invalidate relcache_ok_open)


lemma demo_cache_find:
  "hash_find demo_cache 5 = Some (demo_junk\<lparr>sr_remoteid := 5, sr_nspname := cs ''public'',
     sr_relname := cs ''t'', sr_natts := 2, sr_attnames := [cs ''a'', cs ''b''],
     sr_attrtypes := [23, 23], sr_attrtypmods := [-1, -1], sr_attmap := [0, 0],
     sr_has_delta_columns := False, sr_delta_apply_functions := [0, 0], sr_reloid := 0\<rparr>)"
  by (simp add: demo_cache_def spock_relation_cache_update_def relcache_enter_def hash_simps
      cs_def ch_def cstr_of_def)


text \<open>
  An invalidation for a local table, and a reset, leave no entry bound to it, so that the next
  opening looks the table up by name again; what was learnt from the provider is kept.
\<close>

lemma invalidation_unbinds:
  assumes "hash_find h k = Some e"
  shows "\<exists>e'. hash_find (spock_relcache_invalidate_callback oid h) k = Some e' \<and>
      sr_reloid e' = (if oid = InvalidOid \<or> sr_reloid e = oid then InvalidOid else sr_reloid e) \<and>
      e'\<lparr>sr_reloid := sr_reloid e\<rparr> = e"
    and "hash_find (spock_relation_cache_reset h) k = Some (e\<lparr>sr_reloid := InvalidOid\<rparr>)"
  using assms
  by (auto simp: spock_relcache_invalidate_callback_def spock_relation_cache_reset_def hash_simps)

end
