(* ===== verification/Spock_Proto_Native.thy ===== *)
theory Spock_Proto_Native
  imports Spock_Wire Spock_Relcache
begin

unbundle bit_operations_syntax

text \<open>
  The native replication protocol (\<open>src/spock_proto_native.c\<close>): one writer of the output plugin
  and one reader of the apply worker per kind of message.  A writer returns the bytes it appends
  to the message; a reader takes the rest of the message.  The byte format is the parameter
  \<open>pq\<close> of \<open>Spock_Wire\<close>; what the writers and readers call in PostgreSQL's type system is the
  parameter \<open>ops\<close>; \<open>wlsn\<close> is what \<open>GetXLogWriteRecPtr()\<close> returns.
\<close>

section \<open>Data\<close>

definition SPOCK_PROTO_VERSION_NUM :: uint32 where "SPOCK_PROTO_VERSION_NUM = 5"
definition SPOCK_PROTO_MIN_VERSION_NUM :: uint32 where "SPOCK_PROTO_MIN_VERSION_NUM = 4"
definition SPOCK_STARTUP_MSG_FORMAT_FLAT :: byte where "SPOCK_STARTUP_MSG_FORMAT_FLAT = 1"
definition IS_REPLICA_IDENTITY :: byte where "IS_REPLICA_IDENTITY = 1"
definition ORIGIN_FLAG_HAS_NAME :: byte where "ORIGIN_FLAG_HAS_NAME = 1"
definition TRUNCATE_CASCADE :: byte where "TRUNCATE_CASCADE = 1"
definition TRUNCATE_RESTART_SEQS :: byte where "TRUNCATE_RESTART_SEQS = 2"

text \<open>PostgreSQL's \<open>FirstNormalObjectId\<close>: oids below it are assigned during initdb.\<close>

definition FirstNormalObjectId :: Oid where "FirstNormalObjectId = 16384"

datatype proto_error =
    Message_data_error
  | Namespace_lookup_failed Oid
  | Type_lookup_failed Oid
  | Unsupported_tuple_type
  | Expected_new_tuple byte
  | Expected_action_NOK byte
  | Expected_action_N byte
  | Expected_action_OK byte
  | Relation_not_found uint32
  | Expected_tuple byte
  | Tuple_natts_mismatch nat nat
  | Binary_type_mismatch Oid Oid
  | Incorrect_binary_format bytes
  | Input_function_error
  | Unknown_data_representation byte
  | Expected_attrs byte
  | Expected_column byte
  | Expected_name byte
  | Undefined_behaviour
  | Relcache relcache_error

record pg_type =
  typtype :: byte
  typelem :: Oid
  typreceive :: Oid
  typsend :: Oid
  typoutput :: Oid

text \<open>
  The type system as the protocol uses it, over a type of datums.  \<open>receive_call\<close> returns the
  datum and the cursor it stopped at; \<^const>\<open>None\<close> of a call is an error it raised.
\<close>

record 'd datum_ops =
  type_lookup :: "Oid \<Rightarrow> pg_type option"
  is_external_ondisk :: "'d \<Rightarrow> bool"
  store_att_byval :: "int \<Rightarrow> 'd \<Rightarrow> bytes"
  byref_octets :: "int \<Rightarrow> 'd \<Rightarrow> bytes"
  varlena_octets :: "'d \<Rightarrow> bytes"
  send_call :: "Oid \<Rightarrow> 'd \<Rightarrow> bytes"
  output_call :: "Oid \<Rightarrow> 'd \<Rightarrow> bytes"
  fetch_att :: "int \<Rightarrow> bytes \<Rightarrow> 'd"
  pointer_datum :: "bytes \<Rightarrow> 'd"
  binary_input_info :: "Oid \<Rightarrow> Oid \<times> Oid"
  receive_call :: "Oid \<Rightarrow> bytes \<Rightarrow> Oid \<Rightarrow> uint32 \<Rightarrow> ('d \<times> int) option"
  input_info :: "Oid \<Rightarrow> Oid \<times> Oid"
  input_call :: "Oid \<Rightarrow> bytes \<Rightarrow> Oid \<Rightarrow> uint32 \<Rightarrow> 'd option"

record SpockOutputOpts =
  allow_internal_basetypes :: bool
  allow_binary_basetypes :: bool

text \<open>A transaction as the reorder buffer hands it to the writers.\<close>

record ReorderBufferTXN =
  txn_final_lsn :: XLogRecPtr
  txn_end_lsn :: XLogRecPtr
  txn_commit_time :: TimestampTz
  txn_xid :: TransactionId

text \<open>
  A column list: \<^const>\<open>None\<close> is the NULL \<open>Bitmapset\<close> (no restriction), otherwise the attribute
  numbers whose offset from \<open>FirstLowInvalidHeapAttributeNumber\<close> is a member.
\<close>

type_synonym att_list = "int list option"

text \<open>
  A tuple in local format: \<open>SpockTupleData\<close>.  A value slot that the reader does not write keeps
  its old content (\<open>Unset\<close>); the two poison values of the source are constructors of their own.
\<close>

datatype 'd tup_value = Unset | Deadbeef | Fbadbeef | Datum 'd

record 'd SpockTupleData =
  tup_values :: "nat \<Rightarrow> 'd tup_value"
  tup_nulls :: "nat \<Rightarrow> bool"
  tup_changed :: "nat \<Rightarrow> bool"

section \<open>Writers\<close>

text \<open>Protocol version 5 and later starts every message but the startup message with an LSN.\<close>

definition write_insert_lsn :: "pqformat \<Rightarrow> uint32 \<Rightarrow> XLogRecPtr \<Rightarrow> bytes" where
  "write_insert_lsn pq version wlsn = (if version \<ge> 5 then pq_sendint64 pq wlsn else [])"

definition put_char :: "pqformat \<Rightarrow> char \<Rightarrow> bytes" where
  "put_char pq c = pq_sendint8 pq (ch c)"

text \<open>The columns that are sent: not dropped, not generated, and in the column list if there is one.\<close>

definition att_sent :: "att_list \<Rightarrow> pg_attribute \<Rightarrow> bool" where
  "att_sent att_list att \<longleftrightarrow>
     \<not> (attisdropped att \<or> attgenerated att) \<and>
     (case att_list of None \<Rightarrow> True | Some ns \<Rightarrow> attnum att \<in> set ns)"

text \<open>\<open>pq_sendbytes(out, s, len)\<close> where \<open>s\<close> is a C string and \<open>len\<close> was computed from \<open>strlen(s) + 1\<close>.\<close>

definition cstring_octets :: "bytes \<Rightarrow> nat \<Rightarrow> bytes" where
  "cstring_octets s len = take len (s @ [0])"

definition write_one_att :: "pqformat \<Rightarrow> Relation \<Rightarrow> pg_attribute \<Rightarrow> bytes" where
  "write_one_att pq rel att =
     (let flags = (if attnum att \<in> set (rd_idattrs rel) then IS_REPLICA_IDENTITY else 0);
          len = word_of_nat (length (attname att) + 1) :: uint16
      in put_char pq (CHR ''C'') @ pq_sendint8 pq flags @
         put_char pq (CHR ''N'') @ pq_sendint16 pq len @
         cstring_octets (attname att) (unat len) @
         pq_sendint32 pq (atttypid att) @ pq_sendint32 pq (atttypmod att))"

definition spock_write_attrs :: "pqformat \<Rightarrow> Relation \<Rightarrow> att_list \<Rightarrow> bytes" where
  "spock_write_attrs pq rel att_list =
     (let live = filter (att_sent att_list) (rd_att rel)
      in put_char pq (CHR ''A'') @ pq_sendint16 pq (word_of_nat (length live)) @
         concat (map (write_one_att pq rel) live))"

definition spock_write_rel ::
  "pqformat \<Rightarrow> uint32 \<Rightarrow> XLogRecPtr \<Rightarrow> Relation \<Rightarrow> att_list \<Rightarrow> proto_error + bytes" where
  "spock_write_rel pq version wlsn rel att_list =
     (case rd_nspname rel of
        None \<Rightarrow> Inl (Namespace_lookup_failed (rd_id rel))
      | Some nspname \<Rightarrow>
          (let nspnamelen = word_of_nat (length nspname + 1) :: byte;
               relnamelen = word_of_nat (length (rd_relname rel) + 1) :: byte
           in Inr (write_insert_lsn pq version wlsn @ put_char pq (CHR ''R'') @
                   pq_sendint8 pq 0 @ pq_sendint32 pq (rd_id rel) @
                   pq_sendint8 pq nspnamelen @ cstring_octets nspname (unat nspnamelen) @
                   pq_sendint8 pq relnamelen @ cstring_octets (rd_relname rel) (unat relnamelen) @
                   spock_write_attrs pq rel att_list)))"

definition spock_write_begin ::
  "pqformat \<Rightarrow> uint32 \<Rightarrow> XLogRecPtr \<Rightarrow> ReorderBufferTXN \<Rightarrow> bytes" where
  "spock_write_begin pq version wlsn txn =
     write_insert_lsn pq version wlsn @ put_char pq (CHR ''B'') @ pq_sendint8 pq 0 @
     pq_sendint64 pq (txn_final_lsn txn) @ pq_sendint64 pq (txn_commit_time txn) @
     pq_sendint32 pq (txn_xid txn)"

definition spock_write_commit ::
  "pqformat \<Rightarrow> uint32 \<Rightarrow> XLogRecPtr \<Rightarrow> ReorderBufferTXN \<Rightarrow> XLogRecPtr \<Rightarrow> bytes" where
  "spock_write_commit pq version wlsn txn commit_lsn =
     write_insert_lsn pq version wlsn @ put_char pq (CHR ''C'') @ pq_sendint8 pq 0 @
     pq_sendint64 pq commit_lsn @ pq_sendint64 pq (txn_end_lsn txn) @
     pq_sendint64 pq (txn_commit_time txn) @
     (if version = 4 then pq_sendint64 pq wlsn else [])"

definition spock_write_origin ::
  "pqformat \<Rightarrow> uint32 \<Rightarrow> XLogRecPtr \<Rightarrow> RepOriginId \<Rightarrow> XLogRecPtr \<Rightarrow> bytes option \<Rightarrow> bytes" where
  "spock_write_origin pq version wlsn origin_id origin_lsn origin_name =
     (let flags = (if version \<ge> 5 \<and> origin_name \<noteq> None then ORIGIN_FLAG_HAS_NAME else 0)
      in write_insert_lsn pq version wlsn @ put_char pq (CHR ''O'') @ pq_sendint8 pq flags @
         pq_sendint64 pq origin_lsn @ pq_sendint16 pq origin_id @
         (if flags AND ORIGIN_FLAG_HAS_NAME \<noteq> 0 then pq_sendstring pq (the origin_name) else []))"

definition spock_write_commit_order :: "pqformat \<Rightarrow> uint32 \<Rightarrow> XLogRecPtr \<Rightarrow> TimestampTz \<Rightarrow> bytes" where
  "spock_write_commit_order pq version wlsn last_commit_ts =
     write_insert_lsn pq version wlsn @ put_char pq (CHR ''L'') @ pq_sendint8 pq 0 @
     pq_sendint64 pq last_commit_ts"

definition decide_datum_transfer :: "pg_attribute \<Rightarrow> pg_type \<Rightarrow> bool \<Rightarrow> bool \<Rightarrow> char" where
  "decide_datum_transfer att typclass allow_internal allow_binary =
     (if allow_internal \<and> typtype typclass = ch (CHR ''b'') \<and>
         atttypid att < FirstNormalObjectId \<and> typelem typclass = InvalidOid
      then CHR ''i''
      else if allow_binary \<and> typreceive typclass \<noteq> InvalidOid \<and>
         (atttypid att < FirstNormalObjectId \<or> typtype typclass \<noteq> ch (CHR ''c'')) \<and>
         (atttypid att < FirstNormalObjectId \<or> typelem typclass = InvalidOid)
      then CHR ''b''
      else CHR ''t'')"

text \<open>One column of \<open>spock_write_tuple\<close>; \<^const>\<open>None\<close> is a null.\<close>

definition write_column ::
  "pqformat \<Rightarrow> 'd datum_ops \<Rightarrow> SpockOutputOpts \<Rightarrow> pg_attribute \<times> 'd option \<Rightarrow> proto_error + bytes" where
  "write_column pq ops data = (\<lambda>(att, value).
     case value of
       None \<Rightarrow> Inr (put_char pq (CHR ''n''))
     | Some d \<Rightarrow>
         if attlen att = - 1 \<and> is_external_ondisk ops d then Inr (put_char pq (CHR ''u''))
         else (case type_lookup ops (atttypid att) of
           None \<Rightarrow> Inl (Type_lookup_failed (atttypid att))
         | Some typclass \<Rightarrow>
             (let transfer_type = decide_datum_transfer att typclass
                    (allow_internal_basetypes data) (allow_binary_basetypes data)
              in if transfer_type = CHR ''i'' then
                   (if attbyval att then
                      Inr (put_char pq (CHR ''i'') @ pq_sendint32 pq (word_of_int (attlen att)) @
                           store_att_byval ops (attlen att) d)
                    else if attlen att > 0 then
                      Inr (put_char pq (CHR ''i'') @ pq_sendint32 pq (word_of_int (attlen att)) @
                           byref_octets ops (attlen att) d)
                    else if attlen att = - 1 then
                      Inr (put_char pq (CHR ''i'') @
                           pq_sendint32 pq (word_of_nat (length (varlena_octets ops d))) @
                           varlena_octets ops d)
                    else Inl Unsupported_tuple_type)
                 else if transfer_type = CHR ''b'' then
                   (let outputbytes = send_call ops (typsend typclass) d
                    in Inr (put_char pq (CHR ''b'') @
                            pq_sendint32 pq (word_of_nat (length outputbytes)) @ outputbytes))
                 else
                   (let outputstr = output_call ops (typoutput typclass) d
                    in Inr (put_char pq (CHR ''t'') @
                            pq_sendint32 pq (word_of_nat (length outputstr + 1)) @
                            outputstr @ [0])))))"

text \<open>\<open>tuple\<close> is the deformed heap tuple, one value per attribute of the relation.\<close>

definition spock_write_tuple ::
  "pqformat \<Rightarrow> 'd datum_ops \<Rightarrow> SpockOutputOpts \<Rightarrow> Relation \<Rightarrow> 'd option list \<Rightarrow> att_list
     \<Rightarrow> proto_error + bytes" where
  "spock_write_tuple pq ops data rel tuple att_list =
     (let live = filter (\<lambda>(att, _). att_sent att_list att) (zip (rd_att rel) tuple)
      in res_bind (res_map (write_column pq ops data) live) (\<lambda>cols.
           Inr (put_char pq (CHR ''T'') @ pq_sendint16 pq (word_of_nat (length live)) @
                concat cols)))"

definition spock_write_insert ::
  "pqformat \<Rightarrow> 'd datum_ops \<Rightarrow> uint32 \<Rightarrow> XLogRecPtr \<Rightarrow> SpockOutputOpts \<Rightarrow> Relation
     \<Rightarrow> 'd option list \<Rightarrow> att_list \<Rightarrow> proto_error + bytes" where
  "spock_write_insert pq ops version wlsn data rel newtuple att_list =
     res_bind (spock_write_tuple pq ops data rel newtuple att_list) (\<lambda>t.
       Inr (write_insert_lsn pq version wlsn @ put_char pq (CHR ''I'') @ pq_sendint8 pq 0 @
            pq_sendint32 pq (rd_id rel) @ put_char pq (CHR ''N'') @ t))"

definition spock_write_update ::
  "pqformat \<Rightarrow> 'd datum_ops \<Rightarrow> uint32 \<Rightarrow> XLogRecPtr \<Rightarrow> SpockOutputOpts \<Rightarrow> Relation
     \<Rightarrow> 'd option list option \<Rightarrow> 'd option list \<Rightarrow> att_list \<Rightarrow> proto_error + bytes" where
  "spock_write_update pq ops version wlsn data rel oldtuple newtuple att_list =
     res_bind (case oldtuple of
                 None \<Rightarrow> Inr []
               | Some old \<Rightarrow> res_bind (spock_write_tuple pq ops data rel old att_list)
                               (\<lambda>t. Inr (put_char pq (CHR ''K'') @ t))) (\<lambda>old.
       res_bind (spock_write_tuple pq ops data rel newtuple att_list) (\<lambda>t.
         Inr (write_insert_lsn pq version wlsn @ put_char pq (CHR ''U'') @ pq_sendint8 pq 0 @
              pq_sendint32 pq (rd_id rel) @ old @ put_char pq (CHR ''N'') @ t)))"

definition spock_write_delete ::
  "pqformat \<Rightarrow> 'd datum_ops \<Rightarrow> uint32 \<Rightarrow> XLogRecPtr \<Rightarrow> SpockOutputOpts \<Rightarrow> Relation
     \<Rightarrow> 'd option list \<Rightarrow> att_list \<Rightarrow> proto_error + bytes" where
  "spock_write_delete pq ops version wlsn data rel oldtuple att_list =
     res_bind (spock_write_tuple pq ops data rel oldtuple att_list) (\<lambda>t.
       Inr (write_insert_lsn pq version wlsn @ put_char pq (CHR ''D'') @ pq_sendint8 pq 0 @
            pq_sendint32 pq (rd_id rel) @ put_char pq (CHR ''K'') @ t))"

definition write_startup_message :: "pqformat \<Rightarrow> (bytes \<times> bytes) list \<Rightarrow> bytes" where
  "write_startup_message pq msg =
     put_char pq (CHR ''S'') @ pq_sendint8 pq SPOCK_STARTUP_MSG_FORMAT_FLAT @
     concat (map (\<lambda>(k, v). pq_sendstring pq k @ pq_sendstring pq v) msg)"

definition spock_write_message ::
  "pqformat \<Rightarrow> uint32 \<Rightarrow> XLogRecPtr \<Rightarrow> TransactionId \<Rightarrow> XLogRecPtr \<Rightarrow> bool \<Rightarrow> bytes \<Rightarrow> bytes \<Rightarrow> bytes" where
  "spock_write_message pq version wlsn xid lsn transactional prefix message =
     write_insert_lsn pq version wlsn @ put_char pq (CHR ''M'') @
     pq_sendint32 pq xid @ pq_sendint64 pq lsn @
     pq_sendint8 pq (if transactional then 1 else 0) @ pq_sendstring pq prefix @
     pq_sendint32 pq (word_of_nat (length message)) @ message"

definition spock_write_truncate ::
  "pqformat \<Rightarrow> uint32 \<Rightarrow> XLogRecPtr \<Rightarrow> Oid list \<Rightarrow> bool \<Rightarrow> bool \<Rightarrow> bytes" where
  "spock_write_truncate pq version wlsn relids cascade restart_seqs =
     (let flags = (if cascade then TRUNCATE_CASCADE else 0) OR
                  (if restart_seqs then TRUNCATE_RESTART_SEQS else 0)
      in write_insert_lsn pq version wlsn @ put_char pq (CHR ''T'') @
         pq_sendint32 pq (word_of_nat (length relids)) @ pq_sendint8 pq flags @
         concat (map (pq_sendint32 pq) relids))"

section \<open>Readers\<close>

text \<open>
  The \<open>pq_getmsg\<close> routines as readers.  \<open>Undefined_behaviour\<close> marks a read past the end of an
  array of the relation cache entry or through a NULL relation, where C gives no meaning.
\<close>

definition get8 :: "pqformat \<Rightarrow> (proto_error, byte) rd" where
  "get8 pq = rd_lift Message_data_error (pq_getmsgint8 pq)"

definition get16 :: "pqformat \<Rightarrow> (proto_error, uint16) rd" where
  "get16 pq = rd_lift Message_data_error (pq_getmsgint16 pq)"

definition get32 :: "pqformat \<Rightarrow> (proto_error, uint32) rd" where
  "get32 pq = rd_lift Message_data_error (pq_getmsgint32 pq)"

definition get64 :: "pqformat \<Rightarrow> (proto_error, uint64) rd" where
  "get64 pq = rd_lift Message_data_error (pq_getmsgint64 pq)"

definition getbytes :: "pqformat \<Rightarrow> int \<Rightarrow> (proto_error, bytes) rd" where
  "getbytes pq n = rd_lift Message_data_error (pq_getmsgbytes pq n)"

definition getstring :: "pqformat \<Rightarrow> (proto_error, bytes) rd" where
  "getstring pq = rd_lift Message_data_error (pq_getmsgstring pq)"

definition getrawstring :: "pqformat \<Rightarrow> (proto_error, bytes) rd" where
  "getrawstring pq = rd_lift Message_data_error (pq_getmsgrawstring pq)"

definition rd_result :: "'e + 'a \<Rightarrow> ('e, 'a) rd" where
  "rd_result m = (\<lambda>s. case m of Inl e \<Rightarrow> Inl e | Inr a \<Rightarrow> Inr (a, s))"

text \<open>
  What \<open>apply_work\<close> and \<open>replication_handler\<close> read before they dispatch: the publisher's insert
  position when the protocol is version 5 or later, and the action byte.
\<close>

definition read_header :: "pqformat \<Rightarrow> uint32 \<Rightarrow> (proto_error, XLogRecPtr option \<times> byte) rd" where
  "read_header pq version =
     (if version \<ge> 5 then
        rd_bind (get64 pq) (\<lambda>last_inserted. rd_bind (get8 pq) (\<lambda>action.
          rd_ret (Some last_inserted, action)))
      else rd_bind (get8 pq) (\<lambda>action. rd_ret (None, action)))"

definition spock_read_begin ::
  "pqformat \<Rightarrow> (proto_error, XLogRecPtr \<times> TimestampTz \<times> TransactionId) rd" where
  "spock_read_begin pq =
     rd_bind (get8 pq) (\<lambda>flags. rd_bind (get64 pq) (\<lambda>remote_lsn.
     rd_bind (get64 pq) (\<lambda>committime. rd_bind (get32 pq) (\<lambda>remote_xid.
     rd_ret (remote_lsn, committime, remote_xid)))))"

definition spock_read_commit ::
  "pqformat \<Rightarrow> uint32 \<Rightarrow> (proto_error, XLogRecPtr \<times> XLogRecPtr \<times> TimestampTz \<times> XLogRecPtr) rd" where
  "spock_read_commit pq apply_version =
     rd_bind (get8 pq) (\<lambda>flags. rd_bind (get64 pq) (\<lambda>commit_lsn.
     rd_bind (get64 pq) (\<lambda>end_lsn. rd_bind (get64 pq) (\<lambda>committime.
     if apply_version = 4 then
       rd_bind (get64 pq) (\<lambda>remote_insert_lsn.
         rd_ret (commit_lsn, end_lsn, committime, remote_insert_lsn))
     else rd_ret (commit_lsn, end_lsn, committime, InvalidXLogRecPtr)))))"

definition spock_read_origin ::
  "pqformat \<Rightarrow> (proto_error, RepOriginId \<times> XLogRecPtr \<times> bytes option) rd" where
  "spock_read_origin pq =
     rd_bind (get8 pq) (\<lambda>flags. rd_bind (get64 pq) (\<lambda>origin_lsn. rd_bind (get16 pq) (\<lambda>origin_id.
     if flags AND ORIGIN_FLAG_HAS_NAME \<noteq> 0 then
       rd_bind (getrawstring pq) (\<lambda>name. rd_ret (origin_id, origin_lsn, Some name))
     else rd_ret (origin_id, origin_lsn, None))))"

definition spock_read_commit_order :: "pqformat \<Rightarrow> (proto_error, TimestampTz) rd" where
  "spock_read_commit_order pq = rd_bind (get8 pq) (\<lambda>flags. get64 pq)"

definition set_col :: "nat \<Rightarrow> 'd tup_value \<Rightarrow> bool \<Rightarrow> bool \<Rightarrow> 'd SpockTupleData \<Rightarrow> 'd SpockTupleData" where
  "set_col attid v isnull changed tup =
     tup\<lparr>tup_values := (tup_values tup)(attid := v),
         tup_nulls := (tup_nulls tup)(attid := isnull),
         tup_changed := (tup_changed tup)(attid := changed)\<rparr>"

text \<open>The \<open>switch (kind)\<close> of \<open>spock_read_tuple\<close> for local column \<open>attid\<close>.\<close>

definition read_column ::
  "pqformat \<Rightarrow> 'd datum_ops \<Rightarrow> pg_attribute \<Rightarrow> Oid \<Rightarrow> Oid \<Rightarrow> nat \<Rightarrow> byte \<Rightarrow> 'd SpockTupleData
     \<Rightarrow> (proto_error, 'd SpockTupleData) rd" where
  "read_column pq ops att attrtype attrtypmod attid kind tup =
     (if kind = ch (CHR ''n'') then
        rd_ret (set_col attid Deadbeef (tup_nulls tup attid) True tup)
      else if kind = ch (CHR ''u'') then
        rd_ret (set_col attid Fbadbeef (tup_nulls tup attid) (tup_changed tup attid) tup)
      else if kind = ch (CHR ''i'') then
        rd_bind (get32 pq) (\<lambda>len. rd_bind (getbytes pq (sint len)) (\<lambda>data.
          rd_ret (set_col attid
            (Datum (if attbyval att then fetch_att ops (sint len) data else pointer_datum ops data))
            False True tup)))
      else if kind = ch (CHR ''b'') then
        rd_bind (get32 pq) (\<lambda>len.
          if (atttypid att \<noteq> attrtype \<or> atttypmod att \<noteq> attrtypmod) \<and>
             atttypid att < FirstNormalObjectId \<and> attrtype < FirstNormalObjectId
          then rd_fail (Binary_type_mismatch attrtype (atttypid att))
          else (case binary_input_info ops (atttypid att) of (recvfn, typioparam) \<Rightarrow>
            rd_bind (getbytes pq (sint len)) (\<lambda>buf.
              case receive_call ops recvfn buf typioparam (atttypmod att) of
                None \<Rightarrow> rd_fail Input_function_error
              | Some (d, cursor) \<Rightarrow>
                  if sint len \<noteq> cursor then rd_fail (Incorrect_binary_format (attname att))
                  else rd_ret (set_col attid (Datum d) False True tup))))
      else if kind = ch (CHR ''t'') then
        rd_bind (get32 pq) (\<lambda>len. case input_info ops (atttypid att) of (typinput, typioparam) \<Rightarrow>
          rd_bind (getbytes pq (sint len)) (\<lambda>data.
            case input_call ops typinput (cstr_of data) typioparam (atttypmod att) of
              None \<Rightarrow> rd_fail Input_function_error
            | Some d \<Rightarrow> rd_ret (set_col attid (Datum d) False True tup)))
      else rd_fail (Unknown_data_representation kind))"

text \<open>The loop over the columns, from column \<open>i\<close> on with \<open>n\<close> columns left.\<close>

fun read_columns ::
  "pqformat \<Rightarrow> 'd datum_ops \<Rightarrow> SpockRelation \<Rightarrow> pg_attribute list \<Rightarrow> nat \<Rightarrow> nat
     \<Rightarrow> 'd SpockTupleData \<Rightarrow> (proto_error, 'd SpockTupleData) rd" where
  "read_columns pq ops rel desc i 0 tup = rd_ret tup"
| "read_columns pq ops rel desc i (Suc n) tup =
     (if i < length (sr_attmap rel) \<and> i < length (sr_attrtypes rel) \<and>
         i < length (sr_attrtypmods rel) \<and> sr_attmap rel ! i < length desc
      then rd_bind (get8 pq) (\<lambda>kind.
             rd_bind (read_column pq ops (desc ! (sr_attmap rel ! i)) (sr_attrtypes rel ! i)
                        (sr_attrtypmods rel ! i) (sr_attmap rel ! i) kind tup) (\<lambda>tup'.
               read_columns pq ops rel desc (Suc i) n tup'))
      else rd_fail Undefined_behaviour)"

definition tup_reset :: "'d SpockTupleData \<Rightarrow> 'd SpockTupleData" where
  "tup_reset tup = tup\<lparr>tup_nulls := \<lambda>_. True, tup_changed := \<lambda>_. False\<rparr>"

definition spock_read_tuple ::
  "pqformat \<Rightarrow> 'd datum_ops \<Rightarrow> SpockRelation \<Rightarrow> 'd SpockTupleData
     \<Rightarrow> (proto_error, 'd SpockTupleData) rd" where
  "spock_read_tuple pq ops rel tuple =
     rd_bind (get8 pq) (\<lambda>action.
     if action \<noteq> ch (CHR ''T'') then rd_fail (Expected_tuple action)
     else rd_bind (get16 pq) (\<lambda>natts.
       if sr_natts rel \<noteq> unat natts then rd_fail (Tuple_natts_mismatch (sr_natts rel) (unat natts))
       else (case sr_rel rel of
               None \<Rightarrow> rd_fail Undefined_behaviour
             | Some r \<Rightarrow> read_columns pq ops rel (rd_att r) 0 (unat natts) (tup_reset tuple))))"

text \<open>Opening the relation a change names, in the three readers of changes.\<close>

definition read_open_rel ::
  "local_catalog \<Rightarrow> Oid list \<Rightarrow> bool \<Rightarrow> uint32 \<Rightarrow> relcache
     \<Rightarrow> (proto_error, SpockRelation option \<times> relcache) rd" where
  "read_open_rel cat pending use_try_block relid h =
     rd_bind (rd_result (map_sum Relcache id (spock_relation_open cat pending relid h))) (\<lambda>(rel, h').
       if rel = None \<and> \<not> use_try_block then rd_fail (Relation_not_found relid)
       else rd_ret (rel, h'))"

definition spock_read_insert ::
  "pqformat \<Rightarrow> 'd datum_ops \<Rightarrow> local_catalog \<Rightarrow> Oid list \<Rightarrow> bool \<Rightarrow> relcache \<Rightarrow> 'd SpockTupleData
     \<Rightarrow> (proto_error, SpockRelation option \<times> relcache \<times> 'd SpockTupleData) rd" where
  "spock_read_insert pq ops cat pending use_try_block h newtup =
     rd_bind (get8 pq) (\<lambda>flags. rd_bind (get32 pq) (\<lambda>relid. rd_bind (get8 pq) (\<lambda>action.
     if action \<noteq> ch (CHR ''N'') then rd_fail (Expected_new_tuple action)
     else rd_bind (read_open_rel cat pending use_try_block relid h) (\<lambda>(rel, h').
       case rel of
         None \<Rightarrow> rd_ret (None, h', newtup)
       | Some r \<Rightarrow> rd_bind (spock_read_tuple pq ops r newtup) (\<lambda>newtup'.
           rd_ret (Some r, h', newtup'))))))"

text \<open>The result of an UPDATE message: the relation, whether there is an old tuple, both tuples.\<close>

definition spock_read_update ::
  "pqformat \<Rightarrow> 'd datum_ops \<Rightarrow> local_catalog \<Rightarrow> Oid list \<Rightarrow> bool \<Rightarrow> relcache
     \<Rightarrow> 'd SpockTupleData \<Rightarrow> 'd SpockTupleData
     \<Rightarrow> (proto_error, SpockRelation option \<times> relcache \<times> bool \<times> 'd SpockTupleData \<times> 'd SpockTupleData) rd" where
  "spock_read_update pq ops cat pending use_try_block h oldtup newtup =
     rd_bind (get8 pq) (\<lambda>flags. rd_bind (get32 pq) (\<lambda>relid. rd_bind (get8 pq) (\<lambda>action.
     if action \<noteq> ch (CHR ''K'') \<and> action \<noteq> ch (CHR ''O'') \<and> action \<noteq> ch (CHR ''N'')
     then rd_fail (Expected_action_NOK action)
     else rd_bind (read_open_rel cat pending use_try_block relid h) (\<lambda>(rel, h').
       case rel of
         None \<Rightarrow> rd_ret (None, h', False, oldtup, newtup)
       | Some r \<Rightarrow>
           rd_bind (if action = ch (CHR ''K'') \<or> action = ch (CHR ''O'') then
                      rd_bind (spock_read_tuple pq ops r oldtup) (\<lambda>oldtup'.
                      rd_bind (get8 pq) (\<lambda>action'. rd_ret (True, oldtup', action')))
                    else rd_ret (False, oldtup, action)) (\<lambda>(hasoldtup, oldtup', action').
             if action' \<noteq> ch (CHR ''N'') then rd_fail (Expected_action_N action')
             else rd_bind (spock_read_tuple pq ops r newtup) (\<lambda>newtup'.
               rd_ret (Some r, h', hasoldtup, oldtup', newtup')))))))"

definition spock_read_delete ::
  "pqformat \<Rightarrow> 'd datum_ops \<Rightarrow> local_catalog \<Rightarrow> Oid list \<Rightarrow> bool \<Rightarrow> relcache \<Rightarrow> 'd SpockTupleData
     \<Rightarrow> (proto_error, SpockRelation option \<times> relcache \<times> 'd SpockTupleData) rd" where
  "spock_read_delete pq ops cat pending use_try_block h oldtup =
     rd_bind (get8 pq) (\<lambda>flags. rd_bind (get32 pq) (\<lambda>relid. rd_bind (get8 pq) (\<lambda>action.
     if action \<noteq> ch (CHR ''K'') \<and> action \<noteq> ch (CHR ''O'') then rd_fail (Expected_action_OK action)
     else rd_bind (read_open_rel cat pending use_try_block relid h) (\<lambda>(rel, h').
       case rel of
         None \<Rightarrow> rd_ret (None, h', oldtup)
       | Some r \<Rightarrow> rd_bind (spock_read_tuple pq ops r oldtup) (\<lambda>oldtup'.
           rd_ret (Some r, h', oldtup'))))))"

definition read_one_att :: "pqformat \<Rightarrow> (proto_error, bytes \<times> Oid \<times> Oid) rd" where
  "read_one_att pq =
     rd_bind (get8 pq) (\<lambda>blocktype.
     if blocktype \<noteq> ch (CHR ''C'') then rd_fail (Expected_column blocktype)
     else rd_bind (get8 pq) (\<lambda>flags. rd_bind (get8 pq) (\<lambda>blocktype'.
       if blocktype' \<noteq> ch (CHR ''N'') then rd_fail (Expected_name blocktype')
       else rd_bind (get16 pq) (\<lambda>len. rd_bind (getbytes pq (uint len)) (\<lambda>name.
         rd_bind (get32 pq) (\<lambda>typ. rd_bind (get32 pq) (\<lambda>typmod. rd_ret (name, typ, typmod))))))))"

definition spock_read_attrs :: "pqformat \<Rightarrow> (proto_error, (bytes \<times> Oid \<times> Oid) list) rd" where
  "spock_read_attrs pq =
     rd_bind (get8 pq) (\<lambda>blocktype.
     if blocktype \<noteq> ch (CHR ''A'') then rd_fail (Expected_attrs blocktype)
     else rd_bind (get16 pq) (\<lambda>nattrs. rd_many (unat nattrs) (read_one_att pq)))"

definition spock_read_rel ::
  "pqformat \<Rightarrow> SpockRelation \<Rightarrow> relcache \<Rightarrow> (proto_error, uint32 \<times> relcache) rd" where
  "spock_read_rel pq junk h =
     rd_bind (get8 pq) (\<lambda>flags. rd_bind (get32 pq) (\<lambda>relid.
     rd_bind (get8 pq) (\<lambda>nsplen. rd_bind (getbytes pq (uint nsplen)) (\<lambda>schemaname.
     rd_bind (get8 pq) (\<lambda>rellen. rd_bind (getbytes pq (uint rellen)) (\<lambda>relname.
     rd_bind (spock_read_attrs pq) (\<lambda>attrs.
       rd_ret (relid, spock_relation_cache_update junk relid schemaname relname
                        (map fst attrs) (map (fst \<circ> snd) attrs) (map (snd \<circ> snd) attrs) h))))))))"

definition spock_read_truncate :: "pqformat \<Rightarrow> (proto_error, Oid list \<times> bool \<times> bool) rd" where
  "spock_read_truncate pq =
     rd_bind (get32 pq) (\<lambda>nrelids. rd_bind (get8 pq) (\<lambda>flags.
     rd_bind (rd_many (nat (sint nrelids)) (get32 pq)) (\<lambda>relids.
       rd_ret (relids, flags AND TRUNCATE_CASCADE > 0, flags AND TRUNCATE_RESTART_SEQS > 0))))"

section \<open>What the readers make of the writers' bytes\<close>

lemmas get_defs = get8_def get16_def get32_def get64_def getbytes_def getstring_def getrawstring_def

lemma unat_name8: "n < 255 \<Longrightarrow> unat (word_of_nat (n + 1) :: byte) = n + 1"
  by (simp add: unat_of_nat del: of_nat_add of_nat_Suc)

lemma unat_name16: "n < 65535 \<Longrightarrow> unat (word_of_nat (n + 1) :: uint16) = n + 1"
  by (simp add: unat_of_nat del: of_nat_add of_nat_Suc)

lemma sint_len32: "n < 2 ^ 31 \<Longrightarrow> sint (word_of_nat n :: uint32) = int n"
  by (simp add: signed_of_nat signed_take_bit_int_eq_self)

lemma sint_int32: "0 \<le> n \<Longrightarrow> n < 2 ^ 31 \<Longrightarrow> sint (word_of_int n :: uint32) = n"
  by (simp add: signed_of_int signed_take_bit_int_eq_self)

lemma cstring_octets_all: "len = length s + 1 \<Longrightarrow> cstring_octets s len = s @ [0]"
  by (simp add: cstring_octets_def)

context pq_format
begin

lemma get_put [rd_simps]:
  "get8 pq (pq_sendint8 pq b @ r) = Inr (b, r)"
  "get8 pq (put_char pq c @ r) = Inr (ch c, r)"
  "get16 pq (pq_sendint16 pq w @ r) = Inr (w, r)"
  "get32 pq (pq_sendint32 pq d @ r) = Inr (d, r)"
  "get64 pq (pq_sendint64 pq q @ r) = Inr (q, r)"
  by (simp_all add: get_defs put_char_def rd_laws)

lemma get_put_end [rd_simps]:
  "get8 pq (pq_sendint8 pq b) = Inr (b, [])"
  "get8 pq (put_char pq c) = Inr (ch c, [])"
  "get16 pq (pq_sendint16 pq w) = Inr (w, [])"
  "get32 pq (pq_sendint32 pq d) = Inr (d, [])"
  "get64 pq (pq_sendint64 pq q) = Inr (q, [])"
  using get_put [where r = "[]"] by simp_all

lemma getbytes_app [rd_simps]:
  "length s = n \<Longrightarrow> n < 2 ^ 31 \<Longrightarrow> getbytes pq (int n) (s @ r) = Inr (s, r)"
  by (simp add: get_defs rd_laws)

lemma getstring_put [rd_simps]:
  "cstr s \<Longrightarrow> getstring pq (pq_sendstring pq s @ r) = Inr (s, r)"
  "cstr s \<Longrightarrow> getrawstring pq (pq_sendstring pq s @ r) = Inr (s, r)"
  "cstr s \<Longrightarrow> getrawstring pq (pq_sendstring pq s) = Inr (s, [])"
  using getraw_sendstring [of s "[]"] by (simp_all add: get_defs get_laws rd_lift_def)

lemma header_written [rd_simps]:
  "read_header pq v (write_insert_lsn pq v wlsn @ put_char pq c @ r) =
     Inr ((if 5 \<le> v then Some wlsn else None, ch c), r)"
  by (simp add: read_header_def write_insert_lsn_def rd_simps)

lemma begin_written:
  "rd_bind (read_header pq v) (\<lambda>h. rd_bind (spock_read_begin pq) (\<lambda>x. rd_ret (h, x)))
     (spock_write_begin pq v wlsn txn) =
   Inr (((if 5 \<le> v then Some wlsn else None, ch (CHR ''B'')),
         txn_final_lsn txn, txn_commit_time txn, txn_xid txn), [])"
  by (simp add: rd_simps spock_write_begin_def spock_read_begin_def)

lemma commit_written:
  "rd_bind (read_header pq v) (\<lambda>h. rd_bind (spock_read_commit pq v) (\<lambda>x. rd_ret (h, x)))
     (spock_write_commit pq v wlsn txn commit_lsn) =
   Inr (((if 5 \<le> v then Some wlsn else None, ch (CHR ''C'')),
         commit_lsn, txn_end_lsn txn, txn_commit_time txn, if v = 4 then wlsn else 0), [])"
  by (simp add: rd_simps spock_write_commit_def spock_read_commit_def)

lemma origin_written:
  assumes "\<And>n. origin_name = Some n \<Longrightarrow> cstr n"
  shows "rd_bind (read_header pq v) (\<lambda>h. rd_bind (spock_read_origin pq) (\<lambda>x. rd_ret (h, x)))
     (spock_write_origin pq v wlsn origin_id origin_lsn origin_name) =
   Inr (((if 5 \<le> v then Some wlsn else None, ch (CHR ''O'')),
         origin_id, origin_lsn, if 5 \<le> v then origin_name else None), [])"
  using assms
  by (cases origin_name)
    (auto simp add: rd_simps spock_write_origin_def spock_read_origin_def ORIGIN_FLAG_HAS_NAME_def)

lemma commit_order_written:
  "rd_bind (read_header pq v) (\<lambda>h. rd_bind (spock_read_commit_order pq) (\<lambda>x. rd_ret (h, x)))
     (spock_write_commit_order pq v wlsn ts) =
   Inr (((if 5 \<le> v then Some wlsn else None, ch (CHR ''L'')), ts), [])"
  by (simp add: rd_simps spock_write_commit_order_def spock_read_commit_order_def)

lemma truncate_flags:
  fixes c r :: bool
  defines "flags \<equiv> (if c then TRUNCATE_CASCADE else 0) OR (if r then TRUNCATE_RESTART_SEQS else 0)"
  shows "flags AND TRUNCATE_CASCADE > 0 \<longleftrightarrow> c" "flags AND TRUNCATE_RESTART_SEQS > 0 \<longleftrightarrow> r"
  unfolding flags_def TRUNCATE_CASCADE_def TRUNCATE_RESTART_SEQS_def
  by (cases c; cases r; simp)+

lemma truncate_written:
  assumes "length relids < 2 ^ 31"
  shows "rd_bind (read_header pq v) (\<lambda>h. rd_bind (spock_read_truncate pq) (\<lambda>x. rd_ret (h, x)))
     (spock_write_truncate pq v wlsn relids cascade restart_seqs) =
   Inr (((if 5 \<le> v then Some wlsn else None, ch (CHR ''T'')),
         relids, cascade, restart_seqs), [])"
proof -
  have "rd_many (length relids) (get32 pq) (concat (map (pq_sendint32 pq) relids)) = Inr (relids, [])"
    using rd_many_encoded [where m = "get32 pq" and enc = "pq_sendint32 pq" and dec = id
        and xs = relids and r = "[]"] by (simp add: rd_simps)
  with assms show ?thesis
    by (simp add: rd_simps spock_write_truncate_def spock_read_truncate_def truncate_flags
        sint_len32)
qed

text \<open>A name with its length before it, at both widths the protocol uses.\<close>

lemma getbytes_name:
  fixes len :: "'w::len word"
  assumes "unat len = Suc (length s)" "Suc (length s) < 2 ^ 31"
  shows "getbytes pq (uint len) (cstring_octets s (Suc (length s)) @ r) = Inr (s @ [0], r)"
proof -
  have "uint len = int (Suc (length s))"
    using assms(1) by (metis of_nat_unat)
  moreover have "getbytes pq (int (Suc (length s))) ((s @ [0]) @ r) = Inr (s @ [0], r)"
    by (rule getbytes_app) (use assms(2) in simp_all)
  ultimately show ?thesis
    using assms(1) by (simp add: cstring_octets_all)
qed

lemma one_att_written:
  assumes "length (attname att) < 65535"
  shows "read_one_att pq (write_one_att pq rel att @ r) =
    Inr ((attname att @ [0], atttypid att, atttypmod att), r)"
  using assms unat_name16 [OF assms]
  by (simp add: write_one_att_def read_one_att_def Let_def rd_simps getbytes_name
      del: of_nat_add of_nat_Suc)

lemma attrs_written:
  assumes "\<And>att. att \<in> set (rd_att rel) \<Longrightarrow> length (attname att) < 65535"
    and "length (filter (att_sent att_list) (rd_att rel)) < 65536"
  shows "spock_read_attrs pq (spock_write_attrs pq rel att_list @ r) =
    Inr (map (\<lambda>att. (attname att @ [0], atttypid att, atttypmod att))
           (filter (att_sent att_list) (rd_att rel)), r)"
proof -
  let ?live = "filter (att_sent att_list) (rd_att rel)"
  have "rd_many (length ?live) (read_one_att pq) (concat (map (write_one_att pq rel) ?live) @ r) =
      Inr (map (\<lambda>att. (attname att @ [0], atttypid att, atttypmod att)) ?live, r)"
    by (rule rd_many_encoded) (use assms(1) in \<open>auto intro: one_att_written\<close>)
  moreover have "unat (word_of_nat (length ?live) :: uint16) = length ?live"
    using assms(2) by (simp add: unat_of_nat)
  ultimately show ?thesis
    by (simp add: spock_write_attrs_def spock_read_attrs_def Let_def rd_simps)
qed

lemma rel_written:
  assumes "rd_nspname rel = Some nspname" "length nspname < 255" "length (rd_relname rel) < 255"
    and "\<And>att. att \<in> set (rd_att rel) \<Longrightarrow> length (attname att) < 65535"
    and "length (filter (att_sent att_list) (rd_att rel)) < 65536"
  shows "\<exists>bs. spock_write_rel pq v wlsn rel att_list = Inr bs \<and>
    rd_bind (read_header pq v) (\<lambda>h. rd_bind (spock_read_rel pq junk cache) (\<lambda>x. rd_ret (h, x))) bs =
    Inr (((if 5 \<le> v then Some wlsn else None, ch (CHR ''R'')), rd_id rel,
      spock_relation_cache_update junk (rd_id rel) (nspname @ [0]) (rd_relname rel @ [0])
        (map (\<lambda>att. attname att @ [0]) (filter (att_sent att_list) (rd_att rel)))
        (map atttypid (filter (att_sent att_list) (rd_att rel)))
        (map atttypmod (filter (att_sent att_list) (rd_att rel))) cache), [])"
proof -
  have "spock_read_attrs pq (spock_write_attrs pq rel att_list) =
      Inr (map (\<lambda>att. (attname att @ [0], atttypid att, atttypmod att))
             (filter (att_sent att_list) (rd_att rel)), [])"
    using attrs_written [of rel att_list "[]", OF assms(4,5)] by simp
  then show ?thesis
    using assms(1-3) unat_name8 [OF assms(2)] unat_name8 [OF assms(3)]
    by (simp add: spock_write_rel_def spock_read_rel_def Let_def rd_simps getbytes_name comp_def
        del: of_nat_add of_nat_Suc)
qed

end

section \<open>Tuples\<close>

text \<open>
  What the protocol relies on in the type system: a value of an attribute's type survives each of
  the three transfer formats.  \<open>typed att d\<close> says that \<open>d\<close> is a value of the type of \<open>att\<close>; the
  lengths are those of an \<open>int16\<close> type length and of a datum, which stays below a gigabyte.
\<close>

locale datum_io =
  fixes ops :: "'d datum_ops" and typed :: "pg_attribute \<Rightarrow> 'd \<Rightarrow> bool"
  assumes byval_io: "typed att d \<Longrightarrow> attbyval att \<Longrightarrow> 0 < attlen att \<and> attlen att < 2 ^ 15 \<and>
      length (store_att_byval ops (attlen att) d) = nat (attlen att) \<and>
      fetch_att ops (attlen att) (store_att_byval ops (attlen att) d) = d"
    and byref_io: "typed att d \<Longrightarrow> \<not> attbyval att \<Longrightarrow> 0 < attlen att \<Longrightarrow> attlen att < 2 ^ 15 \<and>
      length (byref_octets ops (attlen att) d) = nat (attlen att) \<and>
      pointer_datum ops (byref_octets ops (attlen att) d) = d"
    and varlena_io: "typed att d \<Longrightarrow> \<not> attbyval att \<Longrightarrow> attlen att = - 1 \<Longrightarrow>
      length (varlena_octets ops d) < 2 ^ 30 \<and> pointer_datum ops (varlena_octets ops d) = d"
    and binary_io: "typed att d \<Longrightarrow> type_lookup ops (atttypid att) = Some ty \<Longrightarrow>
      binary_input_info ops (atttypid att) = (recv, param) \<Longrightarrow>
      length (send_call ops (typsend ty) d) < 2 ^ 30 \<and>
      receive_call ops recv (send_call ops (typsend ty) d) param (atttypmod att) =
        Some (d, int (length (send_call ops (typsend ty) d)))"
    and text_io: "typed att d \<Longrightarrow> type_lookup ops (atttypid att) = Some ty \<Longrightarrow>
      input_info ops (atttypid att) = (inp, param) \<Longrightarrow>
      cstr (output_call ops (typoutput ty) d) \<and> length (output_call ops (typoutput ty) d) < 2 ^ 30 \<and>
      input_call ops inp (output_call ops (typoutput ty) d) param (atttypmod att) = Some d"

text \<open>
  The effect one column of the message should have on the local tuple: a null is a change to null,
  an unchanged out-of-line value is left alone, a value arrives as it was.
\<close>

definition column_received ::
  "'d datum_ops \<Rightarrow> nat \<Rightarrow> pg_attribute \<times> 'd option \<Rightarrow> 'd SpockTupleData \<Rightarrow> 'd SpockTupleData" where
  "column_received ops attid = (\<lambda>(att, value) tup.
     case value of
       None \<Rightarrow> set_col attid Deadbeef (tup_nulls tup attid) True tup
     | Some d \<Rightarrow>
         if attlen att = - 1 \<and> is_external_ondisk ops d
         then set_col attid Fbadbeef (tup_nulls tup attid) (tup_changed tup attid) tup
         else set_col attid (Datum d) False True tup)"

text \<open>A local column that can take the values of a remote one as they come.\<close>

definition same_type :: "pg_attribute \<Rightarrow> pg_attribute \<Rightarrow> bool" where
  "same_type loc att \<longleftrightarrow> atttypid loc = atttypid att \<and> atttypmod loc = atttypmod att \<and>
     attbyval loc = attbyval att"

text \<open>
  The entry of the relation cache fits the columns of the message: one local column for each, of
  the same type, and the remote types as they were announced.
\<close>

definition columns_match :: "SpockRelation \<Rightarrow> pg_attribute list \<Rightarrow> pg_attribute list \<Rightarrow> bool" where
  "columns_match sr desc atts \<longleftrightarrow>
     sr_natts sr = length atts \<and> sr_attrtypes sr = map atttypid atts \<and>
     sr_attrtypmods sr = map atttypmod atts \<and>
     list_all2 (\<lambda>i att. i < length desc \<and> same_type (desc ! i) att) (sr_attmap sr) atts"

definition live_columns ::
  "Relation \<Rightarrow> att_list \<Rightarrow> 'd option list \<Rightarrow> (pg_attribute \<times> 'd option) list" where
  "live_columns rel att_list tuple = filter (\<lambda>(att, _). att_sent att_list att) (zip (rd_att rel) tuple)"

definition tuple_received ::
  "'d datum_ops \<Rightarrow> nat list \<Rightarrow> (pg_attribute \<times> 'd option) list \<Rightarrow> 'd SpockTupleData \<Rightarrow> 'd SpockTupleData" where
  "tuple_received ops attmap cols tup =
     fold (\<lambda>(attid, col). column_received ops attid col) (zip attmap cols) (tup_reset tup)"

definition typed_columns ::
  "(pg_attribute \<Rightarrow> 'd \<Rightarrow> bool) \<Rightarrow> (pg_attribute \<times> 'd option) list \<Rightarrow> bool" where
  "typed_columns typed cols \<longleftrightarrow> (\<forall>(att, v) \<in> set cols. \<forall>d \<in> set_option v. typed att d)"

text \<open>
  What a received tuple says, column by column; a local column that no remote one maps to is null
  and unchanged.
\<close>

definition column_carried ::
  "'d datum_ops \<Rightarrow> pg_attribute \<times> 'd option \<Rightarrow> 'd SpockTupleData \<Rightarrow> nat \<Rightarrow> bool" where
  "column_carried ops = (\<lambda>(att, value) tup a.
     case value of
       None \<Rightarrow> tup_nulls tup a \<and> tup_changed tup a
     | Some d \<Rightarrow>
         if attlen att = - 1 \<and> is_external_ondisk ops d then tup_nulls tup a \<and> \<not> tup_changed tup a
         else tup_values tup a = Datum d \<and> \<not> tup_nulls tup a \<and> tup_changed tup a)"

definition tuple_carries ::
  "'d datum_ops \<Rightarrow> nat list \<Rightarrow> (pg_attribute \<times> 'd option) list \<Rightarrow> 'd SpockTupleData \<Rightarrow> bool" where
  "tuple_carries ops attmap cols tup \<longleftrightarrow>
     list_all2 (\<lambda>a col. column_carried ops col tup a) attmap cols \<and>
     (\<forall>a. a \<notin> set attmap \<longrightarrow> tup_nulls tup a \<and> \<not> tup_changed tup a)"

lemma column_received_fields:
  "a \<noteq> attid \<Longrightarrow> tup_values (column_received ops attid col tup) a = tup_values tup a"
  "a \<noteq> attid \<Longrightarrow> tup_nulls (column_received ops attid col tup) a = tup_nulls tup a"
  "a \<noteq> attid \<Longrightarrow> tup_changed (column_received ops attid col tup) a = tup_changed tup a"
  by (auto simp: column_received_def set_col_def split: prod.splits option.splits)

lemma columns_received_fields:
  assumes "length attmap = length cols" "a \<notin> set attmap"
  shows "tup_values (fold (\<lambda>(i, col). column_received ops i col) (zip attmap cols) tup) a = tup_values tup a \<and>
    tup_nulls (fold (\<lambda>(i, col). column_received ops i col) (zip attmap cols) tup) a = tup_nulls tup a \<and>
    tup_changed (fold (\<lambda>(i, col). column_received ops i col) (zip attmap cols) tup) a = tup_changed tup a"
  using assms
  by (induction attmap cols arbitrary: tup rule: list_induct2) (auto simp: column_received_fields)

lemma columns_received:
  assumes "length attmap = length cols" "distinct attmap"
    and "\<And>a. a \<in> set attmap \<Longrightarrow> tup_nulls tup a \<and> \<not> tup_changed tup a"
  shows "list_all2 (\<lambda>a col. column_carried ops col
    (fold (\<lambda>(i, col). column_received ops i col) (zip attmap cols) tup) a) attmap cols"
  using assms
proof (induction attmap cols arbitrary: tup rule: list_induct2)
  case (Cons a attmap col cols)
  let ?tup = "column_received ops a col tup"
  have head: "column_carried ops col ?tup a"
    using Cons.prems(2) [of a]
    by (auto simp: column_carried_def column_received_def set_col_def split: prod.splits option.splits)
  have "column_carried ops col (fold (\<lambda>(i, col). column_received ops i col) (zip attmap cols) ?tup) a"
    using head columns_received_fields [OF Cons.hyps, of a ops ?tup] Cons.prems(1)
    by (auto simp: column_carried_def split: prod.splits option.splits)
  moreover have "tup_nulls ?tup b \<and> \<not> tup_changed ?tup b" if "b \<in> set attmap" for b
    using that Cons.prems(1) Cons.prems(2) [of b] column_received_fields(2,3) [of b a ops col tup]
    by auto
  then have "list_all2 (\<lambda>a col. column_carried ops col
      (fold (\<lambda>(i, col). column_received ops i col) (zip attmap cols) ?tup) a) attmap cols"
    using Cons.prems(1) by (intro Cons.IH) simp_all
  ultimately show ?case by simp
qed simp

lemma tuple_received_carries:
  assumes "length attmap = length cols" "distinct attmap"
  shows "tuple_carries ops attmap cols (tuple_received ops attmap cols tup)"
  unfolding tuple_carries_def tuple_received_def
  using assms columns_received_fields [OF assms(1), of _ ops "tup_reset tup"]
  by (auto intro!: columns_received simp: tup_reset_def)

lemma ch_kinds [simp]:
  "ch (CHR ''n'') = 110" "ch (CHR ''u'') = 117" "ch (CHR ''i'') = 105" "ch (CHR ''b'') = 98"
  "ch (CHR ''t'') = 116"
  by (simp_all add: ch_def)

locale native_tuples = pq_format pq + datum_io ops typed
  for pq :: pqformat and ops :: "'d datum_ops" and typed :: "pg_attribute \<Rightarrow> 'd \<Rightarrow> bool"
begin

text \<open>A length word and that many bytes.\<close>

lemma get_counted:
  assumes "length s < 2 ^ 30"
  shows "get32 pq (pq_sendint32 pq (word_of_nat (length s)) @ s @ r) =
      Inr (word_of_nat (length s), s @ r)"
    and "getbytes pq (sint (word_of_nat (length s) :: uint32)) (s @ r) = Inr (s, r)"
    and "sint (word_of_nat (length s) :: uint32) = int (length s)"
  using assms getbytes_app [of s "length s"] by (simp_all add: rd_simps sint_len32)

lemma get_fixed:
  assumes "length s = nat n" "0 < n" "n < 2 ^ 15"
  shows "get32 pq (pq_sendint32 pq (word_of_int n) @ s @ r) = Inr (word_of_int n, s @ r)"
    and "getbytes pq n (s @ r) = Inr (s, r)"
    and "sint (word_of_int n :: uint32) = n"
  using assms getbytes_app [of s "nat n" r] by (simp_all add: rd_simps sint_int32)

lemmas column_defs = write_column_def read_column_def column_received_def

lemma internal_column_written:
  assumes "write_column pq ops data (att, Some d) = Inr bs" "typed att d" "same_type loc att"
    and "\<not> (attlen att = - 1 \<and> is_external_ondisk ops d)" "type_lookup ops (atttypid att) = Some ty"
    and "decide_datum_transfer att ty (allow_internal_basetypes data) (allow_binary_basetypes data) = CHR ''i''"
  shows "rd_bind (get8 pq) (\<lambda>kind. read_column pq ops loc (atttypid att) (atttypmod att) attid kind tup)
      (bs @ r) = Inr (column_received ops attid (att, Some d) tup, r)"
proof -
  consider "attbyval att" | "\<not> attbyval att" "0 < attlen att" | "\<not> attbyval att" "attlen att = - 1"
    using assms by (auto simp: write_column_def Let_def split: if_splits)
  then show ?thesis
  proof cases
    case 1
    with byval_io [OF assms(2) 1] assms show ?thesis
      by (auto simp: column_defs same_type_def rd_simps get_fixed)
  next
    case 2
    with byref_io [OF assms(2) 2] assms show ?thesis
      by (auto simp: column_defs same_type_def rd_simps get_fixed)
  next
    case 3
    with varlena_io [OF assms(2) 3] assms show ?thesis
      by (auto simp: column_defs same_type_def rd_simps get_counted)
  qed
qed

lemma binary_column_written:
  assumes "write_column pq ops data (att, Some d) = Inr bs" "typed att d" "same_type loc att"
    and "\<not> (attlen att = - 1 \<and> is_external_ondisk ops d)" "type_lookup ops (atttypid att) = Some ty"
    and "decide_datum_transfer att ty (allow_internal_basetypes data) (allow_binary_basetypes data) = CHR ''b''"
  shows "rd_bind (get8 pq) (\<lambda>kind. read_column pq ops loc (atttypid att) (atttypmod att) attid kind tup)
      (bs @ r) = Inr (column_received ops attid (att, Some d) tup, r)"
proof -
  obtain recv param where io: "binary_input_info ops (atttypid att) = (recv, param)"
    by fastforce
  with binary_io [OF assms(2,5) io] assms show ?thesis
    by (auto simp: column_defs same_type_def rd_simps get_counted Let_def)
qed

lemma text_column_written:
  assumes "write_column pq ops data (att, Some d) = Inr bs" "typed att d" "same_type loc att"
    and "\<not> (attlen att = - 1 \<and> is_external_ondisk ops d)" "type_lookup ops (atttypid att) = Some ty"
    and "decide_datum_transfer att ty (allow_internal_basetypes data) (allow_binary_basetypes data) = CHR ''t''"
  shows "rd_bind (get8 pq) (\<lambda>kind. read_column pq ops loc (atttypid att) (atttypmod att) attid kind tup)
      (bs @ r) = Inr (column_received ops attid (att, Some d) tup, r)"
proof -
  obtain inp param where io: "input_info ops (atttypid att) = (inp, param)"
    by fastforce
  let ?s = "output_call ops (typoutput ty) d"
  have len: "length (?s @ [0]) < 2 ^ 31"
    using text_io [OF assms(2,5) io] by simp
  note counted = getbytes_app [OF refl len] sint_len32 [OF len]
  from text_io [OF assms(2,5) io] assms io show ?thesis
    using counted by (auto simp: column_defs same_type_def rd_simps Let_def simp del: of_nat_Suc)
qed

lemma column_written:
  assumes wr: "write_column pq ops data (att, v) = Inr bs"
    and typed: "\<And>d. v = Some d \<Longrightarrow> typed att d"
    and loc: "same_type loc att"
  shows "rd_bind (get8 pq) (\<lambda>kind. read_column pq ops loc (atttypid att) (atttypmod att) attid kind tup)
      (bs @ r) = Inr (column_received ops attid (att, v) tup, r)"
proof (cases v)
  case None
  with wr show ?thesis
    by (auto simp: column_defs rd_simps)
next
  case (Some d)
  show ?thesis
  proof (cases "attlen att = - 1 \<and> is_external_ondisk ops d")
    case True
    with wr Some show ?thesis
      by (auto simp: column_defs rd_simps)
  next
    case False
    with wr Some obtain ty where ty: "type_lookup ops (atttypid att) = Some ty"
      by (auto simp: write_column_def split: option.splits)
    note facts = wr [unfolded Some] typed [OF Some] loc False ty
    show ?thesis
      unfolding Some
      using internal_column_written [OF facts] binary_column_written [OF facts]
        text_column_written [OF facts]
      unfolding decide_datum_transfer_def by meson
  qed
qed

lemma read_columns_written:
  assumes "res_map (write_column pq ops data) cols = Inr bss" "typed_columns typed cols"
    and "drop i (sr_attrtypes sr) = map (atttypid \<circ> fst) cols"
    and "drop i (sr_attrtypmods sr) = map (atttypmod \<circ> fst) cols"
    and "drop i (sr_attmap sr) = attids"
    and "list_all2 (\<lambda>j col. j < length desc \<and> same_type (desc ! j) (fst col)) attids cols"
  shows "read_columns pq ops sr desc i (length cols) tup (concat bss @ r) =
    Inr (fold (\<lambda>(attid, col). column_received ops attid col) (zip attids cols) tup, r)"
  using assms
proof (induction cols arbitrary: i bss attids tup)
  case (Cons col cols)
  obtain att v where col: "col = (att, v)" by fastforce
  from Cons.prems(1) obtain bs bss' where bs: "write_column pq ops data (att, v) = Inr bs"
    and bss: "res_map (write_column pq ops data) cols = Inr bss'" "bss = bs # bss'"
    by (auto simp: col)
  from Cons.prems(6) obtain j js where j: "attids = j # js" "j < length desc" "same_type (desc ! j) att"
    and js: "list_all2 (\<lambda>j col. j < length desc \<and> same_type (desc ! j) (fst col)) js cols"
    by (cases attids) (auto simp: col)
  note nths = Cons.prems(3,4) [unfolded col list.map comp_apply fst_conv, THEN drop_eq_ConsD]
    Cons.prems(5) [unfolded j, THEN drop_eq_ConsD]
  have typed: "v = Some d \<Longrightarrow> typed att d" for d
    using Cons.prems(2) by (simp add: typed_columns_def col)
  have step: "read_columns pq ops sr desc i (Suc n) tup (bs @ s) =
      read_columns pq ops sr desc (Suc i) n (column_received ops j (att, v) tup) s" for n s
  proof -
    have "rd_bind (get8 pq) (\<lambda>kind. read_column pq ops (desc ! j) (atttypid att) (atttypmod att) j kind tup)
        (bs @ s) = Inr (column_received ops j (att, v) tup, s)"
      using bs typed j(3) by (rule column_written)
    then show ?thesis
      using nths j by (auto simp: rd_bind_app split: sum.splits)
  qed
  have "typed_columns typed cols" using Cons.prems(2) by (simp add: typed_columns_def)
  then show ?case
    using Cons.IH [OF bss(1) _ _ _ _ js, of "Suc i"] nths step [of "length cols"]
    by (simp add: bss(2) j(1) col comp_def)
qed (simp add: rd_simps)

lemma tuple_written:
  assumes wr: "spock_write_tuple pq ops data rel tuple att_list = Inr bs"
    and cols: "typed_columns typed (live_columns rel att_list tuple)"
      "columns_match sr (rd_att r) (map fst (live_columns rel att_list tuple))"
    and rel: "sr_rel sr = Some r" and len: "length (live_columns rel att_list tuple) < 65536"
  shows "spock_read_tuple pq ops sr tup (bs @ rest) =
    Inr (tuple_received ops (sr_attmap sr) (live_columns rel att_list tuple) tup, rest)"
proof -
  let ?cols = "live_columns rel att_list tuple"
  from wr obtain bss where bss: "res_map (write_column pq ops data) ?cols = Inr bss"
    and bs: "bs = put_char pq (CHR ''T'') @ pq_sendint16 pq (word_of_nat (length ?cols)) @ concat bss"
    by (auto simp: spock_write_tuple_def live_columns_def Let_def)
  have "read_columns pq ops sr (rd_att r) 0 (length ?cols) (tup_reset tup) (concat bss @ rest) =
      Inr (tuple_received ops (sr_attmap sr) ?cols tup, rest)"
    unfolding tuple_received_def using cols(2)
    by (intro read_columns_written [OF bss cols(1)])
      (auto simp: columns_match_def list_all2_map2 case_prod_unfold)
  moreover have "unat (word_of_nat (length ?cols) :: uint16) = length ?cols"
    using len by (simp add: unat_of_nat)
  ultimately show ?thesis
    using cols(2) rel by (simp add: bs spock_read_tuple_def rd_simps columns_match_def)
qed

lemma tuple_carried:
  assumes "spock_write_tuple pq ops data rel tuple att_list = Inr bs"
    and "typed_columns typed (live_columns rel att_list tuple)"
    and "columns_match sr (rd_att r) (map fst (live_columns rel att_list tuple))"
    and "sr_rel sr = Some r" "length (live_columns rel att_list tuple) < 65536"
    and "distinct (sr_attmap sr)"
  shows "\<exists>tup'. spock_read_tuple pq ops sr tup (bs @ rest) = Inr (tup', rest) \<and>
    tuple_carries ops (sr_attmap sr) (live_columns rel att_list tuple) tup'"
  using tuple_written [OF assms(1-5)] assms(3,6)
  by (auto simp: columns_match_def dest!: list_all2_lengthD intro!: tuple_received_carries)

text \<open>
  The entry that the reader opens, and the tuples that were sent for it.  The same tuple columns are
  sent for an old and a new tuple, so both are described by their values.
\<close>

lemma insert_carried:
  assumes wr: "spock_write_insert pq ops v wlsn data rel newtuple att_list = Inr bs"
    and op: "spock_relation_open cat pending (rd_id rel) cache = Inr (Some sr, cache')"
    and new: "typed_columns typed (live_columns rel att_list newtuple)"
      "columns_match sr (rd_att r) (map fst (live_columns rel att_list newtuple))"
      "sr_rel sr = Some r" "length (live_columns rel att_list newtuple) < 65536"
      "distinct (sr_attmap sr)"
  shows "\<exists>tup'. rd_bind (read_header pq v) (\<lambda>h.
      rd_bind (spock_read_insert pq ops cat pending use_try cache tup) (\<lambda>x. rd_ret (h, x))) bs =
      Inr (((if 5 \<le> v then Some wlsn else None, ch (CHR ''I'')), Some sr, cache', tup'), []) \<and>
    tuple_carries ops (sr_attmap sr) (live_columns rel att_list newtuple) tup'"
proof -
  from wr obtain t where t: "spock_write_tuple pq ops data rel newtuple att_list = Inr t"
    and bs: "bs = write_insert_lsn pq v wlsn @ put_char pq (CHR ''I'') @ pq_sendint8 pq 0 @
      pq_sendint32 pq (rd_id rel) @ put_char pq (CHR ''N'') @ t"
    by (auto simp: spock_write_insert_def)
  from tuple_carried [OF t new, of tup "[]"] obtain tup' where
    "spock_read_tuple pq ops sr tup t = Inr (tup', [])"
    "tuple_carries ops (sr_attmap sr) (live_columns rel att_list newtuple) tup'"
    by auto
  with op show ?thesis
    by (simp add: bs spock_read_insert_def read_open_rel_def rd_result_def rd_simps)
qed

lemma delete_carried:
  assumes wr: "spock_write_delete pq ops v wlsn data rel oldtuple att_list = Inr bs"
    and op: "spock_relation_open cat pending (rd_id rel) cache = Inr (Some sr, cache')"
    and old: "typed_columns typed (live_columns rel att_list oldtuple)"
      "columns_match sr (rd_att r) (map fst (live_columns rel att_list oldtuple))"
      "sr_rel sr = Some r" "length (live_columns rel att_list oldtuple) < 65536"
      "distinct (sr_attmap sr)"
  shows "\<exists>tup'. rd_bind (read_header pq v) (\<lambda>h.
      rd_bind (spock_read_delete pq ops cat pending use_try cache tup) (\<lambda>x. rd_ret (h, x))) bs =
      Inr (((if 5 \<le> v then Some wlsn else None, ch (CHR ''D'')), Some sr, cache', tup'), []) \<and>
    tuple_carries ops (sr_attmap sr) (live_columns rel att_list oldtuple) tup'"
proof -
  from wr obtain t where t: "spock_write_tuple pq ops data rel oldtuple att_list = Inr t"
    and bs: "bs = write_insert_lsn pq v wlsn @ put_char pq (CHR ''D'') @ pq_sendint8 pq 0 @
      pq_sendint32 pq (rd_id rel) @ put_char pq (CHR ''K'') @ t"
    by (auto simp: spock_write_delete_def)
  from tuple_carried [OF t old, of tup "[]"] obtain tup' where
    "spock_read_tuple pq ops sr tup t = Inr (tup', [])"
    "tuple_carries ops (sr_attmap sr) (live_columns rel att_list oldtuple) tup'"
    by auto
  with op show ?thesis
    by (simp add: bs spock_read_delete_def read_open_rel_def rd_result_def rd_simps)
qed

lemma update_carried:
  assumes wr: "spock_write_update pq ops v wlsn data rel (Some oldtuple) newtuple att_list = Inr bs"
    and op: "spock_relation_open cat pending (rd_id rel) cache = Inr (Some sr, cache')"
    and old: "typed_columns typed (live_columns rel att_list oldtuple)"
      "columns_match sr (rd_att r) (map fst (live_columns rel att_list oldtuple))"
      "sr_rel sr = Some r" "length (live_columns rel att_list oldtuple) < 65536"
      "distinct (sr_attmap sr)"
    and new: "typed_columns typed (live_columns rel att_list newtuple)"
      "columns_match sr (rd_att r) (map fst (live_columns rel att_list newtuple))"
      "length (live_columns rel att_list newtuple) < 65536"
  shows "\<exists>o' n'. rd_bind (read_header pq v) (\<lambda>h.
      rd_bind (spock_read_update pq ops cat pending use_try cache oldtup newtup) (\<lambda>x. rd_ret (h, x))) bs =
      Inr (((if 5 \<le> v then Some wlsn else None, ch (CHR ''U'')), Some sr, cache', True, o', n'), []) \<and>
    tuple_carries ops (sr_attmap sr) (live_columns rel att_list oldtuple) o' \<and>
    tuple_carries ops (sr_attmap sr) (live_columns rel att_list newtuple) n'"
proof -
  from wr obtain t1 t2 where t1: "spock_write_tuple pq ops data rel oldtuple att_list = Inr t1"
    and t2: "spock_write_tuple pq ops data rel newtuple att_list = Inr t2"
    and bs: "bs = write_insert_lsn pq v wlsn @ put_char pq (CHR ''U'') @ pq_sendint8 pq 0 @
      pq_sendint32 pq (rd_id rel) @ put_char pq (CHR ''K'') @ t1 @ put_char pq (CHR ''N'') @ t2"
    by (auto simp: spock_write_update_def)
  from tuple_carried [OF t1 old, of oldtup "put_char pq (CHR ''N'') @ t2"] obtain o' where
    "spock_read_tuple pq ops sr oldtup (t1 @ put_char pq (CHR ''N'') @ t2) =
       Inr (o', put_char pq (CHR ''N'') @ t2)"
    "tuple_carries ops (sr_attmap sr) (live_columns rel att_list oldtuple) o'"
    by auto
  moreover from tuple_carried [OF t2 new(1,2) old(3) new(3) old(5), of newtup "[]"] obtain n' where
    "spock_read_tuple pq ops sr newtup t2 = Inr (n', [])"
    "tuple_carries ops (sr_attmap sr) (live_columns rel att_list newtuple) n'"
    by auto
  ultimately show ?thesis
    using op by (simp add: bs spock_read_update_def read_open_rel_def rd_result_def rd_simps)
qed

end

end
