(* ===== verification/Spock_Proto_Props.thy ===== *)
theory Spock_Proto_Props
  imports Spock_Proto_Native
begin

text \<open>
  The properties of the native protocol.  The first section gives a concrete type system, in which a
  datum is its own octets, and interprets on it the laws the protocol relies on; the properties then
  state, for every byte format and type system with those laws, that what the output plugin writes
  is what the apply worker reads.
\<close>

section \<open>A concrete type system\<close>

text \<open>
  Every type is a base type whose values are strings of octets, passed as they are in all three
  formats.  An out-of-line value is recognised by the two header bytes of an on-disk TOAST pointer.
\<close>

definition octet_type :: pg_type where
  "octet_type = \<lparr>typtype = ch (CHR ''b''), typelem = InvalidOid, typreceive = 31, typsend = 32, typoutput = 33\<rparr>"

definition octet_ops :: "bytes datum_ops" where
  "octet_ops = \<lparr>type_lookup = (\<lambda>_. Some octet_type), is_external_ondisk = (\<lambda>d. take 2 d = [1, 18]),
     store_att_byval = (\<lambda>_ d. d), byref_octets = (\<lambda>_ d. d), varlena_octets = (\<lambda>d. d),
     send_call = (\<lambda>_ d. d), output_call = (\<lambda>_ d. d), fetch_att = (\<lambda>_ d. d), pointer_datum = (\<lambda>d. d),
     binary_input_info = (\<lambda>_. (31, 0)), receive_call = (\<lambda>_ d _ _. Some (d, int (length d))),
     input_info = (\<lambda>_. (34, 0)), input_call = (\<lambda>_ d _ _. Some d)\<rparr>"

definition octet_typed :: "pg_attribute \<Rightarrow> bytes \<Rightarrow> bool" where
  "octet_typed att d \<longleftrightarrow> cstr d \<and> length d < 2 ^ 30 \<and>
     (if attlen att > 0 then attlen att < 2 ^ 15 \<and> length d = nat (attlen att) else \<not> attbyval att)"

interpretation octets: datum_io octet_ops octet_typed
  by unfold_locales (auto simp: octet_ops_def octet_typed_def split: if_splits)

interpretation net_octets: native_tuples pq_network octet_ops octet_typed ..

section \<open>Transaction control\<close>

text \<open>
  A transaction's BEGIN, COMMIT and ORIGIN messages say at the subscriber what they said at the
  provider, in protocol 4 and 5: the insert position leads every message in version 5, closes the
  COMMIT message in version 4, and the origin's name travels in version 5 only; nothing of any of
  the messages is left unread.
\<close>

theorem transaction_messages_roundtrip:
  assumes "pq_format pq" "v = 4 \<or> v = 5" "\<And>n. origin_name = Some n \<Longrightarrow> cstr n"
  shows "rd_bind (read_header pq v) (\<lambda>h. rd_bind (spock_read_begin pq) (\<lambda>x. rd_ret (h, x)))
      (spock_write_begin pq v wlsn txn) =
    Inr (((if v = 5 then Some wlsn else None, ch (CHR ''B'')),
      txn_final_lsn txn, txn_commit_time txn, txn_xid txn), []) \<and>
    rd_bind (read_header pq v) (\<lambda>h. rd_bind (spock_read_commit pq v) (\<lambda>x. rd_ret (h, x)))
      (spock_write_commit pq v wlsn txn commit_lsn) =
    Inr (((if v = 5 then Some wlsn else None, ch (CHR ''C'')),
      commit_lsn, txn_end_lsn txn, txn_commit_time txn, if v = 4 then wlsn else 0), []) \<and>
    rd_bind (read_header pq v) (\<lambda>h. rd_bind (spock_read_origin pq) (\<lambda>x. rd_ret (h, x)))
      (spock_write_origin pq v wlsn origin_id origin_lsn origin_name) =
    Inr (((if v = 5 then Some wlsn else None, ch (CHR ''O'')),
      origin_id, origin_lsn, if v = 5 then origin_name else None), [])"
  using assms(2) pq_format.begin_written [OF assms(1), of v wlsn txn]
    pq_format.commit_written [OF assms(1), of v wlsn txn commit_lsn]
    pq_format.origin_written [OF assms(1), of origin_name v wlsn origin_id origin_lsn] assms(3)
  by (elim disjE) simp_all

theorem transaction_messages_roundtrip_witness:
  "rd_bind (read_header pq_network 5) (\<lambda>h. rd_bind (spock_read_origin pq_network) (\<lambda>x. rd_ret (h, x)))
     (spock_write_origin pq_network 5 77 3 42 (Some (cs ''n1''))) =
   Inr (((Some 77, ch (CHR ''O'')), 3, 42, Some (cs ''n1'')), [])"
  using transaction_messages_roundtrip [OF net.pq_format_axioms, of 5 "Some (cs ''n1'')" 77 undefined undefined 3 42]
  by (simp add: cstr_def cs_def ch_def)

text \<open>
  A TRUNCATE message carries the relations, in order, and both of its options.
\<close>

theorem truncate_roundtrip:
  assumes "pq_format pq" "length relids < 2 ^ 31"
  shows "rd_bind (read_header pq v) (\<lambda>h. rd_bind (spock_read_truncate pq) (\<lambda>x. rd_ret (h, x)))
      (spock_write_truncate pq v wlsn relids cascade restart_seqs) =
    Inr (((if 5 \<le> v then Some wlsn else None, ch (CHR ''T'')), relids, cascade, restart_seqs), [])"
  using assms by (rule pq_format.truncate_written)

theorem truncate_roundtrip_witness:
  "rd_bind (read_header pq_network 4) (\<lambda>h. rd_bind (spock_read_truncate pq_network) (\<lambda>x. rd_ret (h, x)))
     (spock_write_truncate pq_network 4 77 [16400, 16410] False True) =
   Inr (((None, ch (CHR ''T'')), [16400, 16410], False, True), [])"
  using truncate_roundtrip [OF net.pq_format_axioms, of "[16400, 16410]" 4 77 False True] by simp

section \<open>Relations\<close>

text \<open>
  C16: A RELATION message leaves in the subscriber's cache, under the provider's relation oid, an
  entry that has the schema, the name and, in order, the name, type and type modifier of each column
  that is replicated (not dropped, not generated, in the column list), and that is not bound to a
  local table; the other entries are untouched.  Names are shorter than the message's length fields
  allow, which \<open>NAMEDATALEN\<close> ensures.
\<close>

theorem relation_message_roundtrip:
  assumes "pq_format pq"
    and "rd_nspname rel = Some nspname" "cstr nspname" "length nspname < 255"
    and "cstr (rd_relname rel)" "length (rd_relname rel) < 255"
    and "\<And>att. att \<in> set (rd_att rel) \<Longrightarrow> cstr (attname att) \<and> length (attname att) < 65535"
    and "length (rd_att rel) < 65536"
  shows "\<exists>bs cache' e. spock_write_rel pq v wlsn rel att_list = Inr bs \<and>
    rd_bind (read_header pq v) (\<lambda>h. rd_bind (spock_read_rel pq junk cache) (\<lambda>x. rd_ret (h, x))) bs =
      Inr (((if 5 \<le> v then Some wlsn else None, ch (CHR ''R'')), rd_id rel, cache'), []) \<and>
    hash_find cache' (rd_id rel) = Some e \<and>
    (\<forall>k. k \<noteq> rd_id rel \<longrightarrow> hash_find cache' k = hash_find cache k) \<and>
    sr_nspname e = nspname \<and> sr_relname e = rd_relname rel \<and> sr_reloid e = InvalidOid \<and>
    sr_natts e = length (filter (att_sent att_list) (rd_att rel)) \<and>
    sr_attnames e = map attname (filter (att_sent att_list) (rd_att rel)) \<and>
    sr_attrtypes e = map atttypid (filter (att_sent att_list) (rd_att rel)) \<and>
    sr_attrtypmods e = map atttypmod (filter (att_sent att_list) (rd_att rel))"
proof -
  let ?live = "filter (att_sent att_list) (rd_att rel)"
  have "length ?live < 65536"
    using assms(8) length_filter_le [of "att_sent att_list" "rd_att rel"] by linarith
  moreover have "map (cstr_of \<circ> (\<lambda>att. attname att @ [0])) ?live = map attname ?live"
    using assms(7) by simp
  ultimately show ?thesis
    using pq_format.rel_written [OF assms(1,2,4,6), of att_list v wlsn junk cache] assms(3,5,7)
    by (auto simp: spock_relation_cache_update_def Let_def hash_simps)
qed

theorem relation_message_roundtrip_witness:
  "\<exists>bs cache' e. spock_write_rel pq_network 5 9 demo_table None = Inr bs \<and>
    rd_bind (read_header pq_network 5) (\<lambda>h. rd_bind (spock_read_rel pq_network demo_junk demo_cache)
      (\<lambda>x. rd_ret (h, x))) bs = Inr (((Some 9, ch (CHR ''R'')), 16400, cache'), []) \<and>
    hash_find cache' 16400 = Some e \<and> sr_attnames e = [cs ''b'', cs ''a''] \<and>
    hash_find cache' 5 = hash_find demo_cache 5"
proof -
  have "cstr (attname att) \<and> length (attname att) < 65535" if "att \<in> set (rd_att demo_table)" for att
    using that by (auto simp: demo_defs cstr_def cs_def ch_def)
  with relation_message_roundtrip [OF net.pq_format_axioms, of demo_table "cs ''public''" 5 9 None
      demo_junk demo_cache]
  show ?thesis
    by (fastforce simp: demo_table_def demo_att_def att_sent_def cstr_def cs_def ch_def)
qed

section \<open>Changes\<close>

lemma live_columns_atts:
  assumes "length tuple = length (rd_att rel)"
  shows "map fst (live_columns rel att_list tuple) = filter (att_sent att_list) (rd_att rel)"
proof -
  have "map fst (filter (\<lambda>(att, _). P att) (zip as bs)) = filter P as"
    if "length as = length bs" for P :: "pg_attribute \<Rightarrow> bool" and as and bs :: "'a option list"
    using that by (induction as bs rule: list_induct2) auto
  with assms show ?thesis by (simp add: live_columns_def)
qed

text \<open>
  A local table that can take the changes of a remote one: found under the remote name, with a
  column of the same name and type for every column that is sent, none of them a delta column.
\<close>

definition replica_of :: "local_catalog \<Rightarrow> Relation \<Rightarrow> att_list \<Rightarrow> Relation \<Rightarrow> bool" where
  "replica_of cat rel att_list r \<longleftrightarrow>
     (case rd_nspname rel of
        None \<Rightarrow> False
      | Some nsp \<Rightarrow> cstr nsp \<and> length nsp < 255 \<and> openrv cat nsp (rd_relname rel) = Some r) \<and>
     cstr (rd_relname rel) \<and> length (rd_relname rel) < 255 \<and> length (rd_att rel) < 65536 \<and>
     (\<forall>att \<in> set (rd_att rel). cstr (attname att) \<and> length (attname att) < 65535) \<and>
     distinct (map attname (filter (att_sent att_list) (rd_att rel))) \<and>
     (\<forall>att \<in> set (filter (att_sent att_list) (rd_att rel)).
        attname att \<in> attname ` set (rd_att r) \<and>
        (\<forall>loc \<in> set (rd_att r). attname loc = attname att \<longrightarrow> same_type loc att)) \<and>
     (\<forall>n. delta_option cat (rd_id r) n = None)"

lemma replica_live_length:
  assumes "replica_of cat rel att_list r" "length tuple = length (rd_att rel)"
  shows "length (live_columns rel att_list tuple) < 65536"
proof -
  have "length (live_columns rel att_list tuple) = length (filter (att_sent att_list) (rd_att rel))"
    using arg_cong [OF live_columns_atts [OF assms(2)], of length] by simp
  also have "\<dots> \<le> length (rd_att rel)" by simp
  also have "\<dots> < 65536" using assms(1) by (simp add: replica_of_def)
  finally show ?thesis .
qed

lemma announced_columns_match:
  assumes "list_all2 (\<lambda>name i. tupdesc_get_att_by_name (rd_att r) name = Inr i)
      (map attname live) attmap"
    and "\<And>att loc. att \<in> set live \<Longrightarrow> loc \<in> set (rd_att r) \<Longrightarrow> attname loc = attname att \<Longrightarrow> same_type loc att"
  shows "list_all2 (\<lambda>i att. i < length (rd_att r) \<and> same_type (rd_att r ! i) att) attmap live"
proof -
  have "list_all2 (\<lambda>att i. tupdesc_get_att_by_name (rd_att r) (attname att) = Inr i) live attmap"
    using assms(1) by (simp add: list_all2_map1)
  then show ?thesis
    using assms(2)
  proof (induction rule: list_all2_induct)
    case (Cons att live i attmap)
    with tupdesc_get_att_Inr [OF Cons.hyps(1)] nth_mem [of i "rd_att r"] show ?case by auto
  qed simp
qed

lemma announced_names:
  "list_all2 (\<lambda>name i. tupdesc_get_att_by_name (rd_att r) name = Inr i) names attmap \<Longrightarrow>
   map (\<lambda>i. attname (rd_att r ! i)) attmap = names"
  by (induction rule: list_all2_induct) (auto dest: tupdesc_get_att_Inr)

text \<open>Reading the RELATION message and opening the relation gives an entry that fits the columns.\<close>

lemma announced_entry:
  assumes pq: "pq_format pq" and rep: "replica_of cat rel att_list r"
  shows "\<exists>bs cache' sr cache''. spock_write_rel pq v wlsn rel att_list = Inr bs \<and>
    rd_bind (read_header pq v) (\<lambda>h. rd_bind (spock_read_rel pq junk cache) (\<lambda>x. rd_ret (h, x))) bs =
      Inr (((if 5 \<le> v then Some wlsn else None, ch (CHR ''R'')), rd_id rel, cache'), []) \<and>
    spock_relation_open cat [] (rd_id rel) cache' = Inr (Some sr, cache'') \<and>
    sr_rel sr = Some r \<and> distinct (sr_attmap sr) \<and>
    columns_match sr (rd_att r) (filter (att_sent att_list) (rd_att rel)) \<and>
    map (\<lambda>i. attname (rd_att r ! i)) (sr_attmap sr) =
      map attname (filter (att_sent att_list) (rd_att rel))"
proof -
  let ?live = "filter (att_sent att_list) (rd_att rel)"
  from rep obtain nsp where nsp: "rd_nspname rel = Some nsp" "cstr nsp" "length nsp < 255"
      "openrv cat nsp (rd_relname rel) = Some r"
    and names: "cstr (rd_relname rel)" "length (rd_relname rel) < 255" "length (rd_att rel) < 65536"
      "distinct (map attname ?live)" "set (map attname ?live) \<subseteq> attname ` set (rd_att r)"
    by (auto simp: replica_of_def split: option.splits)
  define cache' where "cache' = spock_relation_cache_update junk (rd_id rel) (nsp @ [0])
      (rd_relname rel @ [0]) (map (\<lambda>att. attname att @ [0]) ?live) (map atttypid ?live)
      (map atttypmod ?live) cache"
  have "map (cstr_of \<circ> (\<lambda>att. attname att @ [0])) ?live = map attname ?live"
    using rep by (simp add: replica_of_def)
  then obtain e where e: "hash_find cache' (rd_id rel) = Some e" "sr_reloid e = InvalidOid"
      "sr_nspname e = nsp" "sr_relname e = rd_relname rel" "sr_natts e = length ?live"
      "sr_attnames e = map attname ?live"
      "sr_attrtypes e = map atttypid ?live" "sr_attrtypmods e = map atttypmod ?live"
    using nsp(2) names(1)
    by (simp add: cache'_def spock_relation_cache_update_def Let_def hash_simps)
  obtain sr cache'' where op: "spock_relation_open cat [] (rd_id rel) cache' = Inr (Some sr, cache'')"
    using spock_relation_open_total [of cache' "rd_id rel" e cat r] e nsp(4) names(5) rep
    by (auto simp: replica_of_def)
  have sr: "sr_rel sr = Some r" "sr_natts sr = length ?live"
      "sr_attrtypes sr = map atttypid ?live" "sr_attrtypmods sr = map atttypmod ?live"
    and m: "list_all2 (\<lambda>name i. tupdesc_get_att_by_name (rd_att r) name = Inr i)
      (map attname ?live) (sr_attmap sr)"
    using spock_relation_open_fresh [of "[]" cache' "rd_id rel" e cat sr cache''] e op nsp(4) by auto
  have "list_all2 (\<lambda>i att. i < length (rd_att r) \<and> same_type (rd_att r ! i) att) (sr_attmap sr) ?live"
    using m by (rule announced_columns_match) (use rep in \<open>auto simp: replica_of_def\<close>)
  then have "columns_match sr (rd_att r) ?live"
    using sr by (simp add: columns_match_def)
  moreover have "map (\<lambda>i. attname (rd_att r ! i)) (sr_attmap sr) = map attname ?live"
    using m by (rule announced_names)
  moreover have "length ?live < 65536"
    using names(3) length_filter_le [of "att_sent att_list" "rd_att rel"] by linarith
  then have "\<exists>bs. spock_write_rel pq v wlsn rel att_list = Inr bs \<and>
      rd_bind (read_header pq v) (\<lambda>h. rd_bind (spock_read_rel pq junk cache) (\<lambda>x. rd_ret (h, x))) bs =
      Inr (((if 5 \<le> v then Some wlsn else None, ch (CHR ''R'')), rd_id rel, cache'), [])"
    using pq_format.rel_written [OF pq nsp(1,3) names(2), of att_list v wlsn junk cache] rep
    by (auto simp: replica_of_def cache'_def)
  ultimately show ?thesis
    using op sr(1) open_fresh_distinct [OF m names(4)] by blast
qed

text \<open>
  C13: An INSERT reaches the right table with the right row.  After the RELATION message of a table
  that has a local counterpart, the INSERT message is read completely, opens that counterpart, and
  yields a tuple in which the local column of each remote column's name holds the value sent for it
  in whichever of the three formats the type was sent, or is a change to null, or is left alone when
  the provider sent an unchanged out-of-line value; local columns without a remote counterpart are
  null and unchanged.
\<close>

theorem insert_roundtrip:
  assumes pq: "pq_format pq" and io: "datum_io ops typed"
    and rep: "replica_of cat rel att_list r"
    and len: "length newtuple = length (rd_att rel)"
    and typed: "typed_columns typed (live_columns rel att_list newtuple)"
    and wr: "spock_write_insert pq ops v wlsn data rel newtuple att_list = Inr bs"
  shows "\<exists>rbs cache' sr cache'' tup'. spock_write_rel pq v wlsn rel att_list = Inr rbs \<and>
    rd_bind (read_header pq v) (\<lambda>h. rd_bind (spock_read_rel pq junk cache) (\<lambda>x. rd_ret (h, x))) rbs =
      Inr (((if 5 \<le> v then Some wlsn else None, ch (CHR ''R'')), rd_id rel, cache'), []) \<and>
    rd_bind (read_header pq v) (\<lambda>h.
      rd_bind (spock_read_insert pq ops cat [] use_try cache' tup) (\<lambda>x. rd_ret (h, x))) bs =
      Inr (((if 5 \<le> v then Some wlsn else None, ch (CHR ''I'')), Some sr, cache'', tup'), []) \<and>
    sr_rel sr = Some r \<and>
    map (\<lambda>i. attname (rd_att r ! i)) (sr_attmap sr) =
      map (attname \<circ> fst) (live_columns rel att_list newtuple) \<and>
    tuple_carries ops (sr_attmap sr) (live_columns rel att_list newtuple) tup'"
proof -
  let ?cols = "live_columns rel att_list newtuple"
  have atts: "map fst ?cols = filter (att_sent att_list) (rd_att rel)"
    using len by (rule live_columns_atts)
  from announced_entry [OF pq rep, of v wlsn junk cache] obtain rbs cache' sr cache'' where
    rel: "spock_write_rel pq v wlsn rel att_list = Inr rbs"
      "rd_bind (read_header pq v) (\<lambda>h. rd_bind (spock_read_rel pq junk cache) (\<lambda>x. rd_ret (h, x))) rbs =
      Inr (((if 5 \<le> v then Some wlsn else None, ch (CHR ''R'')), rd_id rel, cache'), [])"
    and op: "spock_relation_open cat [] (rd_id rel) cache' = Inr (Some sr, cache'')"
    and sr: "sr_rel sr = Some r" "distinct (sr_attmap sr)" "columns_match sr (rd_att r) (map fst ?cols)"
      "map (\<lambda>i. attname (rd_att r ! i)) (sr_attmap sr) = map (attname \<circ> fst) ?cols"
    unfolding atts [symmetric] list.map_comp by blast
  have "length ?cols < 65536"
    by (rule replica_live_length [OF rep len])
  from native_tuples.insert_carried [OF native_tuples.intro [OF pq io] wr op typed sr(3,1) this sr(2),
      where use_try = use_try and tup = tup]
  show ?thesis
    using rel sr(1,4) by (elim exE conjE) (intro exI conjI, assumption+)
qed

text \<open>A provider whose table has the same columns as the local one in another order.\<close>

definition demo_provider :: Relation where
  "demo_provider = \<lparr>rd_id = 5, rd_nspname = Some (cs ''public''), rd_relname = cs ''t'',
     rd_att = [demo_att ''a'' 1, demo_att ''b'' 2], rd_idattrs = [1], rd_replidindex = 16501,
     rd_triggers = []\<rparr>"

definition demo_opts :: SpockOutputOpts where
  "demo_opts = \<lparr>allow_internal_basetypes = False, allow_binary_basetypes = True\<rparr>"

lemma demo_replica: "replica_of demo_catalog demo_provider None demo_table"
  by (simp add: replica_of_def demo_provider_def demo_defs att_sent_def same_type_def cstr_def cs_def
      ch_def)

lemma demo_provider_length: "length (rd_att demo_provider) = 2"
  by (simp add: demo_provider_def)

lemma demo_columns:
  "live_columns demo_provider None [x, y] = [(demo_att ''a'' 1, x), (demo_att ''b'' 2, y)]"
  by (simp add: live_columns_def demo_provider_def att_sent_def demo_att_def)

lemma demo_column_written:
  "write_column pq_network octet_ops demo_opts (demo_att n i, Some d) =
     Inr (put_char pq_network (CHR ''b'') @ pq_sendint32 pq_network (word_of_nat (length d)) @ d)"
  "write_column pq_network octet_ops demo_opts (demo_att n i, None) = Inr (put_char pq_network (CHR ''n''))"
  by (simp_all add: write_column_def octet_ops_def octet_type_def demo_opts_def demo_att_def
      decide_datum_transfer_def FirstNormalObjectId_def Let_def)

theorem insert_roundtrip_witness:
  "\<exists>bs cache' sr cache'' tup'.
     spock_write_insert pq_network octet_ops 5 9 demo_opts demo_provider
       [Some [1, 2, 3, 4], None] None = Inr bs \<and>
     rd_bind (read_header pq_network 5) (\<lambda>h. rd_bind (spock_read_insert pq_network octet_ops
       demo_catalog [] False cache' undefined) (\<lambda>x. rd_ret (h, x))) bs =
       Inr (((Some 9, ch (CHR ''I'')), Some sr, cache'', tup'), []) \<and>
     sr_rel sr = Some demo_table \<and>
     tuple_carries octet_ops (sr_attmap sr)
       [(demo_att ''a'' 1, Some [1, 2, 3, 4]), (demo_att ''b'' 2, None)] tup'"
proof -
  obtain bs where bs: "spock_write_insert pq_network octet_ops 5 9 demo_opts demo_provider
      [Some [1, 2, 3, 4], None] None = Inr bs"
    using demo_columns [of "Some [1, 2, 3, 4 :: byte]" None]
    by (simp add: spock_write_insert_def spock_write_tuple_def live_columns_def Let_def
        demo_column_written)
  have "typed_columns octet_typed (live_columns demo_provider None [Some [1, 2, 3, 4], None])"
    by (simp add: demo_columns typed_columns_def octet_typed_def demo_att_def cstr_def)
  from insert_roundtrip [OF net.pq_format_axioms octets.datum_io_axioms demo_replica _ this bs,
      of undefined undefined False undefined]
  show ?thesis
    using bs by (simp add: demo_columns demo_provider_length) blast
qed

text \<open>
  C2: An UPDATE that carries the old key reaches the right table with both rows: the old tuple and
  the new one each arrive column by column as they were sent, and the message is read completely.
\<close>

theorem update_roundtrip:
  assumes pq: "pq_format pq" and io: "datum_io ops typed"
    and rep: "replica_of cat rel att_list r"
    and len: "length oldtuple = length (rd_att rel)" "length newtuple = length (rd_att rel)"
    and typed: "typed_columns typed (live_columns rel att_list oldtuple)"
      "typed_columns typed (live_columns rel att_list newtuple)"
    and wr: "spock_write_update pq ops v wlsn data rel (Some oldtuple) newtuple att_list = Inr bs"
  shows "\<exists>rbs cache' sr cache'' old' new'. spock_write_rel pq v wlsn rel att_list = Inr rbs \<and>
    rd_bind (read_header pq v) (\<lambda>h. rd_bind (spock_read_rel pq junk cache) (\<lambda>x. rd_ret (h, x))) rbs =
      Inr (((if 5 \<le> v then Some wlsn else None, ch (CHR ''R'')), rd_id rel, cache'), []) \<and>
    rd_bind (read_header pq v) (\<lambda>h.
      rd_bind (spock_read_update pq ops cat [] use_try cache' oldtup newtup) (\<lambda>x. rd_ret (h, x))) bs =
      Inr (((if 5 \<le> v then Some wlsn else None, ch (CHR ''U'')), Some sr, cache'', True, old', new'), []) \<and>
    sr_rel sr = Some r \<and>
    map (\<lambda>i. attname (rd_att r ! i)) (sr_attmap sr) =
      map (attname \<circ> fst) (live_columns rel att_list newtuple) \<and>
    tuple_carries ops (sr_attmap sr) (live_columns rel att_list oldtuple) old' \<and>
    tuple_carries ops (sr_attmap sr) (live_columns rel att_list newtuple) new'"
proof -
  let ?cols = "live_columns rel att_list newtuple" and ?old = "live_columns rel att_list oldtuple"
  have atts: "map fst ?cols = filter (att_sent att_list) (rd_att rel)"
    using len(2) by (rule live_columns_atts)
  have old: "map fst ?old = map fst ?cols"
    unfolding atts using len(1) by (rule live_columns_atts)
  from announced_entry [OF pq rep, of v wlsn junk cache] obtain rbs cache' sr cache'' where
    rel: "spock_write_rel pq v wlsn rel att_list = Inr rbs"
      "rd_bind (read_header pq v) (\<lambda>h. rd_bind (spock_read_rel pq junk cache) (\<lambda>x. rd_ret (h, x))) rbs =
      Inr (((if 5 \<le> v then Some wlsn else None, ch (CHR ''R'')), rd_id rel, cache'), [])"
    and op: "spock_relation_open cat [] (rd_id rel) cache' = Inr (Some sr, cache'')"
    and sr: "sr_rel sr = Some r" "distinct (sr_attmap sr)" "columns_match sr (rd_att r) (map fst ?cols)"
      "map (\<lambda>i. attname (rd_att r ! i)) (sr_attmap sr) = map (attname \<circ> fst) ?cols"
    unfolding atts [symmetric] list.map_comp by blast
  have lens: "length ?old < 65536" "length ?cols < 65536"
    by (rule replica_live_length [OF rep len(1)] replica_live_length [OF rep len(2)])+
  from native_tuples.update_carried [OF native_tuples.intro [OF pq io] wr op typed(1)
      sr(3) [folded old] sr(1) lens(1) sr(2) typed(2) sr(3) lens(2),
      where use_try = use_try and oldtup = oldtup and newtup = newtup]
  show ?thesis
    using rel sr(1,4) by (elim exE conjE) (intro exI conjI, assumption+)
qed

theorem update_roundtrip_witness:
  "\<exists>bs cache' sr cache'' old' new'.
     spock_write_update pq_network octet_ops 4 9 demo_opts demo_provider
       (Some [Some [1, 2, 3, 4], None]) [Some [1, 2, 3, 4], Some [5, 6, 7, 8]] None = Inr bs \<and>
     rd_bind (read_header pq_network 4) (\<lambda>h. rd_bind (spock_read_update pq_network octet_ops
       demo_catalog [] False cache' undefined undefined) (\<lambda>x. rd_ret (h, x))) bs =
       Inr (((None, ch (CHR ''U'')), Some sr, cache'', True, old', new'), []) \<and>
     tuple_carries octet_ops (sr_attmap sr)
       [(demo_att ''a'' 1, Some [1, 2, 3, 4]), (demo_att ''b'' 2, Some [5, 6, 7, 8])] new'"
proof -
  obtain bs where bs: "spock_write_update pq_network octet_ops 4 9 demo_opts demo_provider
      (Some [Some [1, 2, 3, 4], None]) [Some [1, 2, 3, 4], Some [5, 6, 7, 8]] None = Inr bs"
    using demo_columns [of "Some [1, 2, 3, 4 :: byte]" None]
      demo_columns [of "Some [1, 2, 3, 4 :: byte]" "Some [5, 6, 7, 8]"]
    by (simp add: spock_write_update_def spock_write_tuple_def live_columns_def Let_def
        demo_column_written)
  have "typed_columns octet_typed (live_columns demo_provider None [Some [1, 2, 3, 4], None])"
    "typed_columns octet_typed (live_columns demo_provider None [Some [1, 2, 3, 4], Some [5, 6, 7, 8]])"
    by (simp_all add: demo_columns typed_columns_def octet_typed_def demo_att_def cstr_def)
  from update_roundtrip [OF net.pq_format_axioms octets.datum_io_axioms demo_replica _ _ this bs,
      of undefined undefined False undefined undefined]
  show ?thesis
    using bs by (simp add: demo_columns demo_provider_length) blast
qed

end
