(* ===== verification/Spock_Conflict.thy ===== *)
theory Spock_Conflict
  imports Spock_Prelude
begin

text \<open>
  Conflict detection and resolution (\<open>src/spock_conflict.c\<close>): which of two versions of a row wins,
  where the version in the table came from, and what is reported about it.  Heap tuples are a type
  parameter.  The session's replication origin, the commit timestamp data and the node catalog are
  fields of the record \<open>conflict_env\<close>; \<^const>\<open>None\<close> from the catalog is a lookup that raises.
\<close>

section \<open>Data\<close>

datatype SpockConflictResolution =
    SpockResolution_ApplyRemote
  | SpockResolution_KeepLocal
  | SpockResolution_Skip

datatype SpockResolveOption =
    SPOCK_RESOLVE_ERROR
  | SPOCK_RESOLVE_APPLY_REMOTE
  | SPOCK_RESOLVE_KEEP_LOCAL
  | SPOCK_RESOLVE_LAST_UPDATE_WINS
  | SPOCK_RESOLVE_FIRST_UPDATE_WINS

datatype SpockConflictType =
    SPOCK_CT_INSERT_EXISTS
  | SPOCK_CT_UPDATE_ORIGIN_DIFFERS
  | SPOCK_CT_UPDATE_EXISTS
  | SPOCK_CT_UPDATE_MISSING
  | SPOCK_CT_DELETE_ORIGIN_DIFFERS
  | SPOCK_CT_DELETE_MISSING
  | SPOCK_CT_DELETE_EXISTS

datatype SpockSaveOriginConflictOption =
    SPOCK_ORIGIN_NONE
  | SPOCK_ORIGIN_REMOTE_ONLY_DIFFERS
  | SPOCK_ORIGIN_DIFFERS_SINCE_SUB

record SpockNode =
  node_id :: Oid
  node_name :: bytes
  node_tiebreaker :: int

datatype conflict_error =
    Cannot_apply_conflicting_row
  | Local_node_not_found
  | Node_not_found Oid
  | Commit_ts_error

record conflict_env =
  env_resolver :: SpockResolveOption
  env_track_commit_timestamp :: bool
  env_session_origin :: RepOriginId
  env_session_ts :: TimestampTz
  env_session_lsn :: XLogRecPtr
  env_remote_xid :: TransactionId
  env_top_xid :: TransactionId
  env_commit_ts :: "TransactionId \<Rightarrow> conflict_error + (TimestampTz \<times> RepOriginId) option"
  env_local_node :: "SpockNode option"
  env_get_node :: "Oid \<Rightarrow> SpockNode option"

section \<open>Names and numbers\<close>

definition SpockConflictTypeName :: "SpockConflictType \<Rightarrow> bytes" where
  "SpockConflictTypeName t = cs (case t of
       SPOCK_CT_INSERT_EXISTS \<Rightarrow> ''insert_exists''
     | SPOCK_CT_UPDATE_ORIGIN_DIFFERS \<Rightarrow> ''update_origin_differs''
     | SPOCK_CT_UPDATE_EXISTS \<Rightarrow> ''update_exists''
     | SPOCK_CT_UPDATE_MISSING \<Rightarrow> ''update_missing''
     | SPOCK_CT_DELETE_ORIGIN_DIFFERS \<Rightarrow> ''delete_origin_differs''
     | SPOCK_CT_DELETE_MISSING \<Rightarrow> ''delete_missing''
     | SPOCK_CT_DELETE_EXISTS \<Rightarrow> ''delete_exists'')"

definition conflict_resolution_to_string :: "SpockConflictResolution \<Rightarrow> bytes" where
  "conflict_resolution_to_string r = cs (case r of
       SpockResolution_ApplyRemote \<Rightarrow> ''apply_remote''
     | SpockResolution_KeepLocal \<Rightarrow> ''keep_local''
     | SpockResolution_Skip \<Rightarrow> ''skip'')"

text \<open>The enum values of the source: contiguous but for the last one.\<close>

definition conflict_type_value :: "SpockConflictType \<Rightarrow> int" where
  "conflict_type_value t = (case t of
       SPOCK_CT_INSERT_EXISTS \<Rightarrow> 0
     | SPOCK_CT_UPDATE_ORIGIN_DIFFERS \<Rightarrow> 1
     | SPOCK_CT_UPDATE_EXISTS \<Rightarrow> 2
     | SPOCK_CT_UPDATE_MISSING \<Rightarrow> 3
     | SPOCK_CT_DELETE_ORIGIN_DIFFERS \<Rightarrow> 4
     | SPOCK_CT_DELETE_MISSING \<Rightarrow> 5
     | SPOCK_CT_DELETE_EXISTS \<Rightarrow> 101)"

definition SPOCK_CONFLICT_NUM_TYPES :: int where "SPOCK_CONFLICT_NUM_TYPES = 7"

definition spock_conflict_stat_index :: "int \<Rightarrow> int" where
  "spock_conflict_stat_index type =
     (if type \<le> conflict_type_value SPOCK_CT_DELETE_MISSING then type
      else if type = conflict_type_value SPOCK_CT_DELETE_EXISTS
      then conflict_type_value SPOCK_CT_DELETE_MISSING + 1
      else - 1)"

section \<open>Resolution\<close>

definition timestamptz_cmp_internal :: "TimestampTz \<Rightarrow> TimestampTz \<Rightarrow> int" where
  "timestamptz_cmp_internal a b = (if ts_less a b then - 1 else if ts_less b a then 1 else 0)"

text \<open>Whether the remote version is applied, and the resolution recorded.\<close>

definition conflict_resolve_by_timestamp ::
  "conflict_env \<Rightarrow> RepOriginId \<Rightarrow> RepOriginId \<Rightarrow> TimestampTz \<Rightarrow> TimestampTz \<Rightarrow> bool
     \<Rightarrow> conflict_error + (bool \<times> SpockConflictResolution)" where
  "conflict_resolve_by_timestamp env local_origin_id remote_origin_id local_ts remote_ts last_update_wins =
     (let cmp0 = timestamptz_cmp_internal remote_ts local_ts;
          cmp = (if \<not> last_update_wins then - cmp0 else cmp0)
      in if cmp > 0 then Inr (True, SpockResolution_ApplyRemote)
         else if cmp < 0 then Inr (False, SpockResolution_KeepLocal)
         else if local_origin_id \<noteq> InvalidRepOriginId \<and> local_origin_id = remote_origin_id
         then Inr (True, SpockResolution_ApplyRemote)
         else (case env_local_node env of
                 None \<Rightarrow> Inl Local_node_not_found
               | Some loc_node \<Rightarrow>
                   (case env_get_node env (ucast remote_origin_id) of
                      None \<Rightarrow> Inl (Node_not_found (ucast remote_origin_id))
                    | Some rmt_node \<Rightarrow>
                        if node_tiebreaker loc_node = node_tiebreaker rmt_node
                        then Inr (True, SpockResolution_ApplyRemote)
                        else if node_tiebreaker loc_node < node_tiebreaker rmt_node
                        then Inr (False, SpockResolution_KeepLocal)
                        else Inr (True, SpockResolution_ApplyRemote))))"

text \<open>
  The origin and commit time of a tuple with the given xmin: whether they were found, and their
  values.  \<open>has_tid\<close> is \<open>tid != NULL\<close>.  Transaction ids below 3 are not normal.
\<close>

definition TransactionIdIsNormal :: "TransactionId \<Rightarrow> bool" where
  "TransactionIdIsNormal xid \<longleftrightarrow> xid \<ge> 3"

definition commit_ts_of ::
  "conflict_env \<Rightarrow> TransactionId \<Rightarrow> conflict_error + (bool \<times> RepOriginId \<times> TimestampTz)" where
  "commit_ts_of env xid =
     res_bind (env_commit_ts env xid) (\<lambda>d. case d of
         None \<Rightarrow> Inr (False, InvalidRepOriginId, 0)
       | Some (ts, origin) \<Rightarrow> Inr (True, origin, ts))"

definition get_tuple_origin ::
  "conflict_env \<Rightarrow> TransactionId \<Rightarrow> bool \<Rightarrow> conflict_error + (bool \<times> RepOriginId \<times> TimestampTz)" where
  "get_tuple_origin env xmin has_tid =
     (if \<not> env_track_commit_timestamp env then Inr (False, env_session_origin env, env_session_ts env)
      else if xmin \<noteq> InvalidTransactionId \<and> \<not> TransactionIdIsNormal xmin
      then Inr (False, InvalidRepOriginId, 0)
      else if \<not> has_tid then commit_ts_of env xmin
      else if xmin = env_top_xid env then Inr (True, env_session_origin env, env_session_ts env)
      else commit_ts_of env xmin)"

text \<open>Whether the remote tuple is applied, the tuple that results, and the resolution.\<close>

definition try_resolve_conflict ::
  "conflict_env \<Rightarrow> 'h \<Rightarrow> 'h \<Rightarrow> RepOriginId \<Rightarrow> TimestampTz
     \<Rightarrow> conflict_error + (bool \<times> 'h \<times> SpockConflictResolution)" where
  "try_resolve_conflict env localtuple remotetuple local_origin local_ts =
     res_bind
       (case env_resolver env of
          SPOCK_RESOLVE_ERROR \<Rightarrow> Inl Cannot_apply_conflicting_row
        | SPOCK_RESOLVE_APPLY_REMOTE \<Rightarrow> Inr (True, SpockResolution_ApplyRemote)
        | SPOCK_RESOLVE_KEEP_LOCAL \<Rightarrow> Inr (False, SpockResolution_KeepLocal)
        | SPOCK_RESOLVE_LAST_UPDATE_WINS \<Rightarrow>
            conflict_resolve_by_timestamp env local_origin (env_session_origin env) local_ts
              (env_session_ts env) True
        | SPOCK_RESOLVE_FIRST_UPDATE_WINS \<Rightarrow>
            conflict_resolve_by_timestamp env local_origin (env_session_origin env) local_ts
              (env_session_ts env) False)
       (\<lambda>(apply, resolution). Inr (apply, if apply then remotetuple else localtuple, resolution))"

definition spock_conflict_resolver_check_hook :: "bool \<Rightarrow> SpockResolveOption \<Rightarrow> bool" where
  "spock_conflict_resolver_check_hook track_commit_timestamp newval \<longleftrightarrow>
     \<not> (\<not> track_commit_timestamp \<and> newval \<noteq> SPOCK_RESOLVE_APPLY_REMOTE \<and> newval \<noteq> SPOCK_RESOLVE_ERROR)"

section \<open>Reporting\<close>

text \<open>
  What reporting reads besides the conflict: the server version, the settings, the time the
  subscription was created (\<^const>\<open>None\<close> without a subscription), whether the configured log level is
  emitted, and what the catalogs and the clock say.  \<open>'h\<close> is the type of heap tuples, \<open>'j\<close> that of JSON.
\<close>

record ('h, 'j) report_env =
  re_pg18 :: bool
  re_log_origin_change :: SpockSaveOriginConflictOption
  re_save_resolutions :: bool
  re_created_at :: "TimestampTz option"
  re_level_interesting :: bool
  re_nextval :: uint64
  re_now :: TimestampTz
  re_qualrelname :: bytes
  re_rel_name :: "Oid \<Rightarrow> bytes"
  re_row_to_json :: "'h \<Rightarrow> 'j option"

text \<open>A row of \<open>spock.resolutions\<close>; \<^const>\<open>None\<close> is a null.\<close>

record 'j resolution_row =
  res_id :: uint64
  res_node_name :: bytes
  res_log_time :: TimestampTz
  res_relname :: bytes
  res_idxname :: "bytes option"
  res_conflict_type :: bytes
  res_conflict_resolution :: bytes
  res_local_origin :: "RepOriginId option"
  res_local_tuple :: "'j option"
  res_local_xid :: "TransactionId option"
  res_local_timestamp :: "TimestampTz option"
  res_remote_origin :: RepOriginId
  res_remote_tuple :: "'j option"
  res_remote_xid :: "TransactionId option"
  res_remote_timestamp :: TimestampTz
  res_remote_lsn :: "XLogRecPtr option"

text \<open>
  A conflict as it is passed to the reporting functions.
\<close>

record 'h conflict =
  cf_type :: SpockConflictType
  cf_localtuple :: "'h option"
  cf_remotetuple :: "'h option"
  cf_resolution :: SpockConflictResolution
  cf_local_xid :: TransactionId
  cf_found_local_origin :: bool
  cf_local_origin :: RepOriginId
  cf_local_ts :: TimestampTz
  cf_idx_oid :: Oid

text \<open>
  What a report does, in order: count the conflict type of the subscription (server 18 and later),
  count the conflict of the relation, add a row to \<open>spock.resolutions\<close>, and write to the server log,
  of which the type, the index name, the resolution and the origin of the local tuple are kept.
\<close>

datatype 'j report_effect =
    Stat_subscription_conflict SpockConflictType
  | Count_conflict
  | Insert_resolution "'j resolution_row"
  | Server_log bytes bytes bytes bytes

definition spock_conflict_log_table ::
  "conflict_env \<Rightarrow> ('h, 'j) report_env \<Rightarrow> 'h conflict \<Rightarrow> conflict_error + 'j report_effect list" where
  "spock_conflict_log_table env re c =
     (if \<not> re_save_resolutions re then Inr []
      else (case env_local_node env of
              None \<Rightarrow> Inl Local_node_not_found
            | Some node \<Rightarrow> Inr [Insert_resolution
                \<lparr>res_id = re_nextval re, res_node_name = node_name node, res_log_time = re_now re,
                 res_relname = re_qualrelname re,
                 res_idxname = (if cf_idx_oid c \<noteq> InvalidOid then Some (re_rel_name re (cf_idx_oid c)) else None),
                 res_conflict_type = SpockConflictTypeName (cf_type c),
                 res_conflict_resolution = conflict_resolution_to_string (cf_resolution c),
                 res_local_origin = (if cf_found_local_origin c then Some (cf_local_origin c) else None),
                 res_local_tuple = Option.bind (cf_localtuple c) (re_row_to_json re),
                 res_local_xid = (if cf_local_xid c \<noteq> InvalidTransactionId then Some (cf_local_xid c) else None),
                 res_local_timestamp = (if cf_local_ts c = 0 then None else Some (cf_local_ts c)),
                 res_remote_origin = env_session_origin env,
                 res_remote_tuple = Option.bind (cf_remotetuple c) (re_row_to_json re),
                 res_remote_xid = (if env_remote_xid env \<noteq> InvalidTransactionId then Some (env_remote_xid env) else None),
                 res_remote_timestamp = env_session_ts env,
                 res_remote_lsn = (if env_session_lsn env \<noteq> InvalidXLogRecPtr then Some (env_session_lsn env) else None)\<rparr>]))"

text \<open>The origin of the local tuple as the server log prints it.\<close>

definition local_origin_str :: "'h conflict \<Rightarrow> bytes" where
  "local_origin_str c =
     (if cf_found_local_origin c then
        (if cf_local_origin c = InvalidRepOriginId then cs ''local''
         else show_nat (unat (cf_local_origin c)))
      else cs ''unknown'')"

text \<open>
  The first part of \<open>spock_report_conflict\<close>: \<^const>\<open>None\<close> where it returns early, otherwise the type that is
  reported and whether the conflict goes to the resolutions.
\<close>

definition report_filter ::
  "conflict_env \<Rightarrow> ('h, 'j) report_env \<Rightarrow> 'h conflict \<Rightarrow> (SpockConflictType \<times> bool) option" where
  "report_filter env re c =
     (if cf_type c = SPOCK_CT_UPDATE_EXISTS \<or> cf_type c = SPOCK_CT_DELETE_ORIGIN_DIFFERS then
        (if cf_local_origin c = env_session_origin env then None
         else if cf_local_origin c = InvalidRepOriginId \<and> cf_local_xid c = env_top_xid env then None
         else
           (let conflict_type = (if cf_type c = SPOCK_CT_UPDATE_EXISTS then SPOCK_CT_UPDATE_ORIGIN_DIFFERS
                                 else cf_type c)
            in if cf_resolution c = SpockResolution_ApplyRemote then
                 (if \<not> cf_found_local_origin c then None
                  else if re_log_origin_change re = SPOCK_ORIGIN_NONE then None
                  else if re_log_origin_change re = SPOCK_ORIGIN_REMOTE_ONLY_DIFFERS \<and>
                          cf_local_origin c = InvalidRepOriginId then None
                  else if re_log_origin_change re = SPOCK_ORIGIN_DIFFERS_SINCE_SUB then
                    (case re_created_at re of
                       None \<Rightarrow> None
                     | Some created_at \<Rightarrow>
                         if created_at = 0 then None
                         else if cf_local_ts c = 0 then None
                         else if ts_less (cf_local_ts c) created_at then None
                         else Some (conflict_type, False))
                  else Some (conflict_type, False))
               else Some (conflict_type, False)))
      else Some (cf_type c, True))"

definition spock_report_conflict ::
  "conflict_env \<Rightarrow> ('h, 'j) report_env \<Rightarrow> 'h conflict \<Rightarrow> conflict_error + 'j report_effect list" where
  "spock_report_conflict env re c0 =
     (case report_filter env re c0 of
        None \<Rightarrow> Inr []
      | Some (conflict_type, save_in_resolutions) \<Rightarrow>
          (let c = c0\<lparr>cf_type := conflict_type\<rparr> in
           res_bind
             (if save_in_resolutions
              then res_bind (spock_conflict_log_table env re c) (\<lambda>es. Inr (Count_conflict # es))
              else Inr []) (\<lambda>saved.
             Inr ((if re_pg18 re then [Stat_subscription_conflict conflict_type] else []) @ saved @
                  (if \<not> re_level_interesting re then []
                   else [Server_log (SpockConflictTypeName conflict_type)
                           (if cf_idx_oid c \<noteq> InvalidOid then re_rel_name re (cf_idx_oid c)
                            else cs ''(unknown)'')
                           (conflict_resolution_to_string (cf_resolution c)) (local_origin_str c)])))))"

section \<open>Tuples in the log\<close>

definition MAX_CONFLICT_LOG_ATTR_LEN :: nat where "MAX_CONFLICT_LOG_ATTR_LEN = 40"

text \<open>
  The value of a column as it is printed.  \<open>strlcpy (dst, "...", 3)\<close> copies two characters and the
  terminating NUL.
\<close>

definition strlcpy_octets :: "bytes \<Rightarrow> nat \<Rightarrow> bytes" where
  "strlcpy_octets src len = take (len - 1) src"

definition abbreviate_output :: "bytes \<Rightarrow> bytes" where
  "abbreviate_output outputstr =
     (if length outputstr > MAX_CONFLICT_LOG_ATTR_LEN
      then take (MAX_CONFLICT_LOG_ATTR_LEN - 5) outputstr @ strlcpy_octets (cs ''...'') 3
      else outputstr)"

text \<open>
  A column of the tuple: dropped or generated, its number, name, type name, and the text of its value:
  null, out of line, or what the output function gives.
\<close>

datatype printed_value = Printed_null | Printed_toast | Printed bytes

record printed_att =
  pa_skip :: bool
  pa_num :: int
  pa_name :: bytes
  pa_type :: bytes
  pa_value :: printed_value

definition printed_text :: "printed_value \<Rightarrow> bytes" where
  "printed_text v = (case v of
       Printed_null \<Rightarrow> cs ''(null)''
     | Printed_toast \<Rightarrow> cs ''(unchanged-toast-datum)''
     | Printed s \<Rightarrow> s)"

fun tuple_to_stringinfo :: "bytes \<Rightarrow> printed_att list \<Rightarrow> bool \<Rightarrow> bytes" where
  "tuple_to_stringinfo s [] first = s"
| "tuple_to_stringinfo s (a # atts) first =
     (if pa_skip a then tuple_to_stringinfo s atts first
      else if pa_num a < 0 then tuple_to_stringinfo s atts first
      else tuple_to_stringinfo
             (s @ (if first then [] else cs '' '') @ pa_name a @ cs ''['' @ pa_type a @ cs '']'' @
              cs '':'' @ abbreviate_output (printed_text (pa_value a))) atts False)"

section \<open>Which version wins\<close>

lemma resolve_later:
  "ts_less local_ts remote_ts \<Longrightarrow>
   conflict_resolve_by_timestamp env lo ro local_ts remote_ts True = Inr (True, SpockResolution_ApplyRemote)"
  by (auto simp: conflict_resolve_by_timestamp_def timestamptz_cmp_internal_def ts_less_def)

lemma resolve_earlier:
  "ts_less remote_ts local_ts \<Longrightarrow>
   conflict_resolve_by_timestamp env lo ro local_ts remote_ts True = Inr (False, SpockResolution_KeepLocal)"
  by (auto simp: conflict_resolve_by_timestamp_def timestamptz_cmp_internal_def ts_less_def)

lemma resolve_tie_same_origin:
  "ro \<noteq> InvalidRepOriginId \<Longrightarrow>
   conflict_resolve_by_timestamp env ro ro ts ts luw = Inr (True, SpockResolution_ApplyRemote)"
  by (simp add: conflict_resolve_by_timestamp_def timestamptz_cmp_internal_def ts_less_def)

lemma resolve_tie_nodes:
  assumes "lo = InvalidRepOriginId \<or> lo \<noteq> ro" "env_local_node env = Some ln"
    and "env_get_node env (ucast ro) = Some rn"
  shows "conflict_resolve_by_timestamp env lo ro ts ts luw =
    Inr (if node_tiebreaker ln < node_tiebreaker rn then (False, SpockResolution_KeepLocal)
         else (True, SpockResolution_ApplyRemote))"
  using assms
  by (auto simp: conflict_resolve_by_timestamp_def timestamptz_cmp_internal_def ts_less_def)

lemma ts_cases:
  obtains "ts_less a b" | "ts_less b a" | "a = b"
  by (metis linorder_neqE_linordered_idom signed_word_eqI ts_less_def)

lemmas resolve_rules = resolve_later resolve_earlier resolve_tie_same_origin resolve_tie_nodes

section \<open>Convergence\<close>

text \<open>
  The contract of a resolver under which replicas converge: a received version is kept or dropped
  as a whole, a later one is kept and an earlier one is dropped.  \<open>view\<close> is what the replicas have to
  agree on, and \<open>stamp\<close> its time.
\<close>

locale last_writer_wins =
  fixes receive :: "'v \<Rightarrow> 'v \<Rightarrow> 'v" and view :: "'v \<Rightarrow> 'w" and stamp :: "'w \<Rightarrow> int"
  assumes receive_either: "receive l r = l \<or> receive l r = r"
    and receive_later: "stamp (view l) < stamp (view r) \<Longrightarrow> receive l r = r"
    and receive_earlier: "stamp (view r) < stamp (view l) \<Longrightarrow> receive l r = l"
begin

lemma receive_max: "stamp (view (receive l r)) = max (stamp (view l)) (stamp (view r))"
  using receive_either [of l r] receive_later [of l r] receive_earlier [of r l]
  by (cases "stamp (view l)" "stamp (view r)" rule: linorder_cases) auto

lemma final_version:
  "fold (\<lambda>r l. receive l r) rs l \<in> insert l (set rs) \<and>
   (\<forall>v \<in> insert l (set rs). stamp (view v) \<le> stamp (view (fold (\<lambda>r l. receive l r) rs l)))"
proof (induction rs arbitrary: l)
  case (Cons r rs)
  show ?case
    using Cons.IH [of "receive l r"] receive_either [of l r] receive_max [of l r] by auto
qed simp

end

text \<open>Two versions that are latest in the same set of distinct times are the same.\<close>

lemma latest_unique:
  assumes "inj_on stamp S" "v \<in> S" "w \<in> S" "\<forall>x \<in> S. stamp x \<le> (stamp v :: int)" "\<forall>x \<in> S. stamp x \<le> stamp w"
  shows "v = w"
  using assms by (meson antisym inj_onD)

text \<open>
  A version of a row: its tuple, the origin it is recorded under on this node
  (\<open>InvalidRepOriginId\<close> for one written here) and its commit time.  Receiving one resolves it
  against the version in the table, in a session that has the origin and the commit time of the
  received one; an error leaves the table as it was.
\<close>

type_synonym 'h version = "'h \<times> RepOriginId \<times> TimestampTz"

definition receive_version :: "conflict_env \<Rightarrow> 'h version \<Rightarrow> 'h version \<Rightarrow> 'h version" where
  "receive_version env = (\<lambda>(h, lo, t) (h', ro, t').
     case try_resolve_conflict (env\<lparr>env_session_origin := ro, env_session_ts := t'\<rparr>) h h' lo t of
       Inr (True, _) \<Rightarrow> (h', ro, t')
     | _ \<Rightarrow> (h, lo, t))"

definition version_view :: "'h version \<Rightarrow> 'h \<times> TimestampTz" where
  "version_view = (\<lambda>(h, _, t). (h, t))"

definition view_stamp :: "'h \<times> TimestampTz \<Rightarrow> int" where
  "view_stamp = (\<lambda>(_, t). sint t)"

interpretation lww: last_writer_wins
  "receive_version (env\<lparr>env_resolver := SPOCK_RESOLVE_LAST_UPDATE_WINS\<rparr>)" version_view view_stamp for env
proof
  fix l r :: "'h version"
  obtain h lo t h' ro t' where lr: "l = (h, lo, t)" "r = (h', ro, t')"
    by (metis prod_cases3)
  show "receive_version (env\<lparr>env_resolver := SPOCK_RESOLVE_LAST_UPDATE_WINS\<rparr>) l r = l \<or>
      receive_version (env\<lparr>env_resolver := SPOCK_RESOLVE_LAST_UPDATE_WINS\<rparr>) l r = r"
    by (auto simp: lr receive_version_def split: sum.splits prod.splits bool.splits)
  assume "view_stamp (version_view l) < view_stamp (version_view r)"
  then have "ts_less t t'"
    by (simp add: lr view_stamp_def version_view_def ts_less_def)
  then show "receive_version (env\<lparr>env_resolver := SPOCK_RESOLVE_LAST_UPDATE_WINS\<rparr>) l r = r"
    by (simp add: lr receive_version_def try_resolve_conflict_def resolve_later)
next
  fix l r :: "'h version"
  obtain h lo t h' ro t' where lr: "l = (h, lo, t)" "r = (h', ro, t')"
    by (metis prod_cases3)
  assume "view_stamp (version_view r) < view_stamp (version_view l)"
  then have "ts_less t' t"
    by (simp add: lr view_stamp_def version_view_def ts_less_def)
  then show "receive_version (env\<lparr>env_resolver := SPOCK_RESOLVE_LAST_UPDATE_WINS\<rparr>) l r = l"
    by (simp add: lr receive_version_def try_resolve_conflict_def resolve_earlier)
qed

text \<open>
  C1: Last update wins makes replicas converge.  Two nodes that see the same versions of a row, each
  in an order of its own, with repetitions, and each with its own view of which version is local,
  end with the same tuple and commit time, provided that different versions have different commit
  times; and it is the version with the latest commit time.  The node catalogs, and so the
  tiebreakers, play no part.
\<close>

theorem last_update_wins_converges:
  fixes l1 l2 :: "'h version"
  assumes "env_resolver env1 = SPOCK_RESOLVE_LAST_UPDATE_WINS"
    and "env_resolver env2 = SPOCK_RESOLVE_LAST_UPDATE_WINS"
    and same: "version_view ` set (l1 # rs1) = version_view ` set (l2 # rs2)"
    and times: "inj_on view_stamp (version_view ` set (l1 # rs1))"
  shows "version_view (fold (\<lambda>r l. receive_version env1 l r) rs1 l1) =
      version_view (fold (\<lambda>r l. receive_version env2 l r) rs2 l2) \<and>
    (\<forall>v \<in> set (l1 # rs1). view_stamp (version_view v) \<le>
      view_stamp (version_view (fold (\<lambda>r l. receive_version env1 l r) rs1 l1)))"
proof -
  have env: "env1 = env1\<lparr>env_resolver := SPOCK_RESOLVE_LAST_UPDATE_WINS\<rparr>"
    "env2 = env2\<lparr>env_resolver := SPOCK_RESOLVE_LAST_UPDATE_WINS\<rparr>"
    using assms(1,2) by simp_all
  let ?w1 = "version_view (fold (\<lambda>r l. receive_version env1 l r) rs1 l1)"
  let ?w2 = "version_view (fold (\<lambda>r l. receive_version env2 l r) rs2 l2)"
  let ?S = "version_view ` set (l1 # rs1)"
  have w1: "?w1 \<in> ?S" "\<forall>x \<in> ?S. view_stamp x \<le> view_stamp ?w1"
    using lww.final_version [of env1 rs1 l1, folded env(1)] by (auto simp del: insert_iff)
  have w2: "?w2 \<in> ?S" "\<forall>x \<in> ?S. view_stamp x \<le> view_stamp ?w2"
    unfolding same using lww.final_version [of env2 rs2 l2, folded env(2)]
    by (auto simp del: insert_iff)
  show ?thesis
    using latest_unique [OF times w1(1) w2(1) w1(2) w2(2)] w1(2) by blast
qed

definition demo_env :: "SpockNode option \<Rightarrow> (Oid \<Rightarrow> SpockNode option) \<Rightarrow> conflict_env" where
  "demo_env loc get = \<lparr>env_resolver = SPOCK_RESOLVE_LAST_UPDATE_WINS, env_track_commit_timestamp = True,
     env_session_origin = 0, env_session_ts = 0, env_session_lsn = 0, env_remote_xid = 0,
     env_top_xid = 900, env_commit_ts = (\<lambda>_. Inr None), env_local_node = loc, env_get_node = get\<rparr>"

definition demo_node :: "Oid \<Rightarrow> int \<Rightarrow> SpockNode" where
  "demo_node i tb = \<lparr>node_id = i, node_name = cs ''n'', node_tiebreaker = tb\<rparr>"

theorem last_update_wins_converges_witness:
  "version_view (fold (\<lambda>r l. receive_version (demo_env None (\<lambda>_. None)) l r)
     [(''b'', 2, 20), (''c'', 3, 15)] (''a'', 0, 10)) =
   version_view (fold (\<lambda>r l. receive_version (demo_env None (\<lambda>_. None)) l r)
     [(''c'', 3, 15), (''a'', 1, 10)] (''b'', 0, 20))"
  using last_update_wins_converges [of "demo_env None (\<lambda>_. None)" "demo_env None (\<lambda>_. None)"
      "(''a'', 0, 10)" "[(''b'', 2, 20), (''c'', 3, 15)]" "(''b'', 0, 20)" "[(''c'', 3, 15), (''a'', 1, 10)]"]
  by (simp add: demo_env_def version_view_def view_stamp_def inj_on_def insert_commute)

text \<open>
  C25: Two nodes that wrote the same row, and receive each other's version, agree, also when the commit
  times are equal, as long as their tiebreakers differ: the later version wins, and at equal times the
  version of the node with the smaller tiebreaker.
\<close>

theorem two_nodes_agree:
  assumes resolver: "env_resolver envA = SPOCK_RESOLVE_LAST_UPDATE_WINS"
      "env_resolver envB = SPOCK_RESOLVE_LAST_UPDATE_WINS"
    and nodesA: "env_local_node envA = Some nA" "env_get_node envA (ucast idB) = Some nB"
    and nodesB: "env_local_node envB = Some nB" "env_get_node envB (ucast idA) = Some nA"
    and differ: "node_tiebreaker nA \<noteq> node_tiebreaker nB"
  shows "let w = (if ts_less tA tB \<or> tA = tB \<and> node_tiebreaker nB < node_tiebreaker nA
                  then (rowB, tB) else (rowA, tA))
    in version_view (receive_version envA (rowA, InvalidRepOriginId, tA) (rowB, idB, tB)) = w \<and>
       version_view (receive_version envB (rowB, InvalidRepOriginId, tB) (rowA, idA, tA)) = w"
proof (cases tA tB rule: ts_cases)
  case 3
  let ?eA = "envA\<lparr>env_session_origin := idB, env_session_ts := tB\<rparr>"
  let ?eB = "envB\<lparr>env_session_origin := idA, env_session_ts := tA\<rparr>"
  have "conflict_resolve_by_timestamp ?eA 0 idB tB tB True = Inr (if node_tiebreaker nA < node_tiebreaker nB
      then (False, SpockResolution_KeepLocal) else (True, SpockResolution_ApplyRemote))"
    by (rule resolve_tie_nodes) (use nodesA in simp_all)
  moreover have "conflict_resolve_by_timestamp ?eB 0 idA tB tB True = Inr (if node_tiebreaker nB < node_tiebreaker nA
      then (False, SpockResolution_KeepLocal) else (True, SpockResolution_ApplyRemote))"
    by (rule resolve_tie_nodes) (use nodesB in simp_all)
  ultimately show ?thesis
    using 3 resolver differ
    by (simp add: receive_version_def try_resolve_conflict_def version_view_def ts_less_def)
qed (use resolver in \<open>auto simp: receive_version_def try_resolve_conflict_def version_view_def
       resolve_later resolve_earlier ts_less_def\<close>)

theorem two_nodes_agree_witness:
  "version_view (receive_version (demo_env (Some (demo_node 1 1)) (\<lambda>_. Some (demo_node 2 2)))
     (''a'', InvalidRepOriginId, 10) (''b'', 2, 10)) = (''a'', 10) \<and>
   version_view (receive_version (demo_env (Some (demo_node 2 2)) (\<lambda>_. Some (demo_node 1 1)))
     (''b'', InvalidRepOriginId, 10) (''a'', 1, 10)) = (''a'', 10)"
  using two_nodes_agree [of "demo_env (Some (demo_node 1 1)) (\<lambda>_. Some (demo_node 2 2))"
      "demo_env (Some (demo_node 2 2)) (\<lambda>_. Some (demo_node 1 1))" "demo_node 1 1" 2 "demo_node 2 2" 1
      10 10 "''b''" "''a''"]
  by (simp add: demo_env_def demo_node_def ts_less_def Let_def)



section \<open>Origins and reports\<close>

text \<open>
  A change is applied over a row that its own origin wrote before it: when the tuple in the table
  is the transaction's own, or when commit timestamps are not tracked (so that every local tuple is
  taken for one of the session's origin), or when the commit data name the session's origin and no
  later time, the remote tuple wins under last update wins.
\<close>

theorem own_origin_applies:
  assumes "env_resolver env = SPOCK_RESOLVE_LAST_UPDATE_WINS"
    and "env_session_origin env \<noteq> InvalidRepOriginId"
    and "\<not> env_track_commit_timestamp env \<or>
      TransactionIdIsNormal xmin \<and>
        (xmin = env_top_xid env \<or>
         (\<exists>ts. env_commit_ts env xmin = Inr (Some (ts, env_session_origin env)) \<and>
            sint ts \<le> sint (env_session_ts env)))"
  shows "res_bind (get_tuple_origin env xmin True) (\<lambda>(_, local_origin, local_ts).
      try_resolve_conflict env localtuple remotetuple local_origin local_ts) =
    Inr (True, remotetuple, SpockResolution_ApplyRemote)"
proof -
  have later: "conflict_resolve_by_timestamp env (env_session_origin env) (env_session_origin env) ts
      (env_session_ts env) True = Inr (True, SpockResolution_ApplyRemote)"
    if "sint ts \<le> sint (env_session_ts env)" for ts
    using that assms(2)
    by (cases ts "env_session_ts env" rule: ts_cases)
      (auto simp: resolve_rules ts_less_def)
  show ?thesis
    using assms(1,3) later later [of "env_session_ts env"]
    by (auto simp: get_tuple_origin_def commit_ts_of_def try_resolve_conflict_def)
qed

theorem own_origin_applies_witness:
  "res_bind (get_tuple_origin ((demo_env None (\<lambda>_. None))\<lparr>env_session_origin := 4, env_session_ts := 10,
       env_commit_ts := (\<lambda>_. Inr (Some (10, 4)))\<rparr>) 800 True) (\<lambda>(_, local_origin, local_ts).
     try_resolve_conflict ((demo_env None (\<lambda>_. None))\<lparr>env_session_origin := 4, env_session_ts := 10,
       env_commit_ts := (\<lambda>_. Inr (Some (10, 4)))\<rparr>) ''old'' ''new'' local_origin local_ts) =
   Inr (True, ''new'', SpockResolution_ApplyRemote)"
  by (rule own_origin_applies) (simp_all add: demo_env_def TransactionIdIsNormal_def)

lemma report_filter_saves:
  "report_filter env re c = Some (t, True) \<longleftrightarrow>
   cf_type c \<noteq> SPOCK_CT_UPDATE_EXISTS \<and> cf_type c \<noteq> SPOCK_CT_DELETE_ORIGIN_DIFFERS \<and> t = cf_type c"
  by (auto simp: report_filter_def Let_def split: option.splits)

text \<open>
  What ends up in \<open>spock.resolutions\<close>: a reported conflict adds a row exactly when saving is on and
  the conflict is not a mere change of origin (an update of an existing row, or a delete of a row of
  another origin), and the row names the type and the resolution of the conflict and the session's
  origin and time.
\<close>

theorem resolutions_row_iff:
  assumes "spock_report_conflict env re c = Inr effects"
  shows "(\<exists>row. Insert_resolution row \<in> set effects) \<longleftrightarrow>
      re_save_resolutions re \<and> cf_type c \<noteq> SPOCK_CT_UPDATE_EXISTS \<and>
      cf_type c \<noteq> SPOCK_CT_DELETE_ORIGIN_DIFFERS"
    (is "?saved \<longleftrightarrow> ?wanted")
proof (cases "report_filter env re c")
  case None
  with assms report_filter_saves [of env re c "cf_type c"] show ?thesis
    by (auto simp: spock_report_conflict_def)
next
  case (Some p)
  obtain t save where p: "p = (t, save)" by fastforce
  show ?thesis
  proof (cases save)
    case True
    then have "cf_type c \<noteq> SPOCK_CT_UPDATE_EXISTS" "cf_type c \<noteq> SPOCK_CT_DELETE_ORIGIN_DIFFERS"
      using Some p by (simp_all add: report_filter_saves)
    then show ?thesis
      using assms Some p True
      by (auto simp: spock_report_conflict_def spock_conflict_log_table_def Let_def
          split: if_splits option.splits)
  next
    case False
    then have "\<not> ?wanted"
      using Some p report_filter_saves [of env re c "cf_type c"] by auto
    then show ?thesis
      using assms Some p False
      by (auto simp: spock_report_conflict_def Let_def split: if_splits)
  qed
qed

definition demo_report :: "(string, string) report_env" where
  "demo_report = \<lparr>re_pg18 = True, re_log_origin_change = SPOCK_ORIGIN_NONE, re_save_resolutions = True,
     re_created_at = None, re_level_interesting = True, re_nextval = 1, re_now = 5,
     re_qualrelname = cs ''public.t'', re_rel_name = (\<lambda>_. cs ''t_pkey''), re_row_to_json = Some\<rparr>"

definition demo_conflict :: "string conflict" where
  "demo_conflict = \<lparr>cf_type = SPOCK_CT_INSERT_EXISTS, cf_localtuple = Some ''old'',
     cf_remotetuple = Some ''new'', cf_resolution = SpockResolution_KeepLocal, cf_local_xid = 800,
     cf_found_local_origin = True, cf_local_origin = 0, cf_local_ts = 3, cf_idx_oid = 16500\<rparr>"

theorem resolutions_row_iff_witness:
  "\<exists>effects row. spock_report_conflict (demo_env (Some (demo_node 1 1)) (\<lambda>_. None)) demo_report
     demo_conflict = Inr effects \<and> Insert_resolution row \<in> set effects"
proof -
  obtain effects where e: "spock_report_conflict (demo_env (Some (demo_node 1 1)) (\<lambda>_. None)) demo_report
      demo_conflict = Inr effects"
    by (simp add: spock_report_conflict_def report_filter_def spock_conflict_log_table_def
        demo_report_def demo_conflict_def demo_env_def Let_def)
  with resolutions_row_iff [OF e] show ?thesis
    by (simp add: demo_report_def demo_conflict_def)
qed

text \<open>
  The statistics slot of a conflict type is inside the counter array, and two types never share one.
\<close>

theorem conflict_stat_index_slots:
  "0 \<le> spock_conflict_stat_index (conflict_type_value t) \<and>
   spock_conflict_stat_index (conflict_type_value t) < SPOCK_CONFLICT_NUM_TYPES \<and>
   (spock_conflict_stat_index (conflict_type_value t) = spock_conflict_stat_index (conflict_type_value t')
      \<longleftrightarrow> t = t')"
  by (cases t; cases t')
    (simp_all add: spock_conflict_stat_index_def conflict_type_value_def SPOCK_CONFLICT_NUM_TYPES_def)

text \<open>
  A value in a conflict log line never takes more than forty characters, and one that is cut short
  ends after 35 characters in two dots, not in the three that the source names.
\<close>

theorem abbreviated_value:
  "length (abbreviate_output s) \<le> MAX_CONFLICT_LOG_ATTR_LEN \<and>
   abbreviate_output s = (if length s \<le> 40 then s else take 35 s @ cs ''..'')"
  by (auto simp: abbreviate_output_def strlcpy_octets_def MAX_CONFLICT_LOG_ATTR_LEN_def cs_def
      numeral_eq_Suc)

end
