(* ===== verification/Spock_Group.thy ===== *)
theory Spock_Group
  imports Spock_Prelude "HOL-Library.Multiset"
begin

text \<open>
  Apply groups and their progress (\<open>src/spock_group.c\<close>, \<open>src/spock_rmgr.c\<close>): one entry per database,
  node and remote node in a shared hash table, merged by the apply workers, saved to
  \<open>resource.dat\<close> and loaded from it, and logged to WAL.  The hash table is \<^const>\<open>None\<close> while shared
  memory is not set up.  \<open>room\<close> says whether the fixed-size table can take another entry.
\<close>

section \<open>Data\<close>

record SpockGroupKey =
  gk_dbid :: Oid
  gk_node_id :: Oid
  gk_remote_node_id :: Oid

record SpockApplyProgress =
  ap_key :: SpockGroupKey
  ap_remote_commit_ts :: TimestampTz
  ap_prev_remote_ts :: TimestampTz
  ap_remote_commit_lsn :: XLogRecPtr
  ap_remote_insert_lsn :: XLogRecPtr
  ap_received_lsn :: XLogRecPtr
  ap_last_updated_ts :: TimestampTz
  ap_updated_by_decode :: bool

record SpockGroupEntry =
  ge_progress :: SpockApplyProgress
  ge_nattached :: uint32

type_synonym group_hash = "(SpockGroupKey, SpockGroupEntry) htab"

record SpockResFileHeader =
  rh_version :: uint32
  rh_system_identifier :: uint64
  rh_flags :: uint16
  rh_entry_count :: uint32

text \<open>The file: the header and the records after it, each written as one structure.\<close>

type_synonym resource_file = "SpockResFileHeader \<times> SpockApplyProgress list"

datatype group_error =
    Group_hash_full
  | Worker_not_initialised
  | Entry_count_mismatch uint32 uint32
  | Resource_read_error

definition SPOCK_RES_VERSION :: uint32 where "SPOCK_RES_VERSION = 202508251"

section \<open>Entries\<close>

definition make_key :: "Oid \<Rightarrow> Oid \<Rightarrow> Oid \<Rightarrow> SpockGroupKey" where
  "make_key dbid node_id remote_node_id =
     \<lparr>gk_dbid = dbid, gk_node_id = node_id, gk_remote_node_id = remote_node_id\<rparr>"

definition spock_init_progress_fields :: "SpockApplyProgress \<Rightarrow> SpockApplyProgress" where
  "spock_init_progress_fields p =
     \<lparr>ap_key = ap_key p, ap_remote_commit_ts = 0, ap_prev_remote_ts = 0,
      ap_remote_commit_lsn = InvalidXLogRecPtr, ap_remote_insert_lsn = InvalidXLogRecPtr,
      ap_received_lsn = InvalidXLogRecPtr, ap_last_updated_ts = 0, ap_updated_by_decode = False\<rparr>"

text \<open>The entry of a key just entered: its progress fields initialised, nobody attached.\<close>

definition zero_progress :: "SpockGroupKey \<Rightarrow> SpockApplyProgress" where
  "zero_progress key = spock_init_progress_fields
     \<lparr>ap_key = key, ap_remote_commit_ts = 0, ap_prev_remote_ts = 0, ap_remote_commit_lsn = 0,
      ap_remote_insert_lsn = 0, ap_received_lsn = 0, ap_last_updated_ts = 0, ap_updated_by_decode = False\<rparr>"

definition new_entry :: "SpockGroupKey \<Rightarrow> SpockGroupEntry" where
  "new_entry key = \<lparr>ge_progress = zero_progress key, ge_nattached = 0\<rparr>"

text \<open>\<open>hash_search (HASH_ENTER)\<close> followed by the initialisation of a new entry.\<close>

definition group_enter ::
  "(group_hash \<Rightarrow> bool) \<Rightarrow> SpockGroupKey \<Rightarrow> group_hash \<Rightarrow> (SpockGroupEntry \<times> bool) option" where
  "group_enter room key h =
     (case hash_find h key of
        Some e \<Rightarrow> Some (e, True)
      | None \<Rightarrow> if room h then Some (new_entry key, False) else None)"

definition spock_group_attach ::
  "(group_hash \<Rightarrow> bool) \<Rightarrow> Oid \<Rightarrow> Oid \<Rightarrow> Oid \<Rightarrow> group_hash
     \<Rightarrow> group_error + (SpockGroupKey \<times> group_hash)" where
  "spock_group_attach room dbid node_id remote_node_id h =
     (let key = make_key dbid node_id remote_node_id in
      case group_enter room key h of
        None \<Rightarrow> Inl Group_hash_full
      | Some (entry, _) \<Rightarrow>
          Inr (key, hash_put key (entry\<lparr>ge_nattached := ge_nattached entry + 1\<rparr>) h))"

text \<open>\<open>apply_group\<close> is the worker's pointer to its entry, here the entry's key.\<close>

definition spock_group_detach ::
  "SpockGroupKey option \<Rightarrow> group_hash \<Rightarrow> SpockGroupKey option \<times> group_hash" where
  "spock_group_detach apply_group h =
     (None, case apply_group of
              None \<Rightarrow> h
            | Some key \<Rightarrow>
                (case hash_find h key of
                   None \<Rightarrow> h
                 | Some e \<Rightarrow> hash_put key (e\<lparr>ge_nattached := ge_nattached e - 1\<rparr>) h))"

section \<open>Progress\<close>

definition progress_update_struct ::
  "SpockApplyProgress \<Rightarrow> SpockApplyProgress \<Rightarrow> SpockApplyProgress" where
  "progress_update_struct dest src =
     (let d1 = (if ts_less (ap_remote_commit_ts dest) (ap_remote_commit_ts src)
                then dest\<lparr>ap_remote_commit_ts := ap_remote_commit_ts src,
                          ap_prev_remote_ts := ap_prev_remote_ts src,
                          ap_remote_commit_lsn := ap_remote_commit_lsn src,
                          ap_last_updated_ts := ap_last_updated_ts src,
                          ap_updated_by_decode := ap_updated_by_decode src\<rparr>
                else dest);
          d2 = (if ap_remote_insert_lsn d1 < ap_remote_insert_lsn src
                then d1\<lparr>ap_remote_insert_lsn := ap_remote_insert_lsn src\<rparr> else d1)
      in if ap_received_lsn d2 < ap_received_lsn src
         then d2\<lparr>ap_received_lsn := ap_received_lsn src\<rparr> else d2)"

definition spock_group_progress_update ::
  "(group_hash \<Rightarrow> bool) \<Rightarrow> SpockApplyProgress \<Rightarrow> group_hash option \<Rightarrow> bool \<times> group_hash option" where
  "spock_group_progress_update room sap shmem =
     (case shmem of
        None \<Rightarrow> (False, None)
      | Some h \<Rightarrow>
          (case group_enter room (ap_key sap) h of
             None \<Rightarrow> (False, Some h)
           | Some (entry, found) \<Rightarrow>
               (found, Some (hash_put (ap_key sap)
                  (entry\<lparr>ge_progress := progress_update_struct (ge_progress entry) sap\<rparr>) h))))"

definition spock_group_progress_update_ptr ::
  "SpockGroupKey \<Rightarrow> SpockApplyProgress \<Rightarrow> group_hash \<Rightarrow> group_hash" where
  "spock_group_progress_update_ptr key sap h =
     (case hash_find h key of
        None \<Rightarrow> h
      | Some e \<Rightarrow> hash_put key (e\<lparr>ge_progress := progress_update_struct (ge_progress e) sap\<rparr>) h)"

definition apply_worker_get_prev_remote_ts ::
  "SpockGroupKey option \<Rightarrow> group_hash \<Rightarrow> group_error + TimestampTz" where
  "apply_worker_get_prev_remote_ts apply_group h =
     (case Option.bind apply_group (hash_find h) of
        Some e \<Rightarrow> Inr (ap_prev_remote_ts (ge_progress e))
      | None \<Rightarrow> Inl Worker_not_initialised)"

section \<open>The resource file\<close>

definition spock_group_foreach :: "(SpockGroupEntry \<Rightarrow> 'c \<Rightarrow> 'c) \<Rightarrow> group_hash \<Rightarrow> 'c \<Rightarrow> 'c" where
  "spock_group_foreach cb h arg = fold (\<lambda>(_, e). cb e) h arg"

text \<open>The callback's context: the records written so far and their count.\<close>

definition dump_one_group_cb ::
  "SpockGroupEntry \<Rightarrow> SpockApplyProgress list \<times> uint32 \<Rightarrow> SpockApplyProgress list \<times> uint32" where
  "dump_one_group_cb entry = (\<lambda>(written, count). (written @ [ge_progress entry], count + 1))"

text \<open>
  The dump; \<^const>\<open>None\<close> when there is nothing to dump from.  Writing, syncing and renaming the file are
  the operating system's.
\<close>

definition spock_group_resource_dump ::
  "uint64 \<Rightarrow> group_hash option \<Rightarrow> group_error + resource_file option" where
  "spock_group_resource_dump sysid shmem =
     (case shmem of
        None \<Rightarrow> Inr None
      | Some h \<Rightarrow>
          (let hdr = \<lparr>rh_version = SPOCK_RES_VERSION, rh_system_identifier = sysid, rh_flags = 0,
                      rh_entry_count = word_of_nat (length h)\<rparr>;
               (written, count) = spock_group_foreach dump_one_group_cb h ([], 0)
           in if count \<noteq> rh_entry_count hdr then Inl (Entry_count_mismatch (rh_entry_count hdr) count)
              else Inr (Some (hdr, written))))"

fun load_records ::
  "(group_hash \<Rightarrow> bool) \<Rightarrow> nat \<Rightarrow> SpockApplyProgress list \<Rightarrow> group_hash option
     \<Rightarrow> group_error + group_hash option" where
  "load_records room 0 recs shmem = Inr shmem"
| "load_records room (Suc n) [] shmem = Inl Resource_read_error"
| "load_records room (Suc n) (rec # recs) shmem =
     load_records room n recs (snd (spock_group_progress_update room rec shmem))"

definition spock_group_resource_load ::
  "(group_hash \<Rightarrow> bool) \<Rightarrow> uint64 \<Rightarrow> resource_file option \<Rightarrow> group_hash option
     \<Rightarrow> group_error + group_hash option" where
  "spock_group_resource_load room sysid file shmem =
     (case file of
        None \<Rightarrow> Inr shmem
      | Some (hdr, recs) \<Rightarrow>
          if rh_version hdr \<noteq> SPOCK_RES_VERSION then Inr shmem
          else if rh_system_identifier hdr \<noteq> sysid then Inr shmem
          else load_records room (unat (rh_entry_count hdr)) recs shmem)"

section \<open>Lists of entries\<close>

text \<open>While a node is added: set each entry, whatever it held.\<close>

definition force_progress :: "SpockApplyProgress \<Rightarrow> SpockApplyProgress" where
  "force_progress sap =
     (let p1 = (if ap_remote_insert_lsn sap < ap_remote_commit_lsn sap
                then sap\<lparr>ap_remote_insert_lsn := ap_remote_commit_lsn sap\<rparr> else sap)
      in if ap_received_lsn p1 < ap_remote_commit_lsn p1
         then p1\<lparr>ap_received_lsn := ap_remote_commit_lsn p1\<rparr> else p1)"

definition force_set_one :: "(group_hash \<Rightarrow> bool) \<Rightarrow> SpockApplyProgress \<Rightarrow> group_hash \<Rightarrow> group_hash" where
  "force_set_one room sap h =
     (case group_enter room (ap_key sap) h of
        None \<Rightarrow> h
      | Some (entry, found) \<Rightarrow> hash_put (ap_key sap) (entry\<lparr>ge_progress := force_progress sap\<rparr>) h)"

section \<open>The WAL records\<close>

datatype SpockResourceDumpEvent = SPOCK_DUMP_SHUTDOWN | SPOCK_DUMP_ADD_NODE | SPOCK_DUMP_TABLE_SYNC

definition dump_event_type :: "SpockResourceDumpEvent \<Rightarrow> byte" where
  "dump_event_type e = (case e of SPOCK_DUMP_SHUTDOWN \<Rightarrow> 0 | SPOCK_DUMP_ADD_NODE \<Rightarrow> 1 | SPOCK_DUMP_TABLE_SYNC \<Rightarrow> 2)"

record SpockResourceDumpRec =
  dr_event_type :: byte
  dr_flags :: byte
  dr_entry_seq :: uint16
  dr_entry_total :: uint16
  dr_progress :: SpockApplyProgress

definition SPOCK_RMGR_RESOURCE_DUMP :: byte where "SPOCK_RMGR_RESOURCE_DUMP = 0x10"
definition XLR_RMGR_INFO_MASK :: byte where "XLR_RMGR_INFO_MASK = 0xF0"

definition event_name :: "byte \<Rightarrow> bytes" where
  "event_name event_type = cs
     (if event_type = dump_event_type SPOCK_DUMP_SHUTDOWN then ''shutdown''
      else if event_type = dump_event_type SPOCK_DUMP_ADD_NODE then ''add_node''
      else if event_type = dump_event_type SPOCK_DUMP_TABLE_SYNC then ''table_sync''
      else ''unknown'')"

definition emit_one_dump_record ::
  "SpockResourceDumpEvent \<Rightarrow> uint16 \<Rightarrow> uint16 \<Rightarrow> SpockApplyProgress \<Rightarrow> SpockResourceDumpRec" where
  "emit_one_dump_record event entry_seq entry_total progress =
     \<lparr>dr_event_type = dump_event_type event, dr_flags = 0, dr_entry_seq = entry_seq,
      dr_entry_total = entry_total, dr_progress = progress\<rparr>"

fun emit_dump_records ::
  "SpockResourceDumpEvent \<Rightarrow> uint16 \<Rightarrow> uint16 \<Rightarrow> SpockApplyProgress list \<Rightarrow> SpockResourceDumpRec list" where
  "emit_dump_records event entry_seq entry_total [] = []"
| "emit_dump_records event entry_seq entry_total (p # ps) =
     emit_one_dump_record event entry_seq entry_total p #
     emit_dump_records event (entry_seq + 1) entry_total ps"

text \<open>
  The records of a dump, and whether WAL is flushed up to the last one.  The NULL list of changed
  entries, which is also PostgreSQL's empty list, stands for the whole table.
\<close>

definition spock_rmgr_log_resource_dump ::
  "SpockResourceDumpEvent \<Rightarrow> SpockApplyProgress list \<Rightarrow> group_hash option \<Rightarrow> SpockResourceDumpRec list \<times> bool" where
  "spock_rmgr_log_resource_dump event changed_entries shmem =
     (case shmem of
        None \<Rightarrow> ([], False)
      | Some h \<Rightarrow>
          (let ps = (if changed_entries \<noteq> [] then changed_entries else map (ge_progress \<circ> snd) h);
               recs = emit_dump_records event 0 (word_of_nat (length ps)) ps
           in (recs, recs \<noteq> [])))"

text \<open>
  After a table was copied, and while a node is added: the new table, the file and the records logged.
\<close>

definition spock_group_progress_update_list ::
  "(group_hash \<Rightarrow> bool) \<Rightarrow> uint64 \<Rightarrow> SpockApplyProgress list \<Rightarrow> group_hash option
     \<Rightarrow> group_error + (group_hash option \<times> resource_file option \<times> SpockResourceDumpRec list)" where
  "spock_group_progress_update_list room sysid lst shmem =
     (let shmem' = fold (\<lambda>sap s. snd (spock_group_progress_update room sap s)) lst shmem
      in res_bind (spock_group_resource_dump sysid shmem') (\<lambda>file.
           Inr (shmem', file, fst (spock_rmgr_log_resource_dump SPOCK_DUMP_TABLE_SYNC lst shmem'))))"

definition spock_group_progress_force_set_list ::
  "(group_hash \<Rightarrow> bool) \<Rightarrow> uint64 \<Rightarrow> SpockApplyProgress list \<Rightarrow> group_hash option
     \<Rightarrow> group_error + (group_hash option \<times> resource_file option \<times> SpockResourceDumpRec list)" where
  "spock_group_progress_force_set_list room sysid lst shmem =
     (case shmem of
        None \<Rightarrow> Inr (None, None, [])
      | Some h \<Rightarrow>
          (let h' = fold (force_set_one room) lst h
           in res_bind (spock_group_resource_dump sysid (Some h')) (\<lambda>file.
                Inr (Some h', file, fst (spock_rmgr_log_resource_dump SPOCK_DUMP_ADD_NODE [] (Some h'))))))"

text \<open>Replay and the two descriptions: what is printed for a record.\<close>

datatype rmgr_log = Dump_replayed bytes nat nat SpockApplyProgress | Unknown_info byte

definition spock_rmgr_redo :: "byte \<Rightarrow> SpockResourceDumpRec \<Rightarrow> group_hash option \<Rightarrow> rmgr_log \<times> group_hash option" where
  "spock_rmgr_redo info rec shmem =
     (if and info XLR_RMGR_INFO_MASK = SPOCK_RMGR_RESOURCE_DUMP
      then Dump_replayed (event_name (dr_event_type rec)) (unat (dr_entry_seq rec) + 1)
             (unat (dr_entry_total rec)) (dr_progress rec)
      else Unknown_info (and info XLR_RMGR_INFO_MASK), shmem)"

definition spock_rmgr_identify :: "byte \<Rightarrow> bytes option" where
  "spock_rmgr_identify info =
     (if and info XLR_RMGR_INFO_MASK = SPOCK_RMGR_RESOURCE_DUMP then Some (cs ''RESOURCE_DUMP'') else None)"

section \<open>Merging progress\<close>

lemma progress_update_fields [progress_simps]:
  "ap_key (progress_update_struct d s) = ap_key d"
  "ap_remote_commit_ts (progress_update_struct d s) =
     (if ts_less (ap_remote_commit_ts d) (ap_remote_commit_ts s) then ap_remote_commit_ts s else ap_remote_commit_ts d)"
  "ap_prev_remote_ts (progress_update_struct d s) =
     (if ts_less (ap_remote_commit_ts d) (ap_remote_commit_ts s) then ap_prev_remote_ts s else ap_prev_remote_ts d)"
  "ap_remote_commit_lsn (progress_update_struct d s) =
     (if ts_less (ap_remote_commit_ts d) (ap_remote_commit_ts s) then ap_remote_commit_lsn s else ap_remote_commit_lsn d)"
  "ap_last_updated_ts (progress_update_struct d s) =
     (if ts_less (ap_remote_commit_ts d) (ap_remote_commit_ts s) then ap_last_updated_ts s else ap_last_updated_ts d)"
  "ap_updated_by_decode (progress_update_struct d s) =
     (if ts_less (ap_remote_commit_ts d) (ap_remote_commit_ts s) then ap_updated_by_decode s else ap_updated_by_decode d)"
  "ap_remote_insert_lsn (progress_update_struct d s) = max (ap_remote_insert_lsn d) (ap_remote_insert_lsn s)"
  "ap_received_lsn (progress_update_struct d s) = max (ap_received_lsn d) (ap_received_lsn s)"
  by (auto simp: progress_update_struct_def Let_def max_def)

lemma progress_eqI:
  "\<lbrakk>ap_key a = ap_key b; ap_remote_commit_ts a = ap_remote_commit_ts b;
    ap_prev_remote_ts a = ap_prev_remote_ts b; ap_remote_commit_lsn a = ap_remote_commit_lsn b;
    ap_remote_insert_lsn a = ap_remote_insert_lsn b; ap_received_lsn a = ap_received_lsn b;
    ap_last_updated_ts a = ap_last_updated_ts b; ap_updated_by_decode a = ap_updated_by_decode b\<rbrakk>
   \<Longrightarrow> a = (b :: SpockApplyProgress)"
  by simp

text \<open>The fields that describe one commit and change together.\<close>

definition commit_part :: "SpockApplyProgress \<Rightarrow> TimestampTz \<times> XLogRecPtr \<times> TimestampTz \<times> bool" where
  "commit_part p = (ap_prev_remote_ts p, ap_remote_commit_lsn p, ap_last_updated_ts p, ap_updated_by_decode p)"

lemma progress_updates_swap:
  assumes "ap_remote_commit_ts a = ap_remote_commit_ts b \<Longrightarrow> commit_part a = commit_part b"
  shows "progress_update_struct (progress_update_struct d a) b =
    progress_update_struct (progress_update_struct d b) a"
proof (cases "ap_remote_commit_ts a = ap_remote_commit_ts b")
  case True
  with assms have "commit_part a = commit_part b" by simp
  with True show ?thesis
    by (intro progress_eqI) (auto simp: progress_simps commit_part_def max.commute max.left_commute)
next
  case False
  then have "ts_less (ap_remote_commit_ts a) (ap_remote_commit_ts b) \<or>
      ts_less (ap_remote_commit_ts b) (ap_remote_commit_ts a)"
    by (metis linorder_neqE_linordered_idom signed_word_eqI ts_less_def)
  then show ?thesis
    by (intro progress_eqI) (auto simp: progress_simps ts_less_def max.commute max.left_commute)
qed

text \<open>
  C26: The progress of a group does not depend on the order in which its workers report.  Merging the
  same reports in any order gives the same entry, provided two reports of the same commit time agree on
  that commit.
\<close>

theorem progress_order_independent:
  assumes "mset xs = mset ys"
    and "\<And>a b. a \<in> set xs \<Longrightarrow> b \<in> set xs \<Longrightarrow> ap_remote_commit_ts a = ap_remote_commit_ts b \<Longrightarrow>
      commit_part a = commit_part b"
  shows "fold (\<lambda>s d. progress_update_struct d s) xs p = fold (\<lambda>s d. progress_update_struct d s) ys p"
proof -
  have "fold (\<lambda>s d. progress_update_struct d s) xs = fold (\<lambda>s d. progress_update_struct d s) ys"
    using assms by (intro fold_multiset_equiv) (auto simp: fun_eq_iff intro: progress_updates_swap)
  then show ?thesis by simp
qed

definition demo_progress :: "TimestampTz \<Rightarrow> XLogRecPtr \<Rightarrow> XLogRecPtr \<Rightarrow> SpockApplyProgress" where
  "demo_progress ts clsn ilsn = \<lparr>ap_key = make_key 5 1 2, ap_remote_commit_ts = ts, ap_prev_remote_ts = 0,
     ap_remote_commit_lsn = clsn, ap_remote_insert_lsn = ilsn, ap_received_lsn = ilsn,
     ap_last_updated_ts = ts, ap_updated_by_decode = False\<rparr>"

theorem progress_order_independent_witness:
  "fold (\<lambda>s d. progress_update_struct d s) [demo_progress 10 100 120, demo_progress 20 200 210] (zero_progress (make_key 5 1 2)) =
   fold (\<lambda>s d. progress_update_struct d s) [demo_progress 20 200 210, demo_progress 10 100 120] (zero_progress (make_key 5 1 2))"
proof (rule progress_order_independent)
  show "mset [demo_progress 10 100 120, demo_progress 20 200 210] =
      mset [demo_progress 20 200 210, demo_progress 10 100 120]"
    by (simp add: add_mset_commute)
qed (auto simp: demo_progress_def)

text \<open>
  Merging a report never takes progress back: the commit time (as a signed timestamp), the insert
  position and the received position of the entry never decrease, its key never changes, and the commit
  position changes only together with a later commit time.
\<close>

theorem progress_never_regresses:
  "sint (ap_remote_commit_ts p) \<le> sint (ap_remote_commit_ts (progress_update_struct p s)) \<and>
   ap_remote_insert_lsn p \<le> ap_remote_insert_lsn (progress_update_struct p s) \<and>
   ap_received_lsn p \<le> ap_received_lsn (progress_update_struct p s) \<and>
   ap_key (progress_update_struct p s) = ap_key p \<and>
   (ap_remote_commit_lsn (progress_update_struct p s) = ap_remote_commit_lsn p \<or>
    sint (ap_remote_commit_ts p) < sint (ap_remote_commit_ts (progress_update_struct p s)) \<and>
    ap_remote_commit_lsn (progress_update_struct p s) = ap_remote_commit_lsn s)"
  by (auto simp: progress_simps ts_less_def)

section \<open>Saving and loading\<close>

lemma dump_foreach:
  "spock_group_foreach dump_one_group_cb h (w, c) =
     (w @ map (ge_progress \<circ> snd) h, c + word_of_nat (length h))"
  by (induction h arbitrary: w c) (auto simp: spock_group_foreach_def dump_one_group_cb_def)

lemma resource_dump_some:
  "spock_group_resource_dump sysid (Some h) = Inr (Some
     (\<lparr>rh_version = SPOCK_RES_VERSION, rh_system_identifier = sysid, rh_flags = 0,
       rh_entry_count = word_of_nat (length h)\<rparr>, map (ge_progress \<circ> snd) h))"
  by (simp add: spock_group_resource_dump_def dump_foreach)

text \<open>What an entry is after it was saved and loaded.\<close>

definition reloaded_entry :: "SpockGroupEntry \<Rightarrow> SpockGroupEntry" where
  "reloaded_entry e =
     \<lparr>ge_progress = progress_update_struct (zero_progress (ap_key (ge_progress e))) (ge_progress e),
      ge_nattached = 0\<rparr>"

lemma hash_put_fresh: "hash_find h k = None \<Longrightarrow> hash_put k v h = h @ [(k, v)]"
  by (induction h) (auto simp: hash_find_def hash_put_def split: if_splits)

lemma hash_find_append: "hash_find (a @ b) k = (case hash_find a k of None \<Rightarrow> hash_find b k | r \<Rightarrow> r)"
  by (auto simp: hash_find_def map_add_def split: option.splits)

lemma load_records_fresh:
  assumes "\<And>h. room h" "hash_wf (h0 @ h)" "\<And>k e. (k, e) \<in> set h \<Longrightarrow> ap_key (ge_progress e) = k"
  shows "load_records room (length h) (map (ge_progress \<circ> snd) h) (Some h0) =
    Inr (Some (h0 @ map (\<lambda>(k, e). (k, reloaded_entry e)) h))"
  using assms(2,3)
proof (induction h arbitrary: h0)
  case (Cons x h)
  obtain k e where x: "x = (k, e)" by fastforce
  have key: "ap_key (ge_progress e) = k" using Cons.prems(2) x by simp
  have "hash_find h0 k = None"
    using Cons.prems(1) x by (auto simp: hash_wf_def hash_find_def map_of_eq_None_iff)
  then have step: "snd (spock_group_progress_update room (ge_progress e) (Some h0)) =
      Some (h0 @ [(k, reloaded_entry e)])"
    using assms(1) key
    by (simp add: spock_group_progress_update_def group_enter_def hash_put_fresh new_entry_def
        reloaded_entry_def)
  have "load_records room (length h) (map (ge_progress \<circ> snd) h) (Some (h0 @ [(k, reloaded_entry e)])) =
      Inr (Some ((h0 @ [(k, reloaded_entry e)]) @ map (\<lambda>(k, e). (k, reloaded_entry e)) h))"
  proof (rule Cons.IH)
    show "hash_wf ((h0 @ [(k, reloaded_entry e)]) @ h)"
      using Cons.prems(1) x by (auto simp: hash_wf_def)
  qed (simp add: Cons.prems(2))
  then show ?case
    using step by (simp add: x comp_def)
qed simp

lemma resource_roundtrip:
  assumes "\<And>h. room h" "hash_wf h" "\<And>k e. (k, e) \<in> set h \<Longrightarrow> ap_key (ge_progress e) = k"
    and "length h < 2 ^ 32"
  shows "res_bind (spock_group_resource_dump sysid (Some h)) (\<lambda>file.
      spock_group_resource_load room sysid file (Some [])) =
    Inr (Some (map (\<lambda>(k, e). (k, reloaded_entry e)) h))"
proof -
  have "unat (word_of_nat (length h) :: uint32) = length h"
    using assms(4) by (simp add: unat_of_nat)
  then show ?thesis
    using load_records_fresh [OF assms(1), of "[]" h] assms(2,3)
    by (simp add: resource_dump_some spock_group_resource_load_def)
qed

lemma reloaded_committed:
  assumes "ts_less 0 (ap_remote_commit_ts (ge_progress e))"
  shows "reloaded_entry e = e\<lparr>ge_nattached := 0\<rparr>"
proof -
  have "progress_update_struct (zero_progress (ap_key (ge_progress e))) (ge_progress e) = ge_progress e"
    using assms
    by (intro progress_eqI) (auto simp: progress_simps zero_progress_def spock_init_progress_fields_def)
  then show ?thesis by (simp add: reloaded_entry_def)
qed



text \<open>
  An entry that has a position but no commit time yet, as one set while a node is added may be, does
  not survive: after a dump and a load its commit position is gone.
\<close>

theorem resource_file_loses_position:
  assumes "\<And>h. room h" "ap_remote_commit_ts (ge_progress e) = 0" "ap_key (ge_progress e) = k"
  shows "\<exists>e'. res_bind (spock_group_resource_dump sysid (Some [(k, e)])) (\<lambda>file.
      spock_group_resource_load room sysid file (Some [])) = Inr (Some [(k, e')]) \<and>
    ap_remote_commit_lsn (ge_progress e') = InvalidXLogRecPtr \<and>
    ap_remote_insert_lsn (ge_progress e') = ap_remote_insert_lsn (ge_progress e)"
proof -
  have "res_bind (spock_group_resource_dump sysid (Some [(k, e)])) (\<lambda>file.
      spock_group_resource_load room sysid file (Some [])) = Inr (Some [(k, reloaded_entry e)])"
    using resource_roundtrip [of room "[(k, e)]" sysid, OF assms(1)] assms(3) by (simp add: hash_wf_def)
  moreover have "ap_remote_commit_lsn (ge_progress (reloaded_entry e)) = InvalidXLogRecPtr"
    "ap_remote_insert_lsn (ge_progress (reloaded_entry e)) = ap_remote_insert_lsn (ge_progress e)"
    using assms(2)
    by (simp_all add: reloaded_entry_def progress_simps zero_progress_def
        spock_init_progress_fields_def ts_less_def)
  ultimately show ?thesis by blast
qed

theorem resource_file_loses_position_witness:
  "\<exists>e'. res_bind (spock_group_resource_dump 77 (Some [(make_key 5 1 2,
       \<lparr>ge_progress = demo_progress 0 100 120, ge_nattached = 3\<rparr>)])) (\<lambda>file.
     spock_group_resource_load (\<lambda>_. True) 77 file (Some [])) = Inr (Some [(make_key 5 1 2, e')]) \<and>
     ap_remote_commit_lsn (ge_progress e') = InvalidXLogRecPtr"
proof -
  let ?e = "\<lparr>ge_progress = demo_progress 0 100 120, ge_nattached = 3\<rparr>"
  have "ap_remote_commit_ts (ge_progress ?e) = 0" "ap_key (ge_progress ?e) = make_key 5 1 2"
    by (simp_all add: demo_progress_def)
  from resource_file_loses_position [of "\<lambda>_. True", OF TrueI this, of 77] show ?thesis by blast
qed

end
