(* ===== verification/Spock_Worker.thy ===== *)
theory Spock_Worker
  imports Spock_Group
begin

text \<open>
  The registry of background workers (\<open>src/spock_worker.c\<close>, \<open>include/spock_worker.h\<close>): an array of slots
  in shared memory in which the supervisor and the managers register workers, to which the started
  processes attach and from which they detach when they exit.  A pointer to a worker is the index of
  its slot, the null pointer is \<^const>\<open>None\<close>.  Also here: the signals a transaction queues for the
  workers of a changed subscription, and the statistics counters.
\<close>

section \<open>Data\<close>

datatype SpockWorkerType =
    SPOCK_WORKER_NONE
  | SPOCK_WORKER_MANAGER
  | SPOCK_WORKER_APPLY
  | SPOCK_WORKER_SYNC

datatype SpockWorkerStatus =
    SPOCK_WORKER_STATUS_NONE
  | SPOCK_WORKER_STATUS_IDLE
  | SPOCK_WORKER_STATUS_RUNNING
  | SPOCK_WORKER_STATUS_STOPPING
  | SPOCK_WORKER_STATUS_STOPPED
  | SPOCK_WORKER_STATUS_FAILED

type_synonym PGPROC = nat

record SpockApplyWorker =
  aw_subid :: Oid
  aw_replay_stop_lsn :: XLogRecPtr
  aw_sync_pending :: bool
  aw_use_try_block :: bool
  aw_paused :: bool
  aw_apply_group :: "SpockGroupKey option"

text \<open>
  The union of the apply and the sync worker is the sync worker, whose first member is the apply
  worker.
\<close>

record SpockWorker =
  w_worker_type :: SpockWorkerType
  w_generation :: uint16
  w_proc :: "PGPROC option"
  w_terminated_at :: TimestampTz
  w_restart_delay :: uint32
  w_dboid :: Oid
  w_remote_wal_insert_lsn :: XLogRecPtr
  w_worker_status :: SpockWorkerStatus
  w_apply :: SpockApplyWorker
  w_nspname :: bytes
  w_relname :: bytes

text \<open>The part of the shared context that the registry uses; the number of slots is the length.\<close>

record SpockContext =
  ctx_supervisor :: "PGPROC option"
  ctx_subscriptions_changed :: bool
  ctx_workers :: "SpockWorker list"

definition zero_apply_worker :: SpockApplyWorker where
  "zero_apply_worker = \<lparr>aw_subid = InvalidOid, aw_replay_stop_lsn = InvalidXLogRecPtr, aw_sync_pending = False,
     aw_use_try_block = False, aw_paused = False, aw_apply_group = None\<rparr>"

definition zero_worker :: SpockWorker where
  "zero_worker = \<lparr>w_worker_type = SPOCK_WORKER_NONE, w_generation = 0, w_proc = None, w_terminated_at = 0,
     w_restart_delay = 0, w_dboid = InvalidOid, w_remote_wal_insert_lsn = InvalidXLogRecPtr,
     w_worker_status = SPOCK_WORKER_STATUS_NONE, w_apply = zero_apply_worker, w_nspname = [], w_relname = []\<rparr>"

text \<open>The context of \<open>spock_shmem_startup\<close>.\<close>

definition spock_shmem_context :: "nat \<Rightarrow> SpockContext" where
  "spock_shmem_context nworkers =
     \<lparr>ctx_supervisor = None, ctx_subscriptions_changed = False, ctx_workers = replicate nworkers zero_worker\<rparr>"

definition spock_worker_type_name :: "SpockWorkerType \<Rightarrow> bytes" where
  "spock_worker_type_name t = (case t of
      SPOCK_WORKER_NONE \<Rightarrow> cs ''none''
    | SPOCK_WORKER_MANAGER \<Rightarrow> cs ''manager''
    | SPOCK_WORKER_APPLY \<Rightarrow> cs ''apply''
    | SPOCK_WORKER_SYNC \<Rightarrow> cs ''sync'')"

section \<open>Looking for slots\<close>

text \<open>The loop over the slots that returns at the first one with a property.\<close>

fun first_slot :: "('w \<Rightarrow> bool) \<Rightarrow> 'w list \<Rightarrow> nat option" where
  "first_slot P [] = None"
| "first_slot P (w # ws) = (if P w then Some 0 else map_option Suc (first_slot P ws))"

definition all_slots :: "('w \<Rightarrow> bool) \<Rightarrow> 'w list \<Rightarrow> nat list" where
  "all_slots P ws = filter (\<lambda>i. P (ws ! i)) [0..<length ws]"

definition slot_empty_for :: "Oid \<Rightarrow> SpockWorker \<Rightarrow> bool" where
  "slot_empty_for dboid w \<longleftrightarrow>
     w_worker_type w = SPOCK_WORKER_NONE \<or>
     w_terminated_at w \<noteq> 0 \<and> (w_dboid w = dboid \<or> w_dboid w = InvalidOid)"

definition find_empty_worker_slot :: "Oid \<Rightarrow> SpockContext \<Rightarrow> nat option" where
  "find_empty_worker_slot dboid ctx = first_slot (slot_empty_for dboid) (ctx_workers ctx)"

definition spock_manager_find :: "Oid \<Rightarrow> SpockContext \<Rightarrow> nat option" where
  "spock_manager_find dboid ctx =
     first_slot (\<lambda>w. w_worker_type w = SPOCK_WORKER_MANAGER \<and> dboid = w_dboid w) (ctx_workers ctx)"

definition apply_of :: "Oid \<Rightarrow> Oid \<Rightarrow> SpockWorker \<Rightarrow> bool" where
  "apply_of dboid subid w \<longleftrightarrow>
     w_worker_type w = SPOCK_WORKER_APPLY \<and> dboid = w_dboid w \<and> subid = aw_subid (w_apply w)"

definition spock_apply_find :: "Oid \<Rightarrow> Oid \<Rightarrow> SpockContext \<Rightarrow> nat option" where
  "spock_apply_find dboid subscriberid ctx = first_slot (apply_of dboid subscriberid) (ctx_workers ctx)"

definition spock_apply_find_all :: "Oid \<Rightarrow> SpockContext \<Rightarrow> nat list" where
  "spock_apply_find_all dboid ctx =
     all_slots (\<lambda>w. w_worker_type w = SPOCK_WORKER_APPLY \<and> dboid = w_dboid w) (ctx_workers ctx)"

definition spock_sync_find :: "Oid \<Rightarrow> Oid \<Rightarrow> bytes \<Rightarrow> bytes \<Rightarrow> SpockContext \<Rightarrow> nat option" where
  "spock_sync_find dboid subscriberid nspname relname ctx =
     first_slot (\<lambda>w. w_worker_type w = SPOCK_WORKER_SYNC \<and> dboid = w_dboid w \<and> subscriberid = aw_subid (w_apply w) \<and>
       cstr_of (w_nspname w) = cstr_of nspname \<and> cstr_of (w_relname w) = cstr_of relname) (ctx_workers ctx)"

definition spock_sync_find_all :: "Oid \<Rightarrow> Oid \<Rightarrow> SpockContext \<Rightarrow> nat list" where
  "spock_sync_find_all dboid subscriberid ctx =
     all_slots (\<lambda>w. w_worker_type w = SPOCK_WORKER_SYNC \<and> dboid = w_dboid w \<and> subscriberid = aw_subid (w_apply w))
       (ctx_workers ctx)"

definition spock_any_apply_worker_running :: "SpockContext \<Rightarrow> bool" where
  "spock_any_apply_worker_running ctx =
     list_ex (\<lambda>w. w_proc w \<noteq> None \<and>
       (w_worker_type w = SPOCK_WORKER_APPLY \<or> w_worker_type w = SPOCK_WORKER_SYNC)) (ctx_workers ctx)"

definition spock_worker_running :: "nat option \<Rightarrow> SpockContext \<Rightarrow> bool" where
  "spock_worker_running worker ctx = (case worker of None \<Rightarrow> False | Some i \<Rightarrow> w_proc (ctx_workers ctx ! i) \<noteq> None)"

definition spock_worker_terminating :: "nat option \<Rightarrow> SpockContext \<Rightarrow> bool" where
  "spock_worker_terminating worker ctx = (case worker of
      None \<Rightarrow> False
    | Some i \<Rightarrow> w_proc (ctx_workers ctx ! i) \<noteq> None \<and> w_terminated_at (ctx_workers ctx ! i) \<noteq> 0)"

lemma first_slot_Some:
  "first_slot P ws = Some i \<longleftrightarrow> i < length ws \<and> P (ws ! i) \<and> (\<forall>j<i. \<not> P (ws ! j))"
proof (induction ws arbitrary: i)
  case (Cons w ws)
  show ?case
    by (cases i) (auto simp: Cons.IH less_Suc_eq_0_disj)
qed simp

lemma first_slot_None: "first_slot P ws = None \<longleftrightarrow> (\<forall>w\<in>set ws. \<not> P w)"
  by (induction ws) auto

lemma set_all_slots: "i \<in> set (all_slots P ws) \<longleftrightarrow> i < length ws \<and> P (ws ! i)"
  by (auto simp: all_slots_def)

section \<open>Registration\<close>

definition upd_slot :: "nat \<Rightarrow> (SpockWorker \<Rightarrow> SpockWorker) \<Rightarrow> SpockContext \<Rightarrow> SpockContext" where
  "upd_slot i f ctx = ctx\<lparr>ctx_workers := (ctx_workers ctx)[i := f (ctx_workers ctx ! i)]\<rparr>"

lemma upd_slot_workers [simp]:
  "ctx_workers (upd_slot i f ctx) = (ctx_workers ctx)[i := f (ctx_workers ctx ! i)]"
  by (simp add: upd_slot_def)

definition next_generation :: "uint16 \<Rightarrow> uint16" where
  "next_generation g = (if g = 65535 then 0 else g + 1)"

text \<open>The part of \<open>spock_worker_register\<close> under the lock: the slot and the context with the slot filled.\<close>

definition reserve_slot :: "uint32 \<Rightarrow> SpockWorker \<Rightarrow> SpockContext \<Rightarrow> (nat \<times> SpockContext) option" where
  "reserve_slot restart_delay_default worker ctx =
     (case find_empty_worker_slot (w_dboid worker) ctx of
        None \<Rightarrow> None
      | Some slot \<Rightarrow> Some (slot, upd_slot slot (\<lambda>worker_shm. worker
          \<lparr>w_generation := next_generation (w_generation worker_shm), w_terminated_at := 0,
           w_restart_delay := restart_delay_default, w_proc := None\<rparr>) ctx))"

definition mark_terminated :: "TimestampTz \<Rightarrow> nat \<Rightarrow> SpockContext \<Rightarrow> SpockContext" where
  "mark_terminated now slot = upd_slot slot (\<lambda>w. w\<lparr>w_terminated_at := now\<rparr>)"

definition bgw_function_name :: "SpockWorkerType \<Rightarrow> bytes" where
  "bgw_function_name t =
     (if t = SPOCK_WORKER_MANAGER then cs ''spock_manager_main''
      else if t = SPOCK_WORKER_SYNC then cs ''spock_sync_main''
      else cs ''spock_apply_main'')"

datatype BgwHandleStatus = BGWH_STARTED | BGWH_NOT_YET_STARTED | BGWH_STOPPED

text \<open>
  One turn of the waiting loop: what the other processes did to the context since the last turn,
  whether SIGTERM arrived, the status of the launched process, and the time.
\<close>

record startup_poll =
  sp_world :: "SpockContext \<Rightarrow> SpockContext"
  sp_sigterm :: bool
  sp_status :: BgwHandleStatus
  sp_now :: TimestampTz

datatype startup = Startup_attached | Startup_stopped | Startup_exit

text \<open>What the loop does when the process is gone: mark the slot if it still is the one of this launch.\<close>

definition startup_stopped :: "TimestampTz \<Rightarrow> nat \<Rightarrow> uint16 \<Rightarrow> SpockContext \<Rightarrow> SpockContext" where
  "startup_stopped now slot generation ctx =
     (let w = ctx_workers ctx ! slot in
      if w_worker_type w \<noteq> SPOCK_WORKER_NONE \<and> w_generation w = generation \<and> w_terminated_at w = 0
      then mark_terminated now slot ctx else ctx)"

fun wait_for_worker_startup ::
  "nat \<Rightarrow> uint16 \<Rightarrow> startup_poll list \<Rightarrow> SpockContext \<Rightarrow> startup option \<times> SpockContext" where
  "wait_for_worker_startup slot generation [] ctx = (None, ctx)"
| "wait_for_worker_startup slot generation (p # ps) ctx =
     (let ctx' = sp_world p ctx in
      if sp_sigterm p then (Some Startup_exit, ctx')
      else if sp_status p = BGWH_STARTED \<and> spock_worker_running (Some slot) ctx' then (Some Startup_attached, ctx')
      else if sp_status p = BGWH_STOPPED then (Some Startup_stopped, startup_stopped (sp_now p) slot generation ctx')
      else wait_for_worker_startup slot generation ps ctx')"

datatype register_result =
    Registered nat
  | All_slots_used
  | Registration_failed
  | Exit_on_sigterm
  | Still_waiting

definition spock_worker_register ::
  "uint32 \<Rightarrow> bool \<Rightarrow> TimestampTz \<Rightarrow> startup_poll list \<Rightarrow> SpockWorker \<Rightarrow> SpockContext
     \<Rightarrow> register_result \<times> SpockContext" where
  "spock_worker_register restart_delay_default launched now polls worker ctx =
     (case reserve_slot restart_delay_default worker ctx of
        None \<Rightarrow> (All_slots_used, ctx)
      | Some (slot, ctx1) \<Rightarrow>
          if \<not> launched then (Registration_failed, mark_terminated now slot ctx1)
          else (let (res, ctx2) = wait_for_worker_startup slot (w_generation (ctx_workers ctx1 ! slot)) polls ctx1
                in (case res of
                      None \<Rightarrow> Still_waiting
                    | Some Startup_exit \<Rightarrow> Exit_on_sigterm
                    | Some _ \<Rightarrow> Registered slot, ctx2)))"

section \<open>The life of a process\<close>

definition spock_worker_attach :: "nat \<Rightarrow> PGPROC \<Rightarrow> SpockContext \<Rightarrow> uint16 \<times> SpockContext" where
  "spock_worker_attach slot me ctx =
     (w_generation (ctx_workers ctx ! slot),
      upd_slot slot (\<lambda>w. w\<lparr>w_proc := Some me, w_apply := (w_apply w)\<lparr>aw_apply_group := None\<rparr>\<rparr>) ctx)"

text \<open>The signals that are sent: SIGTERM to a process, or its latch.\<close>

datatype worker_signal = Kill PGPROC | SetLatch PGPROC

definition latch_of :: "nat option \<Rightarrow> SpockContext \<Rightarrow> worker_signal list" where
  "latch_of worker ctx = (case worker of
      None \<Rightarrow> []
    | Some i \<Rightarrow> (case w_proc (ctx_workers ctx ! i) of None \<Rightarrow> [] | Some p \<Rightarrow> [SetLatch p]))"

definition spock_worker_kill :: "nat option \<Rightarrow> SpockContext \<Rightarrow> worker_signal list" where
  "spock_worker_kill worker ctx = (case worker of
      None \<Rightarrow> []
    | Some i \<Rightarrow> (case w_proc (ctx_workers ctx ! i) of None \<Rightarrow> [] | Some p \<Rightarrow> [Kill p]))"

definition spock_worker_detach ::
  "bool \<Rightarrow> TimestampTz \<Rightarrow> nat option \<Rightarrow> SpockContext \<Rightarrow> worker_signal list \<times> SpockContext" where
  "spock_worker_detach crash now my ctx =
     (case my of
        None \<Rightarrow> ([], ctx)
      | Some slot \<Rightarrow>
          let ctx1 = upd_slot slot (\<lambda>w. w\<lparr>w_proc := None\<rparr>) ctx;
              typ = w_worker_type (ctx_workers ctx1 ! slot)
          in if crash then
               let ctx2 = mark_terminated now slot ctx1 in
               if typ = SPOCK_WORKER_MANAGER then ([], ctx2\<lparr>ctx_subscriptions_changed := True\<rparr>)
               else (latch_of (spock_manager_find (w_dboid (ctx_workers ctx2 ! slot)) ctx2) ctx2, ctx2)
             else ([], upd_slot slot (\<lambda>w. w\<lparr>w_worker_type := SPOCK_WORKER_NONE, w_dboid := InvalidOid\<rparr>) ctx1))"

definition spock_worker_on_exit ::
  "int \<Rightarrow> TimestampTz \<Rightarrow> nat option \<Rightarrow> SpockContext \<Rightarrow> worker_signal list \<times> SpockContext" where
  "spock_worker_on_exit code = spock_worker_detach (code \<noteq> 0)"

section \<open>Signals of a changed subscription\<close>

datatype XactEvent =
    XACT_EVENT_COMMIT | XACT_EVENT_PARALLEL_COMMIT | XACT_EVENT_ABORT | XACT_EVENT_PARALLEL_ABORT
  | XACT_EVENT_PREPARE | XACT_EVENT_PRE_COMMIT | XACT_EVENT_PARALLEL_PRE_COMMIT | XACT_EVENT_PRE_PREPARE

record signal_worker_item =
  si_subid :: Oid
  si_kill :: bool

definition spock_subscription_changed :: "Oid \<Rightarrow> bool \<Rightarrow> signal_worker_item list \<Rightarrow> signal_worker_item list" where
  "spock_subscription_changed subid kill signal_workers =
     (if subid \<noteq> InvalidOid then signal_workers @ [\<lparr>si_subid = subid, si_kill = kill\<rparr>] else signal_workers)"

definition signal_one :: "Oid \<Rightarrow> signal_worker_item \<Rightarrow> SpockContext \<Rightarrow> worker_signal list \<times> SpockContext" where
  "signal_one db item ctx =
     (let w = spock_apply_find db (si_subid item) ctx in
      if si_kill item then (spock_worker_kill w ctx, ctx)
      else (case w of
              None \<Rightarrow> ([], ctx)
            | Some i \<Rightarrow>
                if spock_worker_running w ctx
                then (latch_of w ctx, upd_slot i (\<lambda>v. v\<lparr>w_apply := (w_apply v)\<lparr>aw_sync_pending := True\<rparr>\<rparr>) ctx)
                else ([], ctx)))"

fun signal_all :: "Oid \<Rightarrow> signal_worker_item list \<Rightarrow> SpockContext \<Rightarrow> worker_signal list \<times> SpockContext" where
  "signal_all db [] ctx = ([], ctx)"
| "signal_all db (item # items) ctx =
     (let (s, ctx1) = signal_one db item ctx; (ss, ctx2) = signal_all db items ctx1 in (s @ ss, ctx2))"

definition signal_worker_xact_callback ::
  "Oid \<Rightarrow> XactEvent \<Rightarrow> signal_worker_item list \<Rightarrow> SpockContext
     \<Rightarrow> signal_worker_item list \<times> worker_signal list \<times> SpockContext" where
  "signal_worker_xact_callback db event signal_workers ctx =
     (if signal_workers = [] then (signal_workers, [], ctx)
      else (case event of
        XACT_EVENT_COMMIT \<Rightarrow>
          (let (s, ctx1) = signal_all db signal_workers ctx;
               ctx2 = ctx1\<lparr>ctx_subscriptions_changed := True\<rparr>
           in ([], s @ latch_of (spock_manager_find db ctx2) ctx2 @
                 (case ctx_supervisor ctx2 of None \<Rightarrow> [] | Some p \<Rightarrow> [SetLatch p]), ctx2))
      | XACT_EVENT_ABORT \<Rightarrow> ([], [], ctx)
      | _ \<Rightarrow> (signal_workers, [], ctx)))"

section \<open>Statistics\<close>

datatype SpockStatsType =
    SPOCK_STATS_INSERT_COUNT
  | SPOCK_STATS_UPDATE_COUNT
  | SPOCK_STATS_DELETE_COUNT
  | SPOCK_STATS_CONFLICT_COUNT
  | SPOCK_STATS_DCA_COUNT

record spockStatsKey =
  sk_dboid :: Oid
  sk_subid :: Oid
  sk_relid :: Oid

type_synonym stats_hash = "(spockStatsKey, SpockStatsType \<Rightarrow> uint64) htab"

definition spock_stats_max :: "int \<Rightarrow> nat \<Rightarrow> int" where
  "spock_stats_max conf nworkers = (if conf < 0 then 1000 * int nworkers else conf)"

text \<open>
  The table and the flag of this process that it was full.  \<open>room\<close> says whether the table of fixed size
  can take another entry.
\<close>

definition handle_stats_counter ::
  "bool \<Rightarrow> int \<Rightarrow> (stats_hash \<Rightarrow> bool) \<Rightarrow> Oid \<Rightarrow> Oid \<Rightarrow> Oid \<Rightarrow> SpockStatsType \<Rightarrow> int
     \<Rightarrow> stats_hash \<times> bool \<Rightarrow> stats_hash \<times> bool" where
  "handle_stats_counter enabled max_entries room db relid subid typ ntup s =
     (if \<not> enabled then s
      else
        let (h, full) = s;
            key = \<lparr>sk_dboid = db, sk_subid = subid, sk_relid = relid\<rparr>
        in (case hash_find h key of
              Some counter \<Rightarrow> (hash_put key (counter(typ := counter typ + word_of_int ntup)) h, full)
            | None \<Rightarrow>
                if full then (h, full)
                else if int (length h) \<ge> max_entries then (h, True)
                else if \<not> room h then (h, True)
                else (hash_put key ((\<lambda>_. 0)(typ := word_of_int ntup)) h, full)))"

definition reset_channel_stats :: "stats_hash \<Rightarrow> stats_hash" where
  "reset_channel_stats h = foldl (\<lambda>t (k, _). filter (\<lambda>e. fst e \<noteq> k) t) h h"

section \<open>All interleavings of the processes\<close>

text \<open>
  A registration is followed from the slot it reserves to the exit of its process.  \<open>t_seq\<close> is its number
  among the registrations of the slot, which the 16-bit generation counts modulo \<open>2^16\<close>.
\<close>

datatype phase = Reserved | Launched | Attached uint16 | Died | Exited | Noticed

record launch =
  t_slot :: nat
  t_seq :: nat
  t_type :: SpockWorkerType
  t_phase :: phase

record registry =
  rg_ctx :: SpockContext
  rg_tags :: "PGPROC \<Rightarrow> launch option"
  rg_count :: "nat \<Rightarrow> nat"

text \<open>The manager frees a slot whose worker crashed and is not needed.\<close>

definition clean_slot :: "nat \<Rightarrow> SpockContext \<Rightarrow> SpockContext" where
  "clean_slot slot ctx =
     (if w_terminated_at (ctx_workers ctx ! slot) \<noteq> 0
      then upd_slot slot (\<lambda>w. w\<lparr>w_worker_type := SPOCK_WORKER_NONE, w_terminated_at := 0\<rparr>) ctx else ctx)"

definition set_phase :: "PGPROC \<Rightarrow> phase \<Rightarrow> SpockContext \<Rightarrow> registry \<Rightarrow> registry" where
  "set_phase p ph ctx s = s\<lparr>rg_ctx := ctx, rg_tags := (rg_tags s)(p := map_option (t_phase_update (\<lambda>_. ph)) (rg_tags s p))\<rparr>"

text \<open>
  Any number of processes work on the registry.  Each step is one critical section (or one store) of the
  source: reserve a slot, launch the process or fail to, attach, exit before attaching, exit after it,
  notice in the waiting loop that the process is gone, clean a slot, signal the workers.  A waiting loop
  is assumed to notice before its slot is registered \<open>2^16\<close> more times, and the clock not to show the
  value that means no time.
\<close>

inductive registry_reach :: "nat \<Rightarrow> registry \<Rightarrow> bool" for n :: nat where
  registry_start: "registry_reach n \<lparr>rg_ctx = spock_shmem_context n, rg_tags = Map.empty, rg_count = (\<lambda>_. 0)\<rparr>"
| registry_reserve: "registry_reach n s \<Longrightarrow> rg_tags s p = None \<Longrightarrow> w_worker_type w \<noteq> SPOCK_WORKER_NONE \<Longrightarrow>
    reserve_slot d w (rg_ctx s) = Some (slot, ctx) \<Longrightarrow>
    registry_reach n (s\<lparr>rg_ctx := ctx, rg_count := (rg_count s)(slot := Suc (rg_count s slot)),
      rg_tags := (rg_tags s)(p \<mapsto> \<lparr>t_slot = slot, t_seq = Suc (rg_count s slot), t_type = w_worker_type w,
        t_phase = Reserved\<rparr>)\<rparr>)"
| registry_launch: "registry_reach n s \<Longrightarrow> rg_tags s p = Some t \<Longrightarrow> t_phase t = Reserved \<Longrightarrow>
    registry_reach n (set_phase p Launched (rg_ctx s) s)"
| registry_launch_failed: "registry_reach n s \<Longrightarrow> rg_tags s p = Some t \<Longrightarrow> t_phase t = Reserved \<Longrightarrow> now \<noteq> 0 \<Longrightarrow>
    registry_reach n (set_phase p Noticed (mark_terminated now (t_slot t) (rg_ctx s)) s)"
| registry_attach: "registry_reach n s \<Longrightarrow> rg_tags s p = Some t \<Longrightarrow> t_phase t = Launched \<Longrightarrow>
    spock_worker_attach (t_slot t) p (rg_ctx s) = (g, ctx) \<Longrightarrow> registry_reach n (set_phase p (Attached g) ctx s)"
| registry_die: "registry_reach n s \<Longrightarrow> rg_tags s p = Some t \<Longrightarrow> t_phase t = Launched \<Longrightarrow>
    registry_reach n (set_phase p Died (rg_ctx s) s)"
| registry_exit: "registry_reach n s \<Longrightarrow> rg_tags s p = Some t \<Longrightarrow> t_phase t = Attached g \<Longrightarrow> now \<noteq> 0 \<Longrightarrow>
    spock_worker_on_exit code now (Some (t_slot t)) (rg_ctx s) = (sig, ctx) \<Longrightarrow>
    registry_reach n (set_phase p Exited ctx s)"
| registry_notice: "registry_reach n s \<Longrightarrow> rg_tags s p = Some t \<Longrightarrow> t_phase t = Died \<or> t_phase t = Exited \<Longrightarrow>
    now \<noteq> 0 \<Longrightarrow> rg_count s (t_slot t) - t_seq t < 2 ^ 16 \<Longrightarrow>
    registry_reach n (set_phase p Noticed (startup_stopped now (t_slot t) (word_of_nat (t_seq t)) (rg_ctx s)) s)"
| registry_clean: "registry_reach n s \<Longrightarrow> slot < n \<Longrightarrow> registry_reach n (s\<lparr>rg_ctx := clean_slot slot (rg_ctx s)\<rparr>)"
| registry_signal: "registry_reach n s \<Longrightarrow>
    signal_worker_xact_callback db event items (rg_ctx s) = (items', sigs, ctx) \<Longrightarrow>
    registry_reach n (s\<lparr>rg_ctx := ctx\<rparr>)"

definition phase_live :: "phase \<Rightarrow> bool" where
  "phase_live ph \<longleftrightarrow> ph \<noteq> Exited \<and> ph \<noteq> Noticed"

definition phase_proc :: "PGPROC \<Rightarrow> phase \<Rightarrow> PGPROC option" where
  "phase_proc p ph = (case ph of Attached _ \<Rightarrow> Some p | _ \<Rightarrow> None)"

text \<open>What holds of a registration and the worker in its slot.\<close>

definition launch_ok :: "SpockWorker list \<Rightarrow> (nat \<Rightarrow> nat) \<Rightarrow> PGPROC \<Rightarrow> launch \<Rightarrow> bool" where
  "launch_ok ws c p t \<longleftrightarrow> t_slot t < length ws \<and> t_seq t \<le> c (t_slot t) \<and>
     (let w = ws ! t_slot t in
      (phase_live (t_phase t) \<longrightarrow> t_seq t = c (t_slot t) \<and> w_worker_type w = t_type t \<and>
         t_type t \<noteq> SPOCK_WORKER_NONE \<and> w_terminated_at w = 0 \<and> w_proc w = phase_proc p (t_phase t)) \<and>
      (\<forall>g. t_phase t = Attached g \<longrightarrow> g = w_generation w) \<and>
      (t_phase t = Exited \<longrightarrow> t_seq t = c (t_slot t) \<longrightarrow>
         w_worker_type w = SPOCK_WORKER_NONE \<or> w_terminated_at w \<noteq> 0))"

definition registry_ok :: "nat \<Rightarrow> registry \<Rightarrow> bool" where
  "registry_ok n s \<longleftrightarrow> length (ctx_workers (rg_ctx s)) = n \<and>
     (\<forall>p t. rg_tags s p = Some t \<longrightarrow> launch_ok (ctx_workers (rg_ctx s)) (rg_count s) p t) \<and>
     (\<forall>p q t u. rg_tags s p = Some t \<longrightarrow> rg_tags s q = Some u \<longrightarrow> t_slot t = t_slot u \<longrightarrow> t_seq t = t_seq u \<longrightarrow> p = q) \<and>
     (\<forall>i<n. w_generation (ctx_workers (rg_ctx s) ! i) = word_of_nat (rg_count s i) \<and>
        (\<forall>p. w_proc (ctx_workers (rg_ctx s) ! i) = Some p \<longrightarrow>
           (\<exists>t g. rg_tags s p = Some t \<and> t_slot t = i \<and> t_phase t = Attached g)))"

lemma registry_okD:
  assumes "registry_ok n s"
  shows registry_ok_length: "length (ctx_workers (rg_ctx s)) = n"
    and registry_ok_launch: "rg_tags s p = Some t \<Longrightarrow> launch_ok (ctx_workers (rg_ctx s)) (rg_count s) p t"
    and registry_ok_inj: "rg_tags s p = Some t \<Longrightarrow> rg_tags s q = Some u \<Longrightarrow> t_slot t = t_slot u \<Longrightarrow>
      t_seq t = t_seq u \<Longrightarrow> p = q"
    and registry_ok_generation: "i < n \<Longrightarrow> w_generation (ctx_workers (rg_ctx s) ! i) = word_of_nat (rg_count s i)"
    and registry_ok_proc: "i < n \<Longrightarrow> w_proc (ctx_workers (rg_ctx s) ! i) = Some p \<Longrightarrow>
      \<exists>t g. rg_tags s p = Some t \<and> t_slot t = i \<and> t_phase t = Attached g"
  using assms unfolding registry_ok_def by blast+

lemma next_generation_Suc: "next_generation (word_of_nat k) = word_of_nat (Suc k)"
proof -
  have "(65535 :: uint16) + 1 = 0" by simp
  then show ?thesis by (auto simp: next_generation_def add.commute)
qed

text \<open>A step of a live registration that stores into its own slot only.\<close>

lemma registry_ok_own_step:
  assumes ok: "registry_ok n s" and t: "rg_tags s p = Some t" "phase_live (t_phase t)"
    and ws: "ctx_workers ctx = (ctx_workers (rg_ctx s))[t_slot t := w]"
    and own: "launch_ok (ctx_workers ctx) (rg_count s) p (t\<lparr>t_phase := ph\<rparr>)"
    and gen: "w_generation w = w_generation (ctx_workers (rg_ctx s) ! t_slot t)"
    and proc: "w_proc w = phase_proc p ph"
  shows "registry_ok n (set_phase p ph ctx s)"
proof -
  note okt = registry_ok_launch [OF ok t(1)]
  have seq: "t_seq t = rg_count s (t_slot t)" and slot: "t_slot t < n"
    using okt t(2) registry_ok_length [OF ok] by (auto simp: launch_ok_def Let_def)
  have others: "launch_ok (ctx_workers ctx) (rg_count s) q u"
    if q: "rg_tags s q = Some u" "q \<noteq> p" for q u
  proof (cases "t_slot u = t_slot t")
    case False
    then show ?thesis using registry_ok_launch [OF ok q(1)] by (simp add: launch_ok_def Let_def ws)
  next
    case True
    then have "t_seq u \<noteq> rg_count s (t_slot t)"
      using registry_ok_inj [OF ok q(1) t(1)] q(2) seq by auto
    with True registry_ok_launch [OF ok q(1)] show ?thesis
      by (auto simp: launch_ok_def Let_def ws phase_live_def)
  qed
  show ?thesis
    unfolding registry_ok_def
  proof (intro conjI allI impI)
    fix q u assume "rg_tags (set_phase p ph ctx s) q = Some u"
    then show "launch_ok (ctx_workers (rg_ctx (set_phase p ph ctx s))) (rg_count (set_phase p ph ctx s)) q u"
      using own others t(1) by (auto simp: set_phase_def split: if_splits)
  next
    fix q r u v assume "rg_tags (set_phase p ph ctx s) q = Some u" "rg_tags (set_phase p ph ctx s) r = Some v"
      "t_slot u = t_slot v" "t_seq u = t_seq v"
    then show "q = r" using registry_ok_inj [OF ok] t(1)
      by (auto simp: set_phase_def split: if_splits)
  next
    fix i assume i: "i < n"
    show "w_generation (ctx_workers (rg_ctx (set_phase p ph ctx s)) ! i) = word_of_nat (rg_count (set_phase p ph ctx s) i)"
      using registry_ok_generation [OF ok i] gen registry_ok_length [OF ok] i
      by (cases "i = t_slot t") (auto simp: set_phase_def ws)
    fix q assume q: "w_proc (ctx_workers (rg_ctx (set_phase p ph ctx s)) ! i) = Some q"
    show "\<exists>u g. rg_tags (set_phase p ph ctx s) q = Some u \<and> t_slot u = i \<and> t_phase u = Attached g"
    proof (cases "i = t_slot t")
      case True
      then show ?thesis using q proc t(1) i registry_ok_length [OF ok]
        by (auto simp: set_phase_def ws phase_proc_def split: phase.splits)
    next
      case False
      then obtain u g where u: "rg_tags s q = Some u" "t_slot u = i" "t_phase u = Attached g"
        using q registry_ok_proc [OF ok i, of q] by (auto simp: set_phase_def ws)
      with False t(1) have "q \<noteq> p" by auto
      with u show ?thesis by (auto simp: set_phase_def)
    qed
  qed (use registry_ok_length [OF ok] in \<open>simp add: set_phase_def ws\<close>)
qed

text \<open>The fields that the invariant reads.\<close>

definition same_slots :: "SpockContext \<Rightarrow> SpockContext \<Rightarrow> bool" where
  "same_slots a b \<longleftrightarrow> length (ctx_workers b) = length (ctx_workers a) \<and>
     (\<forall>i<length (ctx_workers a).
        w_worker_type (ctx_workers b ! i) = w_worker_type (ctx_workers a ! i) \<and>
        w_generation (ctx_workers b ! i) = w_generation (ctx_workers a ! i) \<and>
        w_proc (ctx_workers b ! i) = w_proc (ctx_workers a ! i) \<and>
        w_terminated_at (ctx_workers b ! i) = w_terminated_at (ctx_workers a ! i))"

lemma same_slots_refl [simp]: "same_slots a a"
  by (simp add: same_slots_def)

lemma same_slots_trans: "same_slots a b \<Longrightarrow> same_slots b c \<Longrightarrow> same_slots a c"
  by (simp add: same_slots_def)

lemma same_slots_sync_pending:
  "same_slots ctx (upd_slot i (\<lambda>v. v\<lparr>w_apply := f (w_apply v)\<rparr>) ctx)"
  unfolding same_slots_def
proof (intro conjI allI impI)
  fix j assume "j < length (ctx_workers ctx)"
  let ?v = "ctx_workers (upd_slot i (\<lambda>v. v\<lparr>w_apply := f (w_apply v)\<rparr>) ctx) ! j" and ?w = "ctx_workers ctx ! j"
  have v: "?v = (if j = i then ?w\<lparr>w_apply := f (w_apply ?w)\<rparr> else ?w)"
    using \<open>j < _\<close> by (cases "j = i") simp_all
  show "w_worker_type ?v = w_worker_type ?w" "w_generation ?v = w_generation ?w"
    "w_proc ?v = w_proc ?w" "w_terminated_at ?v = w_terminated_at ?w"
    unfolding v by simp_all
qed simp

lemma signal_one_slots: "signal_one db item ctx = (sg, ctx') \<Longrightarrow> same_slots ctx ctx'"
  by (auto simp: signal_one_def Let_def same_slots_sync_pending split: if_splits option.splits)

lemma signal_all_slots: "signal_all db items ctx = (sg, ctx') \<Longrightarrow> same_slots ctx ctx'"
  by (induction items arbitrary: ctx sg)
    (auto simp: Let_def split: prod.splits dest!: signal_one_slots intro: same_slots_trans)

lemma signal_callback_slots:
  "signal_worker_xact_callback db event items ctx = (items', sg, ctx') \<Longrightarrow> same_slots ctx ctx'"
  by (auto simp: signal_worker_xact_callback_def Let_def split: if_splits XactEvent.splits prod.splits
      dest!: signal_all_slots) (simp add: same_slots_def)

lemma registry_ok_same_slots:
  assumes ok: "registry_ok n s" and same: "same_slots (rg_ctx s) ctx"
  shows "registry_ok n (s\<lparr>rg_ctx := ctx\<rparr>)"
proof -
  have len: "length (ctx_workers ctx) = n"
    using registry_ok_length [OF ok] same by (simp add: same_slots_def)
  have at: "w_worker_type (ctx_workers ctx ! i) = w_worker_type (ctx_workers (rg_ctx s) ! i) \<and>
      w_generation (ctx_workers ctx ! i) = w_generation (ctx_workers (rg_ctx s) ! i) \<and>
      w_proc (ctx_workers ctx ! i) = w_proc (ctx_workers (rg_ctx s) ! i) \<and>
      w_terminated_at (ctx_workers ctx ! i) = w_terminated_at (ctx_workers (rg_ctx s) ! i)" if "i < n" for i
    using same that registry_ok_length [OF ok] by (simp add: same_slots_def)
  have "launch_ok (ctx_workers ctx) (rg_count s) p t" if "rg_tags s p = Some t" for p t
    using registry_ok_launch [OF ok that] at [of "t_slot t"] registry_ok_length [OF ok] len
    by (simp add: launch_ok_def Let_def)
  with len at ok show ?thesis by (simp add: registry_ok_def)
qed

text \<open>The steps, one by one.\<close>

lemma empty_slot_not_live:
  assumes "registry_ok n s" "rg_tags s p = Some t" "slot_empty_for d (ctx_workers (rg_ctx s) ! t_slot t)"
  shows "\<not> phase_live (t_phase t)"
  using registry_ok_launch [OF assms(1,2)] assms(3) by (auto simp: launch_ok_def Let_def slot_empty_for_def)

lemma empty_slot_free:
  assumes ok: "registry_ok n s" and i: "i < n" and e: "slot_empty_for d (ctx_workers (rg_ctx s) ! i)"
  shows "w_proc (ctx_workers (rg_ctx s) ! i) = None"
proof (cases "w_proc (ctx_workers (rg_ctx s) ! i)")
  case (Some p)
  then obtain t g where "rg_tags s p = Some t" "t_slot t = i" "t_phase t = Attached g"
    using registry_ok_proc [OF ok i] by blast
  with empty_slot_not_live [OF ok, of p t d] e show ?thesis by (simp add: phase_live_def)
qed simp

lemma registry_ok_reserve:
  assumes ok: "registry_ok n s" and fresh: "rg_tags s p = None" and wt: "w_worker_type w \<noteq> SPOCK_WORKER_NONE"
    and res: "reserve_slot d w (rg_ctx s) = Some (slot, ctx)"
  shows "registry_ok n (s\<lparr>rg_ctx := ctx, rg_count := (rg_count s)(slot := Suc (rg_count s slot)),
      rg_tags := (rg_tags s)(p \<mapsto> \<lparr>t_slot = slot, t_seq = Suc (rg_count s slot), t_type = w_worker_type w,
        t_phase = Reserved\<rparr>)\<rparr>)" (is "registry_ok n ?s")
proof -
  let ?ws = "ctx_workers (rg_ctx s)"
  obtain v where ws: "ctx_workers ctx = ?ws[slot := v]" and e: "slot < n" "slot_empty_for (w_dboid w) (?ws ! slot)"
    and v: "w_worker_type v = w_worker_type w" "w_generation v = next_generation (w_generation (?ws ! slot))"
      "w_terminated_at v = 0" "w_proc v = None"
    using res registry_ok_length [OF ok]
    by (auto simp: reserve_slot_def find_empty_worker_slot_def first_slot_Some split: option.splits)
  note len = registry_ok_length [OF ok]
  have old: "launch_ok (?ws[slot := v]) ((rg_count s)(slot := Suc (rg_count s slot))) q u"
    if q: "rg_tags s q = Some u" for q u
  proof (cases "t_slot u = slot")
    case True
    then have "\<not> phase_live (t_phase u)" using empty_slot_not_live [OF ok q, of "w_dboid w"] e by simp
    with True registry_ok_launch [OF ok q] show ?thesis
      by (auto simp: launch_ok_def Let_def phase_live_def)
  next
    case False
    with registry_ok_launch [OF ok q] show ?thesis by (simp add: launch_ok_def)
  qed
  have own: "launch_ok (?ws[slot := v]) ((rg_count s)(slot := Suc (rg_count s slot))) p
      \<lparr>t_slot = slot, t_seq = Suc (rg_count s slot), t_type = w_worker_type w, t_phase = Reserved\<rparr>"
    using e v wt len by (simp add: launch_ok_def Let_def phase_proc_def)
  have bound: "t_seq u \<le> rg_count s (t_slot u)" if q: "rg_tags s q = Some u" for q u
    using registry_ok_launch [OF ok q] by (simp add: launch_ok_def)
  show ?thesis
    unfolding registry_ok_def
  proof (intro conjI allI impI)
    fix q u assume "rg_tags ?s q = Some u"
    then show "launch_ok (ctx_workers (rg_ctx ?s)) (rg_count ?s) q u"
      using old own by (auto simp: ws split: if_splits)
  next
    fix q r u x assume "rg_tags ?s q = Some u" "rg_tags ?s r = Some x" "t_slot u = t_slot x" "t_seq u = t_seq x"
    then show "q = r"
      by (cases "q = p"; cases "r = p") (auto dest: bound registry_ok_inj [OF ok])
  next
    fix i assume i: "i < n"
    show "w_generation (ctx_workers (rg_ctx ?s) ! i) = word_of_nat (rg_count ?s i)"
      using registry_ok_generation [OF ok i] v(2) len i next_generation_Suc
      by (cases "i = slot") (simp_all add: ws)
    fix q assume "w_proc (ctx_workers (rg_ctx ?s) ! i) = Some q"
    then show "\<exists>u g. rg_tags ?s q = Some u \<and> t_slot u = i \<and> t_phase u = Attached g"
      using registry_ok_proc [OF ok i, of q] v(4) len i fresh by (cases "i = slot") (auto simp: ws)
  qed (simp add: ws len)
qed

lemma word16_eq:
  assumes "word_of_nat a = (word_of_nat b :: uint16)" "a \<le> b" "b - a < 2 ^ 16"
  shows "a = b"
proof -
  have "b mod 65536 = a mod 65536"
    using assms(1) by (simp add: word_of_nat_eq_iff take_bit_eq_mod)
  then have "65536 dvd b - a"
    using assms(2) by (simp add: mod_eq_dvd_iff_nat)
  with assms(2,3) show ?thesis by (auto dest: dvd_imp_le)
qed

lemma registry_ok_forget:
  assumes ok: "registry_ok n s" and t: "rg_tags s p = Some t" "t_phase t = Exited"
  shows "registry_ok n (set_phase p Noticed (rg_ctx s) s)" (is "registry_ok n ?s")
proof -
  have own: "launch_ok (ctx_workers (rg_ctx s)) (rg_count s) p (t\<lparr>t_phase := Noticed\<rparr>)"
    using registry_ok_launch [OF ok t(1)] by (simp add: launch_ok_def Let_def phase_live_def)
  have fields: "rg_ctx ?s = rg_ctx s" "rg_count ?s = rg_count s"
    and tags: "rg_tags ?s q = (if q = p then Some (t\<lparr>t_phase := Noticed\<rparr>) else rg_tags s q)" for q
    using t(1) by (simp_all add: set_phase_def)
  show ?thesis
    unfolding registry_ok_def fields
  proof (intro conjI allI impI)
    fix q u assume "rg_tags ?s q = Some u"
    then show "launch_ok (ctx_workers (rg_ctx s)) (rg_count s) q u"
      using own registry_ok_launch [OF ok] by (auto simp: tags split: if_splits)
  next
    fix q r u v assume "rg_tags ?s q = Some u" "rg_tags ?s r = Some v" "t_slot u = t_slot v" "t_seq u = t_seq v"
    then show "q = r" using registry_ok_inj [OF ok] t(1) by (auto simp: tags split: if_splits)
  next
    fix i assume i: "i < n"
    show "w_generation (ctx_workers (rg_ctx s) ! i) = word_of_nat (rg_count s i)"
      using registry_ok_generation [OF ok i] .
    fix q assume "w_proc (ctx_workers (rg_ctx s) ! i) = Some q"
    then obtain u g where u: "rg_tags s q = Some u" "t_slot u = i" "t_phase u = Attached g"
      using registry_ok_proc [OF ok i] by blast
    with t have "q \<noteq> p" by auto
    with u show "\<exists>u g. rg_tags ?s q = Some u \<and> t_slot u = i \<and> t_phase u = Attached g" by (auto simp: tags)
  qed (rule registry_ok_length [OF ok])
qed

lemma registry_ok_notice:
  assumes ok: "registry_ok n s" and t: "rg_tags s p = Some t" "t_phase t = Died \<or> t_phase t = Exited"
    and now: "now \<noteq> 0" and near: "rg_count s (t_slot t) - t_seq t < 2 ^ 16"
  shows "registry_ok n (set_phase p Noticed (startup_stopped now (t_slot t) (word_of_nat (t_seq t)) (rg_ctx s)) s)"
proof -
  let ?w = "ctx_workers (rg_ctx s) ! t_slot t"
  note okt = registry_ok_launch [OF ok t(1)]
  have slot: "t_slot t < n" "t_slot t < length (ctx_workers (rg_ctx s))"
    using okt registry_ok_length [OF ok] by (auto simp: launch_ok_def)
  have gen: "w_generation ?w = word_of_nat (rg_count s (t_slot t))"
    using registry_ok_generation [OF ok slot(1)] .
  show ?thesis
  proof (cases "t_phase t = Died")
    case True
    then have "w_worker_type ?w \<noteq> SPOCK_WORKER_NONE" "w_terminated_at ?w = 0" "t_seq t = rg_count s (t_slot t)"
      "w_proc ?w = None"
      using okt by (auto simp: launch_ok_def Let_def phase_live_def phase_proc_def)
    then show ?thesis
      using okt True gen slot
      by (intro registry_ok_own_step [OF ok t(1), where w = "?w\<lparr>w_terminated_at := now\<rparr>"])
        (auto simp: startup_stopped_def mark_terminated_def Let_def launch_ok_def phase_live_def phase_proc_def)
  next
    case False
    have "startup_stopped now (t_slot t) (word_of_nat (t_seq t)) (rg_ctx s) = rg_ctx s"
      using False t(2) okt gen word16_eq [of "t_seq t" "rg_count s (t_slot t)"] near
      by (auto simp: startup_stopped_def Let_def launch_ok_def)
    with registry_ok_forget [OF ok t(1)] t(2) False show ?thesis by simp
  qed
qed

lemma registry_ok_clean:
  assumes ok: "registry_ok n s" and slot: "slot < n"
  shows "registry_ok n (s\<lparr>rg_ctx := clean_slot slot (rg_ctx s)\<rparr>)"
proof (cases "w_terminated_at (ctx_workers (rg_ctx s) ! slot) = 0")
  case True
  then show ?thesis using ok by (simp add: clean_slot_def)
next
  case False
  let ?ctx = "clean_slot slot (rg_ctx s)"
  have ws: "ctx_workers ?ctx = (ctx_workers (rg_ctx s))[slot := (ctx_workers (rg_ctx s) ! slot)
      \<lparr>w_worker_type := SPOCK_WORKER_NONE, w_terminated_at := 0\<rparr>]"
    using False by (simp add: clean_slot_def)
  have l: "launch_ok (ctx_workers ?ctx) (rg_count s) p t" if t: "rg_tags s p = Some t" for p t
    using registry_ok_launch [OF ok t] False
    by (cases "t_slot t = slot") (auto simp: launch_ok_def Let_def ws)
  have "w_generation (ctx_workers ?ctx ! i) = w_generation (ctx_workers (rg_ctx s) ! i) \<and>
      w_proc (ctx_workers ?ctx ! i) = w_proc (ctx_workers (rg_ctx s) ! i)" if "i < n" for i
    using that registry_ok_length [OF ok] by (cases "i = slot") (auto simp: ws)
  with ok l show ?thesis by (simp add: registry_ok_def ws)
qed

lemma registry_ok_attach:
  assumes ok: "registry_ok n s" and t: "rg_tags s p = Some t" "t_phase t = Launched"
    and at: "spock_worker_attach (t_slot t) p (rg_ctx s) = (g, ctx)"
  shows "registry_ok n (set_phase p (Attached g) ctx s)"
proof -
  have "t_slot t < length (ctx_workers (rg_ctx s))"
    using registry_ok_launch [OF ok t(1)] by (simp add: launch_ok_def)
  with at registry_ok_launch [OF ok t(1)] t(2) show ?thesis
    by (intro registry_ok_own_step [OF ok t(1)])
      (auto simp: spock_worker_attach_def launch_ok_def Let_def phase_live_def phase_proc_def)
qed

lemma registry_ok_exit:
  assumes ok: "registry_ok n s" and t: "rg_tags s p = Some t" "t_phase t = Attached g" and now: "now \<noteq> 0"
    and ex: "spock_worker_on_exit code now (Some (t_slot t)) (rg_ctx s) = (sig, ctx)"
  shows "registry_ok n (set_phase p Exited ctx s)"
proof -
  let ?ws = "ctx_workers (rg_ctx s)" and ?i = "t_slot t"
  have i: "?i < length ?ws" and seq: "t_seq t \<le> rg_count s ?i"
    using registry_ok_launch [OF ok t(1)] by (simp_all add: launch_ok_def)
  obtain w where w: "ctx_workers ctx = ?ws[?i := w]" "w_proc w = None" "w_generation w = w_generation (?ws ! ?i)"
    "w_worker_type w = SPOCK_WORKER_NONE \<or> w_terminated_at w \<noteq> 0"
  proof (cases "code = 0")
    case True
    show thesis
      by (rule that [where w = "(?ws ! ?i)\<lparr>w_proc := None, w_worker_type := SPOCK_WORKER_NONE, w_dboid := InvalidOid\<rparr>"])
        (use ex True i in \<open>auto simp: spock_worker_on_exit_def spock_worker_detach_def Let_def\<close>)
  next
    case False
    show thesis
      by (rule that [where w = "(?ws ! ?i)\<lparr>w_proc := None, w_terminated_at := now\<rparr>"])
        (use ex False i now in \<open>auto simp: spock_worker_on_exit_def spock_worker_detach_def mark_terminated_def Let_def
          split: if_splits\<close>)
  qed
  show ?thesis
    by (rule registry_ok_own_step [OF ok t(1) _ w(1)])
      (use t i seq w in \<open>auto simp: launch_ok_def Let_def phase_live_def phase_proc_def\<close>)
qed

lemma registry_ok_mark:
  assumes ok: "registry_ok n s" and t: "rg_tags s p = Some t" "t_phase t = Reserved" and now: "now \<noteq> 0"
  shows "registry_ok n (set_phase p Noticed (mark_terminated now (t_slot t) (rg_ctx s)) s)"
  by (rule registry_ok_own_step [OF ok t(1), where w = "(ctx_workers (rg_ctx s) ! t_slot t)\<lparr>w_terminated_at := now\<rparr>"])
    (use registry_ok_launch [OF ok t(1)] t(2) in
      \<open>auto simp: mark_terminated_def launch_ok_def Let_def phase_live_def phase_proc_def\<close>)

lemma registry_ok_quiet:
  assumes ok: "registry_ok n s" and t: "rg_tags s p = Some t" "t_phase t = Reserved \<or> t_phase t = Launched"
    and ph: "ph = Launched \<or> ph = Died"
  shows "registry_ok n (set_phase p ph (rg_ctx s) s)"
  by (rule registry_ok_own_step [OF ok t(1), where w = "ctx_workers (rg_ctx s) ! t_slot t"])
    (use registry_ok_launch [OF ok t(1)] t(2) ph in
      \<open>auto simp: launch_ok_def Let_def phase_live_def phase_proc_def\<close>)

lemma registry_reach_ok: "registry_reach n s \<Longrightarrow> registry_ok n s"
proof (induction rule: registry_reach.induct)
  case registry_start
  show ?case by (simp add: registry_ok_def spock_shmem_context_def zero_worker_def)
next
  case (registry_reserve s p w d slot ctx)
  then show ?case by (intro registry_ok_reserve)
next
  case (registry_launch s p t)
  then show ?case by (intro registry_ok_quiet) auto
next
  case (registry_launch_failed s p t now)
  then show ?case by (intro registry_ok_mark)
next
  case (registry_attach s p t g ctx)
  then show ?case by (intro registry_ok_attach)
next
  case (registry_die s p t)
  then show ?case by (intro registry_ok_quiet) auto
next
  case (registry_exit s p t g now code sig ctx)
  then show ?case by (intro registry_ok_exit)
next
  case (registry_notice s p t now)
  then show ?case by (intro registry_ok_notice)
next
  case (registry_clean s slot)
  then show ?case by (intro registry_ok_clean)
next
  case (registry_signal s db event items items' sigs ctx)
  then show ?case by (intro registry_ok_same_slots signal_callback_slots)
qed

text \<open>
  C37: A slot belongs to one process.  However registrations, starts, exits, crashes, noticed failures,
  clean-ups and signals interleave, a process that has attached and not exited is the one recorded in
  its slot, with the generation it remembers and the type it was registered with (the assertions of
  attach and detach), it is not marked as terminated, and no registration for any database is given
  that slot.  In particular a worker is never found terminating.
\<close>

theorem attached_slot_is_owned:
  assumes "registry_reach n s" "rg_tags s p = Some t" "t_phase t = Attached g"
  shows "w_proc (ctx_workers (rg_ctx s) ! t_slot t) = Some p \<and>
    w_generation (ctx_workers (rg_ctx s) ! t_slot t) = g \<and>
    w_worker_type (ctx_workers (rg_ctx s) ! t_slot t) = t_type t \<and>
    spock_worker_running (Some (t_slot t)) (rg_ctx s) \<and>
    \<not> spock_worker_terminating (Some (t_slot t)) (rg_ctx s) \<and>
    (\<forall>dboid. find_empty_worker_slot dboid (rg_ctx s) \<noteq> Some (t_slot t))"
proof -
  have "launch_ok (ctx_workers (rg_ctx s)) (rg_count s) p t"
    using registry_ok_launch [OF registry_reach_ok [OF assms(1)] assms(2)] .
  with assms(3) show ?thesis
    by (auto simp: launch_ok_def Let_def phase_live_def phase_proc_def spock_worker_running_def
        spock_worker_terminating_def find_empty_worker_slot_def first_slot_Some slot_empty_for_def)
qed

definition demo_apply :: "Oid \<Rightarrow> Oid \<Rightarrow> SpockWorker" where
  "demo_apply db sub = zero_worker\<lparr>w_worker_type := SPOCK_WORKER_APPLY, w_dboid := db,
     w_apply := zero_apply_worker\<lparr>aw_subid := sub, aw_sync_pending := True\<rparr>\<rparr>"

theorem attached_slot_is_owned_witness:
  "\<exists>s t g. registry_reach 2 s \<and> rg_tags s 77 = Some t \<and> t_phase t = Attached g \<and>
     w_proc (ctx_workers (rg_ctx s) ! t_slot t) = Some 77 \<and> find_empty_worker_slot 5 (rg_ctx s) \<noteq> Some (t_slot t)"
proof -
  let ?a = "\<lparr>rg_ctx = spock_shmem_context 2, rg_tags = Map.empty, rg_count = (\<lambda>_. 0)\<rparr> :: registry"
  obtain slot ctx where r: "reserve_slot 5000 (demo_apply 5 9) (rg_ctx ?a) = Some (slot, ctx)"
    by (simp add: reserve_slot_def find_empty_worker_slot_def spock_shmem_context_def zero_worker_def
        slot_empty_for_def numeral_2_eq_2)
  have "registry_reach 2 ?a" by (rule registry_start)
  from registry_reserve [OF this _ _ r, of 77]
  obtain b t where b: "registry_reach 2 b" "rg_tags b 77 = Some t" "t_phase t = Reserved"
    by (auto simp: demo_apply_def zero_worker_def)
  from registry_launch [OF b] obtain c u where c: "registry_reach 2 c" "rg_tags c 77 = Some u" "t_phase u = Launched"
    using b by (auto simp: set_phase_def)
  obtain g ctx' where at: "spock_worker_attach (t_slot u) 77 (rg_ctx c) = (g, ctx')" by fastforce
  from registry_attach [OF c at] obtain d v where
    d: "registry_reach 2 d" "rg_tags d 77 = Some v" "t_phase v = Attached g"
    using c by (auto simp: set_phase_def)
  from attached_slot_is_owned [OF d] d show ?thesis by blast
qed



end
