(* ===== verification/Spock_Apply_Heap.thy ===== *)
theory Spock_Apply_Heap
  imports Spock_Proto_Native Spock_Conflict Spock_Worker
begin

text \<open>
  Applying a row change to the local table (\<open>src/spock_apply_heap.c\<close>, and the delta functions of
  \<open>src/spock_functions.c\<close>): building the row from the received tuple, finding the local row,
  resolving the conflict, and the delta columns.  The executor and the table lookups are
  PostgreSQL's and come in through the record \<open>heap_env\<close>; what a handler does to the table is the
  value \<open>heap_action\<close> it returns.
\<close>

section \<open>Data\<close>

text \<open>
  The arrays \<open>tts_values\<close> and \<open>tts_isnull\<close> of a slot: \<^const>\<open>None\<close> is a null.  A value slot of a received
  tuple that was never filled stays visible as such.
\<close>

type_synonym 'd slot = "'d tup_value option list"

text \<open>A row of the local table: where it is, which transaction wrote it, its columns.\<close>

record 'd local_row =
  lr_tid :: nat
  lr_xmin :: TransactionId
  lr_slot :: "'d slot"

text \<open>
  What a handler does to the table.  An update that only applies deltas to a winning local row runs
  in a subtransaction whose commit data are set to the time and origin of that row.
\<close>

datatype 'd heap_action =
    Heap_nothing
  | Heap_insert "'d slot"
  | Heap_update nat "'d slot" "(TimestampTz \<times> RepOriginId) option"
  | Heap_delete nat

datatype heap_error =
    Conflict conflict_error
  | Row_to_update_not_found
  | Check_all_uc_indexes_disabled
  | Executor_error
  | Delta_function_error

record ('d, 'j) heap_env =
  ah_find_index :: "Oid \<Rightarrow> 'd slot \<Rightarrow> 'd local_row option"
  ah_find_seq :: "'d slot \<Rightarrow> 'd local_row option"
  ah_unique_indexes :: "Oid list"
  ah_index_usable :: "Oid \<Rightarrow> bool"
  ah_check_all_uc_indexes :: bool
  ah_column_default :: "nat \<Rightarrow> 'd option option"
  ah_delta_call :: "Oid \<Rightarrow> 'd tup_value \<Rightarrow> 'd tup_value \<Rightarrow> 'd tup_value option \<Rightarrow> 'd option"
  ah_executor_fails :: "'d heap_action \<Rightarrow> bool"
  ah_zero :: "Oid \<Rightarrow> 'd"
  ah_stack :: "'d SpockTupleData"
  ah_report :: "('d slot, 'j) report_env"

text \<open>
  Besides the lookups: whether the executor refuses an action, the zero of a numeric type, and
  \<open>ah_stack\<close>, what an uninitialised \<open>SpockTupleData\<close> on the stack holds.
\<close>

text \<open>
  The result of a handler: the counters it bumped, what it reported, the tuple it left in the
  exception log, and what it did.
\<close>

record ('d, 'j) heap_result =
  hr_stats :: "SpockStatsType list"
  hr_reports :: "'j report_effect list"
  hr_exception_local :: "'d slot option"
  hr_action :: "'d heap_action"

section \<open>Slots\<close>

definition physatt_in_attmap :: "SpockRelation \<Rightarrow> nat \<Rightarrow> bool" where
  "physatt_in_attmap rel attid \<longleftrightarrow> attid \<in> set (take (sr_natts rel) (sr_attmap rel))"

definition rel_desc :: "SpockRelation \<Rightarrow> pg_attribute list" where
  "rel_desc rel = (case sr_rel rel of None \<Rightarrow> [] | Some r \<Rightarrow> rd_att r)"

text \<open>The column a tuple gives for local position \<open>i\<close>.\<close>

definition tup_column :: "'d SpockTupleData \<Rightarrow> nat \<Rightarrow> 'd tup_value option" where
  "tup_column tup i = (if \<not> tup_nulls tup i then Some (tup_values tup i) else None)"

definition att_slot :: "SpockRelation \<Rightarrow> nat \<Rightarrow> nat" where
  "att_slot rel i = nat (attnum (rel_desc rel ! i) - 1)"

definition slot_store_data :: "SpockRelation \<Rightarrow> 'd SpockTupleData \<Rightarrow> 'd slot" where
  "slot_store_data rel tup =
     fold (\<lambda>r slot. slot[att_slot rel r := tup_column tup r])
       (take (sr_natts rel) (sr_attmap rel)) (replicate (length (rel_desc rel)) None)"

definition slot_store_htup :: "SpockRelation \<Rightarrow> 'd slot \<Rightarrow> 'd slot" where
  "slot_store_htup rel htup =
     fold (\<lambda>r slot. slot[att_slot rel r := htup ! r])
       (take (sr_natts rel) (sr_attmap rel)) (replicate (length (rel_desc rel)) None)"

definition slot_modify_data :: "SpockRelation \<Rightarrow> 'd slot \<Rightarrow> 'd SpockTupleData \<Rightarrow> 'd slot" where
  "slot_modify_data rel srcslot tup =
     fold (\<lambda>r slot. if \<not> tup_changed tup r then slot else slot[att_slot rel r := tup_column tup r])
       (take (sr_natts rel) (sr_attmap rel)) srcslot"

definition slot_fill_defaults :: "('d, 'j) heap_env \<Rightarrow> SpockRelation \<Rightarrow> 'd slot \<Rightarrow> 'd slot" where
  "slot_fill_defaults he rel slot =
     (let desc = rel_desc rel in
      if length desc = sr_natts rel then slot
      else fold (\<lambda>attnum slot.
             if attisdropped (desc ! attnum) \<or> attgenerated (desc ! attnum) then slot
             else if physatt_in_attmap rel attnum then slot
             else (case ah_column_default he attnum of
                     None \<Rightarrow> slot
                   | Some v \<Rightarrow> slot[attnum := map_option Datum v]))
           [0..<length desc] slot)"

section \<open>Finding the local row\<close>

definition FindReplTupleInLocalRel ::
  "('d, 'j) heap_env \<Rightarrow> Oid \<Rightarrow> 'd slot \<Rightarrow> bool \<Rightarrow> 'd local_row option" where
  "FindReplTupleInLocalRel he localidxoid remoteslot is_insert_stmt =
     (if localidxoid \<noteq> InvalidOid then ah_find_index he localidxoid remoteslot
      else if \<not> is_insert_stmt then ah_find_seq he remoteslot
      else None)"

fun find_by_uc :: "('d, 'j) heap_env \<Rightarrow> Oid list \<Rightarrow> 'd slot \<Rightarrow> ('d local_row \<times> Oid) option" where
  "find_by_uc he [] remoteslot = None"
| "find_by_uc he (idx # idxs) remoteslot =
     (if \<not> ah_index_usable he idx then find_by_uc he idxs remoteslot
      else (case ah_find_index he idx remoteslot of
              Some row \<Rightarrow> Some (row, idx)
            | None \<Rightarrow> find_by_uc he idxs remoteslot))"

definition FindReplTupleByUCIndex ::
  "('d, 'j) heap_env \<Rightarrow> 'd slot \<Rightarrow> heap_error + ('d local_row \<times> Oid) option" where
  "FindReplTupleByUCIndex he remoteslot =
     (if \<not> ah_check_all_uc_indexes he then Inl Check_all_uc_indexes_disabled
      else Inr (find_by_uc he (ah_unique_indexes he) remoteslot))"

text \<open>
  The retry loop of updates and deletes.  \<open>hes n\<close> is the environment at the \<open>n\<close>-th look, since other
  transactions may commit while it waits.  \<open>found\<close> starts as whatever the uninitialised variable holds;
  the result is the last look and the number of failed ones.
\<close>

function find_retry ::
  "(nat \<Rightarrow> 'd local_row option) \<Rightarrow> nat \<Rightarrow> nat \<Rightarrow> 'd local_row option \<Rightarrow> 'd local_row option \<times> nat" where
  "find_retry look retry_count retry found =
     (if retry < retry_count then
        (case look retry of
           Some row \<Rightarrow> (Some row, retry)
         | None \<Rightarrow> find_retry look retry_count (Suc retry) None)
      else (found, retry))"
  by pat_completeness auto
termination by (relation "measure (\<lambda>(look, n, i, found). n - i)") auto

declare find_retry.simps [simp del]

section \<open>Delta columns\<close>

text \<open>\<open>mi\<close> and \<open>pl\<close> are the subtraction and addition of the column's type; they raise on overflow.\<close>

definition delta_apply ::
  "('n \<Rightarrow> 'n \<Rightarrow> 'n option) \<Rightarrow> ('n \<Rightarrow> 'n \<Rightarrow> 'n option) \<Rightarrow> 'n \<Rightarrow> 'n \<Rightarrow> 'n \<Rightarrow> 'n option" where
  "delta_apply mi pl old_value new_value local_val =
     Option.bind (mi new_value old_value) (\<lambda>delta. pl local_val delta)"

fun build_delta_columns ::
  "('d, 'j) heap_env \<Rightarrow> SpockRelation \<Rightarrow> 'd SpockTupleData \<Rightarrow> 'd SpockTupleData \<Rightarrow> 'd slot \<Rightarrow> nat list
     \<Rightarrow> 'd SpockTupleData \<Rightarrow> heap_error + 'd SpockTupleData" where
  "build_delta_columns he rel oldtup newtup localslot [] delta = Inr delta"
| "build_delta_columns he rel oldtup newtup localslot (r # rs) delta =
     (if sr_delta_apply_functions rel ! r = InvalidOid then
        build_delta_columns he rel oldtup newtup localslot rs (set_col r Deadbeef True False delta)
      else if tup_nulls oldtup r then
        build_delta_columns he rel oldtup newtup localslot rs
          (set_col r (tup_values newtup r) False True delta)
      else (case ah_delta_call he (sr_delta_apply_functions rel ! r) (tup_values oldtup r)
                   (tup_values newtup r) (localslot ! r) of
              None \<Rightarrow> Inl Delta_function_error
            | Some d \<Rightarrow> build_delta_columns he rel oldtup newtup localslot rs
                          (set_col r (Datum d) False True delta)))"

text \<open>
  The delta tuple is a local variable: its values and nulls are reset for every column, its
  \<open>changed\<close> flags are not.
\<close>

definition build_delta_tuple ::
  "('d, 'j) heap_env \<Rightarrow> SpockRelation \<Rightarrow> 'd SpockTupleData \<Rightarrow> 'd SpockTupleData \<Rightarrow> 'd slot
     \<Rightarrow> heap_error + 'd SpockTupleData" where
  "build_delta_tuple he rel oldtup newtup localslot =
     build_delta_columns he rel oldtup newtup localslot (take (sr_natts rel) (sr_attmap rel))
       \<lparr>tup_values = \<lambda>_. Unset, tup_nulls = \<lambda>_. True, tup_changed = tup_changed (ah_stack he)\<rparr>"

definition heap_modify_tuple :: "'d slot \<Rightarrow> 'd SpockTupleData \<Rightarrow> 'd slot" where
  "heap_modify_tuple tuple repl =
     map (\<lambda>(i, c). if tup_changed repl i then tup_column repl i else c) (enumerate 0 tuple)"

section \<open>Resolving and applying\<close>

definition zero_datum_for_type :: "('d, 'j) heap_env \<Rightarrow> Oid \<Rightarrow> 'd tup_value" where
  "zero_datum_for_type he typid =
     (if typid \<in> {21, 23, 20, 700, 701, 1700, 790} then Datum (ah_zero he typid) else Unset)"

definition init_tuple_with_defaults :: "('d, 'j) heap_env \<Rightarrow> pg_attribute list \<Rightarrow> 'd SpockTupleData" where
  "init_tuple_with_defaults he desc =
     fold (\<lambda>i tup. if attisdropped (desc ! i) then tup
                   else set_col i (zero_datum_for_type he (atttypid (desc ! i))) False False tup)
       [0..<length desc] (ah_stack he)"

definition lift_conflict :: "conflict_error + 'a \<Rightarrow> heap_error + 'a" where
  "lift_conflict = map_sum Conflict id"

text \<open>
  \<open>spock_handle_conflict_and_apply\<close>.  \<open>remoteslot\<close> is the row that was searched for: the new row of an
  insert, the old key of an update.
\<close>

definition spock_handle_conflict_and_apply ::
  "('d, 'j) heap_env \<Rightarrow> conflict_env \<Rightarrow> SpockRelation \<Rightarrow> 'd local_row \<Rightarrow> 'd slot
     \<Rightarrow> 'd SpockTupleData \<Rightarrow> 'd SpockTupleData \<Rightarrow> Oid \<Rightarrow> bool \<Rightarrow> heap_error + ('d, 'j) heap_result" where
  "spock_handle_conflict_and_apply he ce rel row remoteslot oldtup newtup idxused is_insert =
     res_bind (lift_conflict (get_tuple_origin ce (lr_xmin row) True))
       (\<lambda>(local_origin_found, local_origin, local_ts).
     res_bind (lift_conflict (try_resolve_conflict ce (lr_slot row) remoteslot local_origin local_ts))
       (\<lambda>(apply, applytuple, resolution).
     let newslot = (if apply then slot_modify_data rel (lr_slot row) newtup else remoteslot) in
     res_bind (lift_conflict (spock_report_conflict ce (ah_report he)
         \<lparr>cf_type = (if is_insert then SPOCK_CT_INSERT_EXISTS else SPOCK_CT_UPDATE_EXISTS),
          cf_localtuple = Some (lr_slot row), cf_remotetuple = Some remoteslot,
          cf_resolution = resolution, cf_local_xid = lr_xmin row,
          cf_found_local_origin = local_origin_found, cf_local_origin = local_origin,
          cf_local_ts = local_ts, cf_idx_oid = idxused\<rparr>)) (\<lambda>reports.
     res_bind
       (if sr_has_delta_columns rel then
          res_bind (build_delta_tuple he rel oldtup newtup (lr_slot row)) (\<lambda>deltatup.
            Inr (slot_store_htup rel
                   (heap_modify_tuple (if apply then newslot else lr_slot row) deltatup), True))
        else Inr (newslot, apply)) (\<lambda>(newslot', apply').
     let is_delta_apply = (sr_has_delta_columns rel \<and> \<not> apply);
         stats = (if is_delta_apply then [SPOCK_STATS_DCA_COUNT] else []);
         action = (if apply'
                   then Heap_update (lr_tid row) newslot'
                          (if is_delta_apply then Some (local_ts, local_origin) else None)
                   else Heap_nothing)
     in if apply' \<and> ah_executor_fails he action then Inl Executor_error
        else Inr \<lparr>hr_stats = stats, hr_reports = reports,
                  hr_exception_local = Some (lr_slot row), hr_action = action\<rparr>))))"

definition spock_apply_heap_insert ::
  "('d, 'j) heap_env \<Rightarrow> conflict_env \<Rightarrow> SpockRelation \<Rightarrow> 'd SpockTupleData
     \<Rightarrow> heap_error + ('d, 'j) heap_result" where
  "spock_apply_heap_insert he ce rel newtup =
     (let remoteslot = slot_fill_defaults he rel (slot_store_data rel newtup) in
      res_bind
        (case FindReplTupleInLocalRel he (sr_idxoid rel) remoteslot True of
           Some row \<Rightarrow> Inr (Some (row, sr_idxoid rel))
         | None \<Rightarrow> if ah_check_all_uc_indexes he then FindReplTupleByUCIndex he remoteslot
                   else Inr None) (\<lambda>found.
      case found of
        Some (row, idxused) \<Rightarrow>
          res_bind (spock_handle_conflict_and_apply he ce rel row remoteslot
                      (init_tuple_with_defaults he (rel_desc rel)) newtup idxused True) (\<lambda>r.
            Inr (r\<lparr>hr_stats := SPOCK_STATS_INSERT_COUNT # hr_stats r\<rparr>))
      | None \<Rightarrow>
          if ah_executor_fails he (Heap_insert remoteslot) then Inl Executor_error
          else Inr \<lparr>hr_stats = [SPOCK_STATS_INSERT_COUNT], hr_reports = [], hr_exception_local = None,
                    hr_action = Heap_insert remoteslot\<rparr>))"

text \<open>
  \<open>looks n\<close> is the table as the \<open>n\<close>-th look finds it; \<open>junk\<close> is what the uninitialised variables
  \<open>found\<close> and \<open>localslot\<close> hold.
\<close>

definition spock_apply_heap_update ::
  "('d, 'j) heap_env \<Rightarrow> conflict_env \<Rightarrow> nat \<Rightarrow> (nat \<Rightarrow> ('d, 'j) heap_env) \<Rightarrow> 'd local_row option
     \<Rightarrow> SpockRelation \<Rightarrow> 'd SpockTupleData \<Rightarrow> 'd SpockTupleData \<Rightarrow> heap_error + ('d, 'j) heap_result" where
  "spock_apply_heap_update he ce retry_count looks junk rel oldtup newtup =
     (let remoteslot = slot_store_data rel oldtup;
          (found, retry) = find_retry
            (\<lambda>n. FindReplTupleInLocalRel (looks n) (sr_idxoid rel) remoteslot False) retry_count 0 junk
      in case found of
           Some row \<Rightarrow>
             res_bind (spock_handle_conflict_and_apply he ce rel row remoteslot oldtup newtup
                         (sr_idxoid rel) False) (\<lambda>r.
               Inr (r\<lparr>hr_stats := SPOCK_STATS_UPDATE_COUNT # hr_stats r\<rparr>))
         | None \<Rightarrow> Inl Row_to_update_not_found)"

definition spock_apply_heap_delete ::
  "('d, 'j) heap_env \<Rightarrow> conflict_env \<Rightarrow> nat \<Rightarrow> (nat \<Rightarrow> ('d, 'j) heap_env) \<Rightarrow> 'd local_row option
     \<Rightarrow> SpockRelation \<Rightarrow> 'd SpockTupleData \<Rightarrow> heap_error + ('d, 'j) heap_result" where
  "spock_apply_heap_delete he ce retry_count looks junk rel oldtup =
     (let remoteslot = slot_store_data rel oldtup;
          (found, retry) = find_retry
            (\<lambda>n. FindReplTupleInLocalRel (looks n) (sr_idxoid rel) remoteslot False) retry_count 0 junk;
          conflict = (\<lambda>t res localtuple remotetuple xmin ofound lorigin lts.
            \<lparr>cf_type = t, cf_localtuple = localtuple, cf_remotetuple = remotetuple,
             cf_resolution = res, cf_local_xid = xmin, cf_found_local_origin = ofound,
             cf_local_origin = lorigin, cf_local_ts = lts, cf_idx_oid = sr_idxoid rel\<rparr>)
      in case found of
           Some row \<Rightarrow>
             res_bind (lift_conflict (get_tuple_origin ce (lr_xmin row) True))
               (\<lambda>(local_origin_found, local_origin, local_ts).
             res_bind (lift_conflict (try_resolve_conflict ce (Some (lr_slot row)) None local_origin local_ts))
               (\<lambda>(apply, applytuple, resolution).
             if \<not> apply then
               res_bind (lift_conflict (spock_report_conflict ce (ah_report he)
                   (conflict SPOCK_CT_DELETE_EXISTS SpockResolution_Skip (Some (lr_slot row)) None
                      (lr_xmin row) local_origin_found local_origin local_ts))) (\<lambda>reports.
                 Inr \<lparr>hr_stats = [SPOCK_STATS_UPDATE_COUNT], hr_reports = reports,
                      hr_exception_local = Some (lr_slot row), hr_action = Heap_nothing\<rparr>)
             else
               res_bind
                 (if local_origin_found \<and> local_origin \<noteq> env_session_origin ce
                  then lift_conflict (spock_report_conflict ce (ah_report he)
                    (conflict SPOCK_CT_DELETE_ORIGIN_DIFFERS SpockResolution_ApplyRemote
                       (Some (lr_slot row)) None (lr_xmin row) local_origin_found local_origin local_ts))
                  else Inr []) (\<lambda>reports.
                 if ah_executor_fails he (Heap_delete (lr_tid row)) then Inl Executor_error
                 else Inr \<lparr>hr_stats = [SPOCK_STATS_UPDATE_COUNT], hr_reports = reports,
                           hr_exception_local = Some (lr_slot row),
                           hr_action = Heap_delete (lr_tid row)\<rparr>)))
         | None \<Rightarrow>
             res_bind (lift_conflict (spock_report_conflict ce (ah_report he)
                 (conflict SPOCK_CT_DELETE_MISSING SpockResolution_Skip None
                    (Some (map (tup_column oldtup) [0..<length (rel_desc rel)]))
                    InvalidTransactionId False InvalidRepOriginId 0))) (\<lambda>reports.
               Inr \<lparr>hr_stats = [SPOCK_STATS_UPDATE_COUNT], hr_reports = reports,
                    hr_exception_local = None, hr_action = Heap_nothing\<rparr>))"

section \<open>What the row becomes\<close>

text \<open>
  An open relation as the cache and the catalog give it: one local column per remote one, inside the
  table, and the table's columns numbered from one.
\<close>

definition rel_ok :: "SpockRelation \<Rightarrow> bool" where
  "rel_ok rel \<longleftrightarrow> sr_natts rel = length (sr_attmap rel) \<and> distinct (sr_attmap rel) \<and>
     list_all (\<lambda>r. r < length (rel_desc rel)) (sr_attmap rel) \<and>
     list_all (\<lambda>(i, att). attnum att = int i + 1) (enumerate 0 (rel_desc rel))"

lemma rel_ok_att_slot:
  assumes "rel_ok rel" "r \<in> set (sr_attmap rel)"
  shows "att_slot rel r = r"
proof -
  have "r < length (rel_desc rel)"
    using assms by (auto simp: rel_ok_def list_all_iff)
  then have "(r, rel_desc rel ! r) \<in> set (enumerate 0 (rel_desc rel))"
    by (auto simp: in_set_enumerate_eq)
  then show ?thesis
    using assms(1) by (auto simp: rel_ok_def list_all_iff att_slot_def)
qed

lemma fold_update_length:
  "length (fold (\<lambda>r s. if P r then s[g r := f r] else s) rs s) = length s"
  by (induction rs arbitrary: s) auto

lemma fold_update_nth:
  assumes "\<And>r. r \<in> set rs \<Longrightarrow> g r = r" "i < length s"
  shows "fold (\<lambda>r s. if P r then s[g r := f r] else s) rs s ! i =
    (if i \<in> set rs \<and> P i then f i else s ! i)"
  using assms
proof (induction rs arbitrary: s)
  case (Cons a rs)
  have "(if P a then s[g a := f a] else s) ! i = (if i = a \<and> P i then f i else s ! i)"
    using Cons.prems by (cases "i = a") auto
  then show ?case
    using Cons.IH [of "if P a then s[g a := f a] else s"] Cons.prems by auto
qed simp

lemma slot_store_data_nth:
  assumes "rel_ok rel" "i < length (rel_desc rel)"
  shows "slot_store_data rel tup ! i = (if i \<in> set (sr_attmap rel) then tup_column tup i else None)"
    "length (slot_store_data rel tup) = length (rel_desc rel)"
  using assms rel_ok_att_slot [OF assms(1)]
    fold_update_nth [of "sr_attmap rel" "att_slot rel" i "replicate (length (rel_desc rel)) None" "\<lambda>_. True"
      "tup_column tup"]
    fold_update_length [of "\<lambda>_. True" "att_slot rel" "tup_column tup"]
  by (simp_all add: slot_store_data_def rel_ok_def)

lemma slot_store_htup_nth:
  assumes "rel_ok rel" "i < length (rel_desc rel)"
  shows "slot_store_htup rel tup ! i = (if i \<in> set (sr_attmap rel) then tup ! i else None)"
    "length (slot_store_htup rel tup) = length (rel_desc rel)"
  using assms rel_ok_att_slot [OF assms(1)]
    fold_update_nth [of "sr_attmap rel" "att_slot rel" i "replicate (length (rel_desc rel)) None" "\<lambda>_. True"
      "\<lambda>r. tup ! r"]
    fold_update_length [of "\<lambda>_. True" "att_slot rel" "\<lambda>r. tup ! r"]
  by (simp_all add: slot_store_htup_def rel_ok_def)

lemma slot_modify_data_eq:
  "rel_ok rel \<Longrightarrow> slot_modify_data rel src tup =
     fold (\<lambda>r s. if tup_changed tup r then s[att_slot rel r := tup_column tup r] else s) (sr_attmap rel) src"
  by (auto simp: slot_modify_data_def rel_ok_def intro!: fold_cong)

lemma slot_modify_data_length: "rel_ok rel \<Longrightarrow> length (slot_modify_data rel src tup) = length src"
  by (simp add: slot_modify_data_eq fold_update_length)

lemma slot_modify_data_nth:
  assumes "rel_ok rel" "i < length src"
  shows "slot_modify_data rel src tup ! i =
      (if i \<in> set (sr_attmap rel) \<and> tup_changed tup i then tup_column tup i else src ! i)"
  unfolding slot_modify_data_eq [OF assms(1)]
  using assms rel_ok_att_slot [OF assms(1)] by (intro fold_update_nth) auto

lemma slot_fill_defaults_nth:
  assumes "i < length slot" "length slot = length (rel_desc rel)"
  shows "slot_fill_defaults he rel slot ! i =
    (if length (rel_desc rel) \<noteq> sr_natts rel \<and> \<not> attisdropped (rel_desc rel ! i) \<and>
        \<not> attgenerated (rel_desc rel ! i) \<and> \<not> physatt_in_attmap rel i \<and> ah_column_default he i \<noteq> None
     then map_option Datum (the (ah_column_default he i)) else slot ! i)"
proof -
  let ?P = "\<lambda>i. \<not> attisdropped (rel_desc rel ! i) \<and> \<not> attgenerated (rel_desc rel ! i) \<and>
    \<not> physatt_in_attmap rel i \<and> ah_column_default he i \<noteq> None"
  have "slot_fill_defaults he rel slot = (if length (rel_desc rel) = sr_natts rel then slot
      else fold (\<lambda>i s. if ?P i then s[i := map_option Datum (the (ah_column_default he i))] else s)
        [0..<length (rel_desc rel)] slot)"
    by (auto simp: slot_fill_defaults_def Let_def intro!: fold_cong split: option.splits)
  then show ?thesis
    using assms fold_update_nth [of "[0..<length (rel_desc rel)]" "\<lambda>r. r" i slot ?P]
    by (simp add: atLeast0LessThan)
qed

lemma heap_modify_tuple_nth:
  "i < length tup \<Longrightarrow>
   heap_modify_tuple tup repl ! i = (if tup_changed repl i then tup_column repl i else tup ! i)"
  by (simp add: heap_modify_tuple_def nth_enumerate_eq)

lemma heap_modify_tuple_length: "length (heap_modify_tuple tup repl) = length tup"
  by (simp add: heap_modify_tuple_def)

text \<open>The delta tuple column by column.\<close>

lemma set_col_column [simp]:
  "tup_column (set_col a v n c tup) r = (if r = a then (if n then None else Some v) else tup_column tup r)"
  "tup_changed (set_col a v n c tup) r = (if r = a then c else tup_changed tup r)"
  by (auto simp: tup_column_def set_col_def)

lemma build_delta_columns_other:
  assumes "build_delta_columns he rel oldtup newtup localslot rs delta = Inr d" "r \<notin> set rs"
  shows "tup_column d r = tup_column delta r \<and> tup_changed d r = tup_changed delta r"
  using assms
proof (induction rs arbitrary: delta)
  case (Cons a rs)
  from Cons.prems obtain delta' where
    "build_delta_columns he rel oldtup newtup localslot rs delta' = Inr d"
    "tup_column delta' r = tup_column delta r" "tup_changed delta' r = tup_changed delta r"
    by (auto split: if_splits option.splits)
  with Cons.IH [of delta'] Cons.prems(2) show ?case by simp
qed simp

lemma build_delta_columns_nth:
  assumes "build_delta_columns he rel oldtup newtup localslot rs delta = Inr d" "distinct rs" "r \<in> set rs"
  shows "if sr_delta_apply_functions rel ! r = InvalidOid then \<not> tup_changed d r
    else tup_changed d r \<and>
      (if tup_nulls oldtup r then tup_column d r = Some (tup_values newtup r)
       else \<exists>v. ah_delta_call he (sr_delta_apply_functions rel ! r) (tup_values oldtup r)
              (tup_values newtup r) (localslot ! r) = Some v \<and> tup_column d r = Some (Datum v))"
  using assms
proof (induction rs arbitrary: delta)
  case (Cons a rs)
  show ?case
  proof (cases "r = a")
    case True
    with Cons.prems show ?thesis
      by (auto split: if_splits option.splits dest: build_delta_columns_other [where r = r])
  next
    case False
    with Cons.prems obtain delta' where
      "build_delta_columns he rel oldtup newtup localslot rs delta' = Inr d"
      by (auto split: if_splits option.splits)
    with Cons.IH [of delta'] Cons.prems False show ?thesis by simp
  qed
qed simp

text \<open>What a successful \<open>spock_handle_conflict_and_apply\<close> did.\<close>

lemma handle_result:
  assumes "spock_handle_conflict_and_apply he ce rel row remoteslot oldtup newtup idxused is_insert = Inr res"
  obtains ofound lorigin lts app resolution where
    "get_tuple_origin ce (lr_xmin row) True = Inr (ofound, lorigin, lts)"
    "try_resolve_conflict ce (lr_slot row) remoteslot lorigin lts =
       Inr (app, if app then remoteslot else lr_slot row, resolution)"
    "\<not> sr_has_delta_columns rel \<Longrightarrow> hr_action res =
       (if app then Heap_update (lr_tid row) (slot_modify_data rel (lr_slot row) newtup) None else Heap_nothing)"
    "sr_has_delta_columns rel \<Longrightarrow> \<exists>d. build_delta_tuple he rel oldtup newtup (lr_slot row) = Inr d \<and>
       hr_action res = Heap_update (lr_tid row) (slot_store_htup rel (heap_modify_tuple
         (if app then slot_modify_data rel (lr_slot row) newtup else lr_slot row) d))
         (if app then None else Some (lts, lorigin))"
  using assms
  by (auto simp: spock_handle_conflict_and_apply_def lift_conflict_def Let_def try_resolve_conflict_def
      split: if_splits)

section \<open>Properties\<close>

text \<open>A table of three columns, of which the provider has the first two, and tuples for it.\<close>

definition demo_rel3 :: SpockRelation where
  "demo_rel3 = demo_junk\<lparr>sr_natts := 2, sr_attmap := [1, 0], sr_idxoid := 16401, sr_reloid := 16400,
     sr_rel := Some (demo_table\<lparr>rd_att := [demo_att ''b'' 1, demo_att ''a'' 2, demo_att ''c'' 3]\<rparr>),
     sr_has_delta_columns := False, sr_delta_apply_functions := [0, 0, 0]\<rparr>"

definition demo_tup :: "int option list \<Rightarrow> bool list \<Rightarrow> int SpockTupleData" where
  "demo_tup vs flags = \<lparr>tup_values = \<lambda>i. case vs ! i of None \<Rightarrow> Deadbeef | Some d \<Rightarrow> Datum d,
     tup_nulls = \<lambda>i. vs ! i = None, tup_changed = \<lambda>i. flags ! i\<rparr>"

definition demo_row :: "int local_row" where
  "demo_row = \<lparr>lr_tid = 7, lr_xmin = 800, lr_slot = [Some (Datum 100), Some (Datum 1), Some (Datum 55)]\<rparr>"

definition demo_heap :: "int local_row option \<Rightarrow> (int, string) heap_env" where
  "demo_heap row = \<lparr>ah_find_index = (\<lambda>_ _. row), ah_find_seq = (\<lambda>_. row), ah_unique_indexes = [],
     ah_index_usable = (\<lambda>_. True), ah_check_all_uc_indexes = False, ah_column_default = (\<lambda>_. Some (Some 9)),
     ah_delta_call = (\<lambda>_ ov nv lv. case (ov, nv, lv) of (Datum x, Datum y, Some (Datum l)) \<Rightarrow>
        delta_apply (\<lambda>a b. Some (a - b)) (\<lambda>a b. Some (a + b)) x y l | _ \<Rightarrow> None),
     ah_executor_fails = (\<lambda>_. False), ah_zero = (\<lambda>_. 0),
     ah_stack = \<lparr>tup_values = \<lambda>_. Unset, tup_nulls = \<lambda>_. True, tup_changed = \<lambda>_. False\<rparr>,
     ah_report = \<lparr>re_pg18 = False, re_log_origin_change = SPOCK_ORIGIN_NONE, re_save_resolutions = False,
       re_created_at = None, re_level_interesting = False, re_nextval = 1, re_now = 5,
       re_qualrelname = [], re_rel_name = (\<lambda>_. []), re_row_to_json = (\<lambda>_. None)\<rparr>\<rparr>"

definition demo_session :: "TimestampTz \<Rightarrow> conflict_env" where
  "demo_session ts = (demo_env None (\<lambda>_. None))\<lparr>env_session_origin := 4, env_session_ts := ts,
     env_commit_ts := (\<lambda>_. Inr (Some (10, 0)))\<rparr>"

lemmas demo_heap_defs = demo_rel3_def demo_tup_def demo_row_def demo_session_def
  demo_env_def demo_table_def demo_att_def demo_junk_def

lemma demo_heap_fields:
  "ah_find_index (demo_heap row) i sl = row" "\<not> ah_executor_fails (demo_heap row) a"
  "\<not> ah_check_all_uc_indexes (demo_heap row)" "ah_column_default (demo_heap row) n = Some (Some 9)"
  "ah_delta_call (demo_heap row) f (Datum x) (Datum y) (Some (Datum l)) = Some (l + (y - x))"
  by (simp_all add: demo_heap_def delta_apply_def)

lemma demo_rel3_ok: "rel_ok demo_rel3" "rel_desc demo_rel3 = [demo_att ''b'' 1, demo_att ''a'' 2, demo_att ''c'' 3]"
  by (simp_all add: rel_ok_def rel_desc_def demo_heap_defs enumerate_eq_zip numeral_eq_Suc)

text \<open>
  A replicated INSERT that meets no local row inserts one row in which each mapped column has the
  received value, and each column that only the local table has gets its default, or null without one;
  nothing is reported and no local tuple is left in the exception log.
\<close>

theorem insert_builds_row:
  assumes "rel_ok rel"
    and "FindReplTupleInLocalRel he (sr_idxoid rel)
      (slot_fill_defaults he rel (slot_store_data rel newtup)) True = None"
    and "\<not> ah_check_all_uc_indexes he" "\<And>a. \<not> ah_executor_fails he a"
  shows "\<exists>s. spock_apply_heap_insert he ce rel newtup =
      Inr \<lparr>hr_stats = [SPOCK_STATS_INSERT_COUNT], hr_reports = [], hr_exception_local = None,
           hr_action = Heap_insert s\<rparr> \<and>
    (\<forall>i < length (rel_desc rel). s ! i =
      (if i \<in> set (sr_attmap rel) then tup_column newtup i
       else if attisdropped (rel_desc rel ! i) \<or> attgenerated (rel_desc rel ! i) \<or>
         length (rel_desc rel) = sr_natts rel \<or> ah_column_default he i = None then None
       else map_option Datum (the (ah_column_default he i))))"
  using assms slot_store_data_nth [OF assms(1), of _ newtup]
  by (auto simp: spock_apply_heap_insert_def Let_def slot_fill_defaults_nth physatt_in_attmap_def rel_ok_def)

theorem insert_builds_row_witness:
  "\<exists>s. spock_apply_heap_insert (demo_heap None) (demo_session 20) demo_rel3 (demo_tup [Some 5, None] [True, True]) =
      Inr \<lparr>hr_stats = [SPOCK_STATS_INSERT_COUNT], hr_reports = [], hr_exception_local = None,
           hr_action = Heap_insert s\<rparr> \<and> s ! 0 = Some (Datum 5) \<and> s ! 2 = Some (Datum 9)"
proof -
  let ?tup = "demo_tup [Some 5, None] [True, True]"
  have find: "FindReplTupleInLocalRel (demo_heap None) (sr_idxoid demo_rel3)
      (slot_fill_defaults (demo_heap None) demo_rel3 (slot_store_data demo_rel3 ?tup)) True = None"
    by (simp add: FindReplTupleInLocalRel_def demo_heap_fields)
  have "tup_column ?tup 0 = Some (Datum 5)" "set (sr_attmap demo_rel3) = {1, 0}" "sr_natts demo_rel3 = 2"
    "\<not> attisdropped (demo_att ''c'' 3)" "\<not> attgenerated (demo_att ''c'' 3)"
    by (simp_all add: tup_column_def demo_tup_def demo_rel3_def demo_att_def)
  then show ?thesis
    using insert_builds_row [OF demo_rel3_ok(1) find demo_heap_fields(3,2), of "demo_session 20"]
    by (auto simp: demo_rel3_ok(2) demo_heap_fields numeral_eq_Suc All_less_Suc)
qed

text \<open>
  C3: Resolving a change against a local row of a table without delta columns either leaves the table
  alone, when the local version wins, or, when the remote one wins, replaces in that row exactly the
  mapped columns that the tuple marks as changed; every other column keeps its local value.
\<close>

theorem winner_merges_into_local_row:
  assumes ok: "rel_ok rel" and len: "length (lr_slot row) = length (rel_desc rel)"
    and nodelta: "\<not> sr_has_delta_columns rel"
    and res: "spock_handle_conflict_and_apply he ce rel row remoteslot oldtup newtup idxused is_insert = Inr res"
  shows "\<exists>ofound lorigin lts app resolution s.
    get_tuple_origin ce (lr_xmin row) True = Inr (ofound, lorigin, lts) \<and>
    try_resolve_conflict ce (lr_slot row) remoteslot lorigin lts =
      Inr (app, if app then remoteslot else lr_slot row, resolution) \<and>
    hr_action res = (if app then Heap_update (lr_tid row) s None else Heap_nothing) \<and>
    length s = length (rel_desc rel) \<and>
    (\<forall>i < length (rel_desc rel). s ! i =
      (if i \<in> set (sr_attmap rel) \<and> tup_changed newtup i then tup_column newtup i else lr_slot row ! i))"
  using res
proof (rule handle_result)
  fix ofound lorigin lts app resolution
  assume "get_tuple_origin ce (lr_xmin row) True = Inr (ofound, lorigin, lts)"
    "try_resolve_conflict ce (lr_slot row) remoteslot lorigin lts =
      Inr (app, if app then remoteslot else lr_slot row, resolution)"
    "\<not> sr_has_delta_columns rel \<Longrightarrow> hr_action res =
      (if app then Heap_update (lr_tid row) (slot_modify_data rel (lr_slot row) newtup) None else Heap_nothing)"
  then show ?thesis
    using slot_modify_data_nth [OF ok, of _ "lr_slot row" newtup] len nodelta
      slot_modify_data_length [OF ok, of "lr_slot row" newtup]
    by (intro exI [of _ ofound] exI [of _ lorigin] exI [of _ lts] exI [of _ app] exI [of _ resolution]
        exI [of _ "slot_modify_data rel (lr_slot row) newtup"]) simp
qed

lemma demo_resolved:
  "get_tuple_origin (demo_session ts) (lr_xmin demo_row) True = Inr (True, 0, 10)"
  "ts_less 10 ts \<Longrightarrow> try_resolve_conflict (demo_session ts) l r 0 10 = Inr (True, r, SpockResolution_ApplyRemote)"
  "ts_less ts 10 \<Longrightarrow> try_resolve_conflict (demo_session ts) l r 0 10 = Inr (False, l, SpockResolution_KeepLocal)"
  by (simp_all add: demo_heap_defs get_tuple_origin_def commit_ts_of_def TransactionIdIsNormal_def
      try_resolve_conflict_def resolve_later resolve_earlier)

lemma demo_session_origin: "env_session_origin (demo_session ts) = 4"
  by (simp add: demo_session_def)

lemma demo_report_total:
  "cf_type c = SPOCK_CT_UPDATE_EXISTS \<Longrightarrow>
   spock_report_conflict ce (ah_report (demo_heap row)) c = Inr []"
  by (auto simp: spock_report_conflict_def report_filter_def demo_heap_def Let_def split: option.splits)

lemma demo_handled:
  assumes "ts_less 10 ts \<or> ts_less ts 10" "\<not> sr_has_delta_columns rel"
  shows "\<exists>res. spock_handle_conflict_and_apply (demo_heap (Some demo_row)) (demo_session ts) rel demo_row
    sl oldtup newtup idx False = Inr res"
  using assms demo_resolved(1) [of ts]
  by (auto simp: spock_handle_conflict_and_apply_def lift_conflict_def demo_resolved Let_def
      demo_heap_fields demo_report_total)

theorem winner_merges_into_local_row_witness:
  "\<exists>res s. spock_handle_conflict_and_apply (demo_heap (Some demo_row)) (demo_session 20) demo_rel3 demo_row
      [] (demo_tup [None, Some 1] [False, True]) (demo_tup [Some 5, Some 1] [True, False]) 16401 False = Inr res \<and>
    hr_action res = Heap_update 7 s None \<and> s ! 0 = Some (Datum 5) \<and> s ! 2 = Some (Datum 55)"
proof -
  obtain res where res: "spock_handle_conflict_and_apply (demo_heap (Some demo_row)) (demo_session 20)
      demo_rel3 demo_row [] (demo_tup [None, Some 1] [False, True]) (demo_tup [Some 5, Some 1] [True, False])
      16401 False = Inr res"
    using demo_handled [of 20 demo_rel3 "[]" "demo_tup [None, Some 1] [False, True]"
        "demo_tup [Some 5, Some 1] [True, False]" 16401]
    by (auto simp: ts_less_def demo_rel3_def)
  have tup: "tup_column (demo_tup [Some 5, Some 1] [True, False]) 0 = Some (Datum 5)"
    "tup_changed (demo_tup [Some 5, Some 1] [True, False]) 0" "set (sr_attmap demo_rel3) = {1, 0}"
    "lr_slot demo_row ! 2 = Some (Datum 55)" "lr_tid demo_row = 7"
    by (simp_all add: tup_column_def demo_tup_def demo_rel3_def demo_row_def)
  have "length (lr_slot demo_row) = length (rel_desc demo_rel3)" "\<not> sr_has_delta_columns demo_rel3"
    by (simp add: demo_rel3_ok(2) demo_row_def) (simp add: demo_rel3_def)
  from winner_merges_into_local_row [OF demo_rel3_ok(1) this res] tup show ?thesis
    using res by (auto simp: demo_resolved ts_less_def demo_rel3_ok(2) numeral_eq_Suc All_less_Suc)
qed


definition demo_delta_rel :: SpockRelation where
  "demo_delta_rel = demo_rel3\<lparr>sr_has_delta_columns := True, sr_delta_apply_functions := [501, 0, 0]\<rparr>"

lemma demo_delta_rel_ok: "rel_ok demo_delta_rel" "rel_desc demo_delta_rel = rel_desc demo_rel3"
  "set (sr_attmap demo_delta_rel) = {1, 0}" "sr_has_delta_columns demo_delta_rel"
  "sr_delta_apply_functions demo_delta_rel = [501, 0, 0]"
  using demo_rel3_ok(1) by (simp_all add: rel_ok_def rel_desc_def demo_delta_rel_def demo_rel3_def)

lemma demo_delta_handled:
  assumes "ts_less ts 10"
  shows "\<exists>res. spock_handle_conflict_and_apply (demo_heap (Some demo_row)) (demo_session ts) demo_delta_rel
    demo_row sl (demo_tup [Some 90, Some 1] [True, True]) (demo_tup [Some 97, Some 1] [True, False]) idx False = Inr res"
  using assms demo_resolved(1) [of ts]
  by (simp add: spock_handle_conflict_and_apply_def lift_conflict_def demo_resolved Let_def demo_heap_fields
      demo_report_total build_delta_tuple_def demo_delta_rel_def demo_rel3_def demo_tup_def
      demo_row_def)


text \<open>
  C30: A change to a table with delta columns sets to null every column that only the local table has,
  whichever version wins: the final row is rebuilt from the mapped columns alone.
\<close>

theorem delta_update_clears_local_columns:
  assumes ok: "rel_ok rel" and delta: "sr_has_delta_columns rel"
    and res: "spock_handle_conflict_and_apply he ce rel row remoteslot oldtup newtup idxused is_insert = Inr res"
    and i: "i < length (rel_desc rel)" "i \<notin> set (sr_attmap rel)"
  shows "\<exists>s ov. hr_action res = Heap_update (lr_tid row) s ov \<and> s ! i = None"
  using res
  by (rule handle_result) (use delta slot_store_htup_nth(1) [OF ok i(1)] i(2) in auto)

theorem delta_update_clears_local_columns_witness:
  "\<exists>res s ov. spock_handle_conflict_and_apply (demo_heap (Some demo_row)) (demo_session 5) demo_delta_rel demo_row
      [] (demo_tup [Some 90, Some 1] [True, True]) (demo_tup [Some 97, Some 1] [True, False]) 16401 False = Inr res \<and>
    hr_action res = Heap_update 7 s ov \<and> lr_slot demo_row ! 2 = Some (Datum 55) \<and> s ! 2 = None"
proof -
  let ?old = "demo_tup [Some 90, Some 1] [True, True]" and ?new = "demo_tup [Some 97, Some 1] [True, False]"
  obtain res where res: "spock_handle_conflict_and_apply (demo_heap (Some demo_row)) (demo_session 5)
      demo_delta_rel demo_row [] ?old ?new 16401 False = Inr res"
    using demo_delta_handled [of 5 "[]" 16401] by (auto simp: ts_less_def)
  have "lr_slot demo_row ! 2 = Some (Datum 55)" "lr_tid demo_row = 7" by (simp_all add: demo_row_def)
  then show ?thesis
    using delta_update_clears_local_columns [OF demo_delta_rel_ok(1,4) res, of 2] res
    by (auto simp: demo_delta_rel_ok demo_rel3_ok)
qed

lemma find_retry_zero: "find_retry look 0 0 junk = (junk, 0)"
  by (simp add: find_retry.simps)

text \<open>
  The retry loop looks at most as often as configured, stops at the first look that finds the row,
  and, when no look does, reports the row missing; but with a count of zero it never looks, and updates
  and deletes go by whatever the uninitialised variables hold.
\<close>

theorem find_retry_looks:
  "find_retry look 0 0 junk = (junk, 0) \<and>
   find_retry look (Suc n) 0 junk =
     (case find (\<lambda>i. look i \<noteq> None) [0..<Suc n] of
        Some i \<Rightarrow> (look i, i)
      | None \<Rightarrow> (None, Suc n))"
proof -
  have "find_retry look m k x = (case find (\<lambda>i. look i \<noteq> None) [k..<m] of
      Some i \<Rightarrow> (look i, i) | None \<Rightarrow> (if k < m then None else x, max k m))" for m k x
  proof (induction "m - k" arbitrary: k x)
    case (Suc d)
    then show ?case
      by (subst find_retry.simps) (auto simp: upt_conv_Cons split: option.splits)
  qed (simp add: find_retry.simps max_def)
  then show ?thesis
    by (simp add: find_retry_zero split: option.splits)
qed

text \<open>
  C29: A replicated DELETE removes the local row exactly when the row is found and its version does not
  win; a winning local version is kept and reported, a missing row is only reported.  Whatever happens,
  the change is counted, but in the counter of updates, never in that of deletes.
\<close>

theorem delete_outcome:
  assumes "spock_apply_heap_delete he ce retry_count looks junk rel oldtup = Inr res"
  shows "hr_stats res = [SPOCK_STATS_UPDATE_COUNT] \<and> SPOCK_STATS_DELETE_COUNT \<notin> set (hr_stats res) \<and>
    (case fst (find_retry (\<lambda>n. FindReplTupleInLocalRel (looks n) (sr_idxoid rel)
        (slot_store_data rel oldtup) False) retry_count 0 junk) of
       None \<Rightarrow> hr_action res = Heap_nothing \<and> hr_exception_local res = None
     | Some row \<Rightarrow> hr_exception_local res = Some (lr_slot row) \<and>
         (\<exists>ofound lorigin lts app t resolution.
           get_tuple_origin ce (lr_xmin row) True = Inr (ofound, lorigin, lts) \<and>
           try_resolve_conflict ce (Some (lr_slot row)) None lorigin lts = Inr (app, t, resolution) \<and>
           hr_action res = (if app then Heap_delete (lr_tid row) else Heap_nothing)))"
proof -
  obtain found retry where f: "find_retry (\<lambda>n. FindReplTupleInLocalRel (looks n) (sr_idxoid rel)
      (slot_store_data rel oldtup) False) retry_count 0 junk = (found, retry)"
    by fastforce
  show ?thesis
    using assms
    by (cases found) (auto simp: spock_apply_heap_delete_def f Let_def lift_conflict_def split: if_splits)
qed

theorem delete_outcome_witness:
  "\<exists>res. spock_apply_heap_delete (demo_heap (Some demo_row)) (demo_session 20) 5 (\<lambda>_. demo_heap (Some demo_row))
      None demo_rel3 (demo_tup [None, Some 1] [False, True]) = Inr res \<and>
    hr_action res = Heap_delete 7 \<and> hr_stats res = [SPOCK_STATS_UPDATE_COUNT]"
proof -
  let ?looks = "\<lambda>n::nat. FindReplTupleInLocalRel (demo_heap (Some demo_row)) (sr_idxoid demo_rel3)
    (slot_store_data demo_rel3 (demo_tup [None, Some 1] [False, True])) False"
  have idx: "sr_idxoid demo_rel3 = 16401" by (simp add: demo_rel3_def)
  then have found: "find_retry ?looks 5 0 None = (Some demo_row, 0)"
    by (simp add: find_retry.simps FindReplTupleInLocalRel_def demo_heap_fields)
  have report: "spock_report_conflict (demo_session 20) (ah_report (demo_heap (Some demo_row))) c = Inr []"
    if "cf_type c = SPOCK_CT_DELETE_ORIGIN_DIFFERS" for c
    using that
    by (auto simp: spock_report_conflict_def report_filter_def demo_heap_def Let_def split: option.splits)
  obtain res where res: "spock_apply_heap_delete (demo_heap (Some demo_row)) (demo_session 20) 5
      (\<lambda>_. demo_heap (Some demo_row)) None demo_rel3 (demo_tup [None, Some 1] [False, True]) = Inr res"
    by (simp add: spock_apply_heap_delete_def found Let_def lift_conflict_def demo_resolved ts_less_def
        demo_heap_fields report demo_session_origin)
  have "lr_tid demo_row = 7" by (simp add: demo_row_def)
  with res delete_outcome [OF res] found show ?thesis
    by (auto simp: demo_resolved ts_less_def)
qed

section \<open>Deltas commute\<close>

text \<open>
  The arithmetic a delta function relies on: it raises rather than giving a wrong result.
\<close>

locale exact_arith =
  fixes mi pl :: "int \<Rightarrow> int \<Rightarrow> int option"
  assumes mi_exact: "mi a b = Some d \<Longrightarrow> d = a - b"
    and pl_exact: "pl a b = Some d \<Longrightarrow> d = a + b"
begin

lemma delta_apply_exact: "delta_apply mi pl ov nv lv = Some r \<Longrightarrow> r = lv + (nv - ov)"
  by (auto simp: delta_apply_def bind_eq_Some_conv dest: mi_exact pl_exact)

end

text \<open>A counter column that receives a sequence of changes, each with its old and its new value.\<close>

fun apply_deltas :: "(int \<Rightarrow> int \<Rightarrow> int option) \<Rightarrow> (int \<Rightarrow> int \<Rightarrow> int option) \<Rightarrow> (int \<times> int) list \<Rightarrow> int \<Rightarrow> int option" where
  "apply_deltas mi pl [] x = Some x"
| "apply_deltas mi pl ((ov, nv) # chs) x = Option.bind (delta_apply mi pl ov nv x) (apply_deltas mi pl chs)"

context exact_arith
begin

lemma apply_deltas_sum:
  "apply_deltas mi pl chs x = Some r \<Longrightarrow> r = x + (\<Sum>(ov, nv) \<leftarrow> chs. nv - ov)"
proof (induction chs arbitrary: x)
  case (Cons c chs)
  obtain ov nv where c: "c = (ov, nv)" by fastforce
  with Cons.prems have "apply_deltas mi pl chs (x + (nv - ov)) = Some r"
    by (auto simp: bind_eq_Some_conv dest!: delta_apply_exact)
  from Cons.IH [OF this] show ?case by (simp add: c)
qed simp

end

text \<open>Subtraction and addition of the \<open>w\<close>-bit integer types, which raise when out of range.\<close>

definition int_in_range :: "nat \<Rightarrow> int \<Rightarrow> int option" where
  "int_in_range w x = (if - (2 ^ (w - 1)) \<le> x \<and> x < 2 ^ (w - 1) then Some x else None)"

definition int_mi :: "nat \<Rightarrow> int \<Rightarrow> int \<Rightarrow> int option" where
  "int_mi w a b = int_in_range w (a - b)"

definition int_pl :: "nat \<Rightarrow> int \<Rightarrow> int \<Rightarrow> int option" where
  "int_pl w a b = int_in_range w (a + b)"

interpretation int_arith: exact_arith "int_mi w" "int_pl w" for w
  by unfold_locales (auto simp: int_mi_def int_pl_def int_in_range_def split: if_splits)

text \<open>
  C19: Concurrent changes to a counter add up the same on every node.  Two nodes that start from the same
  value and apply the same changes, each in its own order, end with the same value, the start plus the
  sum of the differences, provided neither overflows on the way.
\<close>

theorem deltas_commute:
  assumes "exact_arith mi pl" "mset chs1 = mset chs2"
    and "apply_deltas mi pl chs1 x = Some r1" "apply_deltas mi pl chs2 x = Some r2"
  shows "r1 = r2 \<and> r1 = x + (\<Sum>(ov, nv) \<leftarrow> chs1. nv - ov)"
proof -
  have "(\<Sum>(ov, nv) \<leftarrow> chs1. nv - ov) = (\<Sum>(ov, nv) \<leftarrow> chs2. nv - ov)"
    using assms(2) by (metis mset_map sum_mset_sum_list)
  then show ?thesis
    using exact_arith.apply_deltas_sum [OF assms(1,3)] exact_arith.apply_deltas_sum [OF assms(1,4)] by simp
qed

theorem deltas_commute_witness:
  "apply_deltas (int_mi 32) (int_pl 32) [(100, 130), (100, 95)] 100 =
   apply_deltas (int_mi 32) (int_pl 32) [(100, 95), (100, 130)] 100"
  using deltas_commute [OF int_arith.exact_arith_axioms, of "[(100, 130), (100, 95)]"
      "[(100, 95), (100, 130)]" 32 100 125 125]
  by (simp add: delta_apply_def int_mi_def int_pl_def int_in_range_def)

end
