(* ===== verification/Spock_Progress_Recovery.thy ===== *)
theory Spock_Progress_Recovery
  imports Spock_Group
begin

text \<open>
  Bringing an apply worker's progress entry in line with its replication origin at startup
  (\<open>src/spock_progress_recovery.c\<close>): the reconciliation of the position, and the scan of the commit
  timestamps that recovers the last commit time after a crash.  \<open>commit_ts\<close> is what
  \<open>TransactionIdGetCommitTsData\<close> finds for a transaction id.
\<close>

section \<open>Reconciliation\<close>

datatype ReconcileResult =
    RECONCILE_FILE_IN_SYNC
  | RECONCILE_FILE_STALE
  | RECONCILE_FILE_ANOMALY
  | RECONCILE_FILE_ABSENT

text \<open>The entry moved to the position of the origin, its times cleared.\<close>

definition reset_to_origin :: "XLogRecPtr \<Rightarrow> SpockApplyProgress \<Rightarrow> SpockApplyProgress" where
  "reset_to_origin origin_lsn p =
     (let p1 = p\<lparr>ap_remote_commit_lsn := origin_lsn, ap_remote_commit_ts := 0, ap_prev_remote_ts := 0,
                 ap_last_updated_ts := 0\<rparr>;
          p2 = (if ap_remote_insert_lsn p1 < origin_lsn then p1\<lparr>ap_remote_insert_lsn := origin_lsn\<rparr> else p1)
      in if ap_received_lsn p2 < origin_lsn then p2\<lparr>ap_received_lsn := origin_lsn\<rparr> else p2)"

definition reconcile_progress_with_origin ::
  "(group_hash \<Rightarrow> bool) \<Rightarrow> SpockGroupKey \<Rightarrow> XLogRecPtr \<Rightarrow> group_hash option
     \<Rightarrow> ReconcileResult \<times> group_hash option" where
  "reconcile_progress_with_origin room key origin_lsn shmem =
     (case shmem of
        None \<Rightarrow> (RECONCILE_FILE_ABSENT, None)
      | Some h \<Rightarrow>
          (case group_enter room key h of
             None \<Rightarrow> (RECONCILE_FILE_ABSENT, Some h)
           | Some (entry, found) \<Rightarrow>
               (let p = ge_progress entry;
                    put = (\<lambda>p'. Some (hash_put key (entry\<lparr>ge_progress := p'\<rparr>) h))
                in if \<not> found then
                     (RECONCILE_FILE_ABSENT,
                      put (p\<lparr>ap_remote_commit_lsn := origin_lsn, ap_remote_insert_lsn := origin_lsn,
                             ap_received_lsn := origin_lsn\<rparr>))
                   else if ap_remote_commit_lsn p = origin_lsn then (RECONCILE_FILE_IN_SYNC, Some h)
                   else if ap_remote_commit_lsn p < origin_lsn
                   then (RECONCILE_FILE_STALE, put (reset_to_origin origin_lsn p))
                   else (RECONCILE_FILE_ANOMALY, put (reset_to_origin origin_lsn p)))))"

section \<open>The scan of the commit timestamps\<close>

definition FirstNormalTransactionId :: TransactionId where "FirstNormalTransactionId = 3"
definition SPOCK_TS_RECOVERY_MIN_SEEN_PER_ORIGIN :: int where "SPOCK_TS_RECOVERY_MIN_SEEN_PER_ORIGIN = 1000"
definition SPOCK_TS_RECOVERY_SCAN_LIMIT :: int where "SPOCK_TS_RECOVERY_SCAN_LIMIT = 1000000"
definition SPOCK_TS_RECOVERY_BATCH_SIZE :: TransactionId where "SPOCK_TS_RECOVERY_BATCH_SIZE = 1000"

text \<open>
  PostgreSQL's order of transaction ids: the special ids first, normal ids modulo \<open>2\<^sup>3\<^sup>2\<close>, so that each
  precedes the \<open>2\<^sup>3\<^sup>1 - 1\<close> ids after it.
\<close>

definition TransactionIdPrecedes :: "TransactionId \<Rightarrow> TransactionId \<Rightarrow> bool" where
  "TransactionIdPrecedes id1 id2 \<longleftrightarrow>
     (if id1 < FirstNormalTransactionId \<or> id2 < FirstNormalTransactionId then id1 < id2
      else sint (id1 - id2) < 0)"

text \<open>The inner loop over one batch: commits of the origin seen, and the latest commit time.\<close>

function scan_batch ::
  "(TransactionId \<Rightarrow> (TimestampTz \<times> RepOriginId) option) \<Rightarrow> RepOriginId \<Rightarrow> TransactionId \<Rightarrow> TransactionId
     \<Rightarrow> int \<Rightarrow> TimestampTz \<Rightarrow> int \<times> TimestampTz" where
  "scan_batch commit_ts target_origin xid xid_high seen_count running_max_ts =
     (if \<not> TransactionIdPrecedes xid (xid_high + 1) then (seen_count, running_max_ts)
      else (case commit_ts xid of
              Some (ts, origin) \<Rightarrow>
                if origin \<noteq> target_origin
                then scan_batch commit_ts target_origin (xid + 1) xid_high seen_count running_max_ts
                else scan_batch commit_ts target_origin (xid + 1) xid_high (seen_count + 1)
                       (if ts_less running_max_ts ts then ts else running_max_ts)
            | None \<Rightarrow> scan_batch commit_ts target_origin (xid + 1) xid_high seen_count running_max_ts))"
  by pat_completeness auto

lemma precedes_irrefl: "\<not> TransactionIdPrecedes x x"
  by (simp add: TransactionIdPrecedes_def)

lemma word_distance_step:
  fixes a b :: "'a::len word"
  assumes "a \<noteq> b"
  shows "unat (b - (a + 1)) < unat (b - a)"
proof -
  have "b - a \<noteq> 0" using assms by simp
  then have "unat (b - a - 1) = unat (b - a) - 1" "0 < unat (b - a)"
    by (simp_all add: unat_minus_one unat_gt_0)
  then show ?thesis by (simp add: diff_diff_eq [symmetric])
qed

lemma precedes_distance:
  "TransactionIdPrecedes xid (hi + 1) \<Longrightarrow> unat (hi - xid) < unat (hi + 1 - xid)"
  using word_distance_step [of xid "hi + 1"] precedes_irrefl [of xid] by fastforce

termination scan_batch
  by (relation "measure (\<lambda>(c, t, xid, hi, s, m). unat (hi + 1 - xid))")
    (auto simp: precedes_distance)

declare scan_batch.simps [simp del]

text \<open>
  The outer loop.  The result is the number of commits seen, the latest commit time, the number of ids
  scanned, and the lowest of them.
\<close>

definition batch_low :: "TransactionId \<Rightarrow> TransactionId" where
  "batch_low xid_high =
     (if TransactionIdPrecedes xid_high (FirstNormalTransactionId + SPOCK_TS_RECOVERY_BATCH_SIZE)
      then FirstNormalTransactionId
      else xid_high - SPOCK_TS_RECOVERY_BATCH_SIZE + 1)"

function scan_commit_ts ::
  "(TransactionId \<Rightarrow> (TimestampTz \<times> RepOriginId) option) \<Rightarrow> RepOriginId \<Rightarrow> TransactionId
     \<Rightarrow> int \<Rightarrow> TimestampTz \<Rightarrow> int \<Rightarrow> int \<times> TimestampTz \<times> int \<times> TransactionId" where
  "scan_commit_ts commit_ts target_origin xid_high seen_count running_max_ts total_scanned =
     (if \<not> (seen_count < SPOCK_TS_RECOVERY_MIN_SEEN_PER_ORIGIN \<and> total_scanned < SPOCK_TS_RECOVERY_SCAN_LIMIT)
      then (seen_count, running_max_ts, total_scanned, xid_high + 1)
      else
        (let xid_low = batch_low xid_high;
             batch_count = uint xid_high - uint xid_low + 1;
             (seen', max') = scan_batch commit_ts target_origin xid_low xid_high seen_count running_max_ts
         in if xid_low = FirstNormalTransactionId
            then (seen', max', total_scanned + batch_count, xid_low)
            else scan_commit_ts commit_ts target_origin (xid_low - 1) seen' max' (total_scanned + batch_count)))"
  by pat_completeness auto

text \<open>
  Ids that are less than half the id space apart are ordered as numbers.
\<close>

lemma sint_difference:
  fixes a b :: TransactionId
  assumes "uint a - uint b < 2 ^ 31" "- (2 ^ 31) \<le> uint a - uint b"
  shows "sint (a - b) = uint a - uint b"
proof -
  have "sint (word_of_int x :: TransactionId) = x" if "x < 2 ^ 31" "- (2 ^ 31) \<le> x" for x
    using that by (simp add: signed_of_int signed_take_bit_int_eq_self)
  from this [OF assms] show ?thesis by simp
qed

lemma precedes_iff:
  assumes "uint a - uint b < 2 ^ 31" "- (2 ^ 31) \<le> uint a - uint b"
  shows "TransactionIdPrecedes a b \<longleftrightarrow> a < b"
  using sint_difference [OF assms] by (auto simp: TransactionIdPrecedes_def word_less_def)

lemma batch_low_cases:
  assumes "batch_low hi \<noteq> FirstNormalTransactionId"
  shows "uint (batch_low hi) = uint hi - 999" "1003 \<le> uint hi"
proof -
  have np: "\<not> TransactionIdPrecedes hi 1003"
    using assms by (auto simp: batch_low_def FirstNormalTransactionId_def SPOCK_TS_RECOVERY_BATCH_SIZE_def)
  have "\<not> uint hi < 1003"
  proof
    assume "uint hi < 1003"
    then have "TransactionIdPrecedes hi 1003"
      using uint_ge_0 [of hi] by (subst precedes_iff) (simp_all add: word_less_def)
    with np show False by simp
  qed
  then show hi: "1003 \<le> uint hi" by simp
  have "batch_low hi = hi - 999"
    using np by (simp add: batch_low_def FirstNormalTransactionId_def SPOCK_TS_RECOVERY_BATCH_SIZE_def)
  moreover have "uint (hi - 999) = uint hi - 999"
    using hi by (simp add: uint_sub_if')
  ultimately show "uint (batch_low hi) = uint hi - 999" by simp
qed

termination scan_commit_ts
  by (relation "measure (\<lambda>(c, t, hi, s, m, total). nat (SPOCK_TS_RECOVERY_SCAN_LIMIT - total))")
    (auto simp: SPOCK_TS_RECOVERY_SCAN_LIMIT_def batch_low_cases(1))

declare scan_commit_ts.simps [simp del]

definition recover_progress_timestamps_from_commit_ts ::
  "(TransactionId \<Rightarrow> (TimestampTz \<times> RepOriginId) option) \<Rightarrow> TransactionId \<Rightarrow> RepOriginId
     \<Rightarrow> SpockApplyProgress \<Rightarrow> SpockApplyProgress" where
  "recover_progress_timestamps_from_commit_ts commit_ts next_xid target_origin p =
     (if TransactionIdPrecedes next_xid (FirstNormalTransactionId + 1) then p
      else (case scan_commit_ts commit_ts target_origin (next_xid - 1) 0 0 0 of
              (seen_count, running_max_ts, total_scanned, _) \<Rightarrow>
                if ts_less 0 running_max_ts \<and> ts_less (ap_remote_commit_ts p) running_max_ts
                then p\<lparr>ap_remote_commit_ts := running_max_ts, ap_prev_remote_ts := running_max_ts,
                       ap_last_updated_ts := running_max_ts\<rparr>
                else p))"

definition spock_init_progress_state ::
  "(group_hash \<Rightarrow> bool) \<Rightarrow> (TransactionId \<Rightarrow> (TimestampTz \<times> RepOriginId) option) \<Rightarrow> TransactionId
     \<Rightarrow> SpockGroupKey \<Rightarrow> XLogRecPtr \<Rightarrow> group_hash option \<Rightarrow> group_hash option" where
  "spock_init_progress_state room commit_ts next_xid key origin_lsn shmem =
     (case shmem of
        None \<Rightarrow> None
      | Some h \<Rightarrow>
          (let (result, shmem') = reconcile_progress_with_origin room key origin_lsn (Some h) in
           if result = RECONCILE_FILE_IN_SYNC then shmem'
           else if origin_lsn = InvalidXLogRecPtr then shmem'
           else (case shmem' of
                   None \<Rightarrow> None
                 | Some h' \<Rightarrow>
                     (case hash_find h' key of
                        None \<Rightarrow> Some h'
                      | Some entry \<Rightarrow>
                          Some (hash_put key (entry\<lparr>ge_progress :=
                            recover_progress_timestamps_from_commit_ts commit_ts next_xid
                              (ucast (gk_remote_node_id key)) (ge_progress entry)\<rparr>) h')))))"

section \<open>What the scan finds\<close>

text \<open>The commit times recorded for the origin under ids in a range.\<close>

definition origin_times ::
  "(TransactionId \<Rightarrow> (TimestampTz \<times> RepOriginId) option) \<Rightarrow> RepOriginId \<Rightarrow> int \<Rightarrow> int \<Rightarrow> TimestampTz set" where
  "origin_times c orig lo hi = {ts. \<exists>x. lo \<le> uint x \<and> uint x \<le> hi \<and> c x = Some (ts, orig)}"

definition latest :: "TimestampTz \<Rightarrow> TimestampTz set \<Rightarrow> TimestampTz \<Rightarrow> bool" where
  "latest m T m' \<longleftrightarrow> m' \<in> insert m T \<and> (\<forall>t \<in> insert m T. sint t \<le> sint m')"

lemma latest_step:
  "latest (if ts_less m ts then ts else m) T m' \<Longrightarrow> latest m (insert ts T) m'"
  by (auto simp: latest_def ts_less_def split: if_splits)

lemma latest_trans: "latest m T m' \<Longrightarrow> latest m' T' m'' \<Longrightarrow> latest m (T \<union> T') m''"
  by (auto simp: latest_def intro: order_trans)

lemma origin_times_empty: "hi < lo \<Longrightarrow> origin_times c orig lo hi = {}"
  by (auto simp: origin_times_def)

lemma origin_times_first:
  assumes "uint x \<le> hi"
  shows "origin_times c orig (uint x) hi =
    {ts. c x = Some (ts, orig)} \<union> origin_times c orig (uint x + 1) hi"
proof -
  have "y = x \<or> uint x + 1 \<le> uint y" if "uint x \<le> uint y" for y
    using that by (cases "uint x = uint y") (auto dest: word_uint_eqI)
  then show ?thesis using assms by (auto simp: origin_times_def) (metis add_increasing2 order_trans zero_le_one order_refl)
qed

lemma origin_times_split:
  "lo \<le> mid + 1 \<Longrightarrow> mid \<le> hi \<Longrightarrow>
   origin_times c orig lo mid \<union> origin_times c orig (mid + 1) hi = origin_times c orig lo hi"
  unfolding origin_times_def by (auto intro: order_trans) (metis not_le zless_imp_add1_zle)

lemma uint_succ: "uint (x :: TransactionId) < 2 ^ 32 - 1 \<Longrightarrow> uint (x + 1) = uint x + 1"
  using uint_ge_0 [of x] by (simp add: uint_plus_if')

lemma scan_batch_latest:
  assumes "uint xid \<le> uint hi + 1" "uint hi < 2 ^ 32 - 1" "uint hi - uint xid < 2 ^ 31 - 1"
    and "scan_batch c orig xid hi seen m = (seen', m')"
  shows "latest m (origin_times c orig (uint xid) (uint hi)) m'"
  using assms(1,3,4)
proof (induction "nat (uint hi + 1 - uint xid)" arbitrary: xid seen m)
  case 0
  then have "uint xid = uint (hi + 1)" using uint_succ [OF assms(2)] by simp
  then have "xid = hi + 1" by (rule word_uint_eqI)
  with 0 show ?case
    using uint_succ [OF assms(2)]
    by (simp add: scan_batch.simps [of c orig "hi + 1"] precedes_irrefl origin_times_empty latest_def)
next
  case (Suc n)
  have le: "uint xid \<le> uint hi" using Suc.hyps(2) by simp
  have nxt: "uint (xid + 1) = uint xid + 1" using le assms(2) by (intro uint_succ) simp
  have prec: "TransactionIdPrecedes xid (hi + 1)"
    using le Suc.prems(2) uint_succ [OF assms(2)] by (subst precedes_iff) (auto simp: word_less_def)
  have IH: "latest m2 (origin_times c orig (uint xid + 1) (uint hi)) m'"
    if "scan_batch c orig (xid + 1) hi s2 m2 = (seen', m')" for s2 m2
    using Suc.hyps(1) [of "xid + 1"] Suc.hyps(2) Suc.prems(2) that nxt by simp
  note step = Suc.prems(3) [unfolded scan_batch.simps [of c orig xid]]
  show ?case
  proof (cases "\<exists>ts. c xid = Some (ts, orig)")
    case True
    then obtain ts where ts: "c xid = Some (ts, orig)" by blast
    with step prec have "latest (if ts_less m ts then ts else m) (origin_times c orig (uint xid + 1) (uint hi)) m'"
      by (intro IH) simp
    then have "latest m (insert ts (origin_times c orig (uint xid + 1) (uint hi))) m'"
      by (rule latest_step)
    then show ?thesis using ts by (simp add: origin_times_first [OF le])
  next
    case False
    with step prec have "latest m (origin_times c orig (uint xid + 1) (uint hi)) m'"
      by (intro IH) (auto split: option.splits if_splits)
    then show ?thesis using False by (simp add: origin_times_first [OF le])
  qed
qed

lemma batch_low_first:
  assumes "batch_low hi = FirstNormalTransactionId" "uint hi < 2 ^ 31 + 1003"
  shows "uint hi \<le> 1002"
proof (rule ccontr)
  assume "\<not> uint hi \<le> 1002"
  then have "\<not> TransactionIdPrecedes hi 1003"
    using assms(2) by (subst precedes_iff) (simp_all add: word_less_def)
  then have "hi - 999 = 3"
    using assms(1) by (simp add: batch_low_def FirstNormalTransactionId_def SPOCK_TS_RECOVERY_BATCH_SIZE_def)
  then have "hi = 3 + 999" by (metis diff_add_cancel)
  then have "uint hi = 1002" by simp
  with \<open>\<not> uint hi \<le> 1002\<close> show False by simp
qed

lemma scan_commit_ts_latest:
  assumes "3 \<le> uint hi" "uint hi < 2 ^ 31 + 1003"
    and "scan_commit_ts c orig hi seen m tot = (seen', m', tot', low)"
  shows "latest m (origin_times c orig (uint low) (uint hi)) m' \<and> 3 \<le> uint low \<and> uint low \<le> uint hi + 1 \<and>
    (SPOCK_TS_RECOVERY_MIN_SEEN_PER_ORIGIN \<le> seen' \<or> SPOCK_TS_RECOVERY_SCAN_LIMIT \<le> tot' \<or>
     low = FirstNormalTransactionId)"
  using assms
proof (induction c orig hi seen m tot rule: scan_commit_ts.induct)
  case (1 c orig hi seen m tot)
  have hi1: "uint (hi + 1) = uint hi + 1" using 1(3) by (intro uint_succ) simp
  obtain s1 m1 where b: "scan_batch c orig (batch_low hi) hi seen m = (s1, m1)" by fastforce
  note step = 1(4) [unfolded scan_commit_ts.simps [of c orig hi] Let_def b]
  consider (stop) "\<not> (seen < SPOCK_TS_RECOVERY_MIN_SEEN_PER_ORIGIN \<and> tot < SPOCK_TS_RECOVERY_SCAN_LIMIT)"
    | (last) "seen < SPOCK_TS_RECOVERY_MIN_SEEN_PER_ORIGIN \<and> tot < SPOCK_TS_RECOVERY_SCAN_LIMIT"
        "batch_low hi = FirstNormalTransactionId"
    | (more) "seen < SPOCK_TS_RECOVERY_MIN_SEEN_PER_ORIGIN \<and> tot < SPOCK_TS_RECOVERY_SCAN_LIMIT"
        "batch_low hi \<noteq> FirstNormalTransactionId"
    by blast
  then show ?case
  proof cases
    case stop
    with step 1(2) hi1 show ?thesis by (auto simp: origin_times_empty latest_def)
  next
    case last
    have "uint hi \<le> 1002" using last(2) 1(3) by (rule batch_low_first)
    then have "latest m (origin_times c orig (uint (batch_low hi)) (uint hi)) m1"
      using 1(2) last(2) by (intro scan_batch_latest [OF _ _ _ b]) (simp_all add: FirstNormalTransactionId_def)
    with last step 1(2) show ?thesis by (auto simp: FirstNormalTransactionId_def)
  next
    case more
    note low = batch_low_cases [OF more(2)]
    have prev: "uint (batch_low hi - 1) = uint hi - 1000"
      using low by (simp add: uint_sub_if')
    have batch: "latest m (origin_times c orig (uint (batch_low hi)) (uint hi)) m1"
      using low 1(3) by (intro scan_batch_latest [OF _ _ _ b]) simp_all
    from more step have rest: "scan_commit_ts c orig (batch_low hi - 1) s1 m1
        (tot + (uint hi - uint (batch_low hi) + 1)) = (seen', m', tot', low)"
      by simp
    have IH: "latest m1 (origin_times c orig (uint low) (uint hi - 1000)) m' \<and> 3 \<le> uint low \<and> uint low \<le> uint hi - 999 \<and>
      (SPOCK_TS_RECOVERY_MIN_SEEN_PER_ORIGIN \<le> seen' \<or> SPOCK_TS_RECOVERY_SCAN_LIMIT \<le> tot' \<or>
       low = FirstNormalTransactionId)"
      using 1(1) [OF _ refl refl b [symmetric] refl more(2)] more(1) rest prev low 1(3) by simp
    then have "latest m (origin_times c orig (uint low) (uint hi - 1000) \<union>
        origin_times c orig (uint hi - 1000 + 1) (uint hi)) m'"
      using latest_trans [OF batch] low by (simp add: Un_commute)
    then have "latest m (origin_times c orig (uint low) (uint hi)) m'"
      using IH by (subst (asm) origin_times_split) simp_all
    with IH show ?thesis by simp
  qed
qed

text \<open>
  C28: Recovery finds the latest commit.  As long as the next transaction id is in the lower half of the id
  space, the scan covers all ids from some id on; the recovered commit time is one recorded for the
  origin under a scanned id, and none of those is later (times before the epoch of the timestamps
  apart); and the scan stops short of the oldest id only after it saw a thousand commits of the origin or
  a million ids.  Nothing but the three times of the entry changes.
\<close>

theorem recovery_finds_latest_commit:
  assumes "4 \<le> uint next_xid" "uint next_xid < 2 ^ 31 + 4"
  shows "\<exists>low seen m tot. scan_commit_ts c orig (next_xid - 1) 0 0 0 = (seen, m, tot, low) \<and>
    3 \<le> uint low \<and>
    (low = FirstNormalTransactionId \<or> SPOCK_TS_RECOVERY_MIN_SEEN_PER_ORIGIN \<le> seen \<or>
     SPOCK_TS_RECOVERY_SCAN_LIMIT \<le> tot) \<and>
    (\<forall>t \<in> origin_times c orig (uint low) (uint next_xid - 1). sint t \<le> 0 \<or> sint t \<le>
       sint (ap_remote_commit_ts (recover_progress_timestamps_from_commit_ts c next_xid orig p))) \<and>
    (recover_progress_timestamps_from_commit_ts c next_xid orig p = p \<or>
     m \<in> origin_times c orig (uint low) (uint next_xid - 1) \<and>
     recover_progress_timestamps_from_commit_ts c next_xid orig p =
       p\<lparr>ap_remote_commit_ts := m, ap_prev_remote_ts := m, ap_last_updated_ts := m\<rparr>)"
proof -
  obtain seen m tot low where sc: "scan_commit_ts c orig (next_xid - 1) 0 0 0 = (seen, m, tot, low)"
    by (metis prod_cases4)
  have prev: "uint (next_xid - 1) = uint next_xid - 1"
    using assms(1) by (simp add: uint_sub_if')
  have l: "latest 0 (origin_times c orig (uint low) (uint next_xid - 1)) m" "3 \<le> uint low"
    "SPOCK_TS_RECOVERY_MIN_SEEN_PER_ORIGIN \<le> seen \<or> SPOCK_TS_RECOVERY_SCAN_LIMIT \<le> tot \<or>
     low = FirstNormalTransactionId"
    using scan_commit_ts_latest [OF _ _ sc] assms prev by simp_all
  have np: "\<not> TransactionIdPrecedes next_xid (FirstNormalTransactionId + 1)"
    using assms by (subst precedes_iff) (simp_all add: FirstNormalTransactionId_def word_less_def)
  show ?thesis
    using sc l np
    by (intro exI [of _ low] exI [of _ seen] exI [of _ m] exI [of _ tot])
      (auto simp: recover_progress_timestamps_from_commit_ts_def latest_def ts_less_def)
qed

definition demo_commit_ts :: "TransactionId \<Rightarrow> (TimestampTz \<times> RepOriginId) option" where
  "demo_commit_ts xid = (if xid = 4 then Some (50, 2) else if xid = 5 then Some (40, 2) else None)"

theorem recovery_finds_latest_commit_witness:
  "\<exists>p'. recover_progress_timestamps_from_commit_ts demo_commit_ts 6 2 (demo_progress 0 100 120) = p' \<and>
     sint (50 :: TimestampTz) \<le> sint (ap_remote_commit_ts p')"
proof -
  obtain low where low: "3 \<le> uint low"
    "low = FirstNormalTransactionId \<or> SPOCK_TS_RECOVERY_MIN_SEEN_PER_ORIGIN \<le>
       fst (scan_commit_ts demo_commit_ts 2 5 0 0 0) \<or>
     SPOCK_TS_RECOVERY_SCAN_LIMIT \<le> fst (snd (snd (scan_commit_ts demo_commit_ts 2 5 0 0 0)))"
    "\<forall>t \<in> origin_times demo_commit_ts 2 (uint low) 5. sint t \<le> 0 \<or> sint t \<le> sint (ap_remote_commit_ts
       (recover_progress_timestamps_from_commit_ts demo_commit_ts 6 2 (demo_progress 0 100 120)))"
    using recovery_finds_latest_commit [of 6 demo_commit_ts 2 "demo_progress 0 100 120"] by auto
  have b: "batch_low 5 = FirstNormalTransactionId"
    by (simp add: batch_low_def TransactionIdPrecedes_def FirstNormalTransactionId_def SPOCK_TS_RECOVERY_BATCH_SIZE_def)
  have "fst (scan_commit_ts demo_commit_ts 2 5 0 0 0) < 1000 \<and>
      fst (snd (snd (scan_commit_ts demo_commit_ts 2 5 0 0 0))) < 1000000"
    by (simp add: scan_commit_ts.simps [of demo_commit_ts 2 5] b FirstNormalTransactionId_def
        scan_batch.simps demo_commit_ts_def TransactionIdPrecedes_def
        SPOCK_TS_RECOVERY_MIN_SEEN_PER_ORIGIN_def SPOCK_TS_RECOVERY_SCAN_LIMIT_def)
  with low(2) have "low = 3"
    by (auto simp: SPOCK_TS_RECOVERY_MIN_SEEN_PER_ORIGIN_def SPOCK_TS_RECOVERY_SCAN_LIMIT_def
        FirstNormalTransactionId_def)
  moreover have "50 \<in> origin_times demo_commit_ts 2 3 5"
    unfolding origin_times_def by (auto simp: demo_commit_ts_def intro!: exI [of _ 4])
  ultimately show ?thesis using low(3) by fastforce
qed

text \<open>
  C31: In the upper half of the id space recovery does nothing: the test for ``no normal transactions yet''
  compares modulo the id space, so that every next transaction id from \<open>2\<^sup>3\<^sup>1 + 4\<close> on counts as such, and
  the entry stays without a commit time.
\<close>

theorem recovery_skipped_after_half_the_ids:
  assumes "2 ^ 31 + 4 \<le> uint next_xid"
  shows "recover_progress_timestamps_from_commit_ts c next_xid orig p = p"
proof -
  have "sint (next_xid - 4) < 0"
  proof -
    have d: "next_xid - 4 = word_of_int (uint next_xid - 2 ^ 32 - 4)"
      by simp
    have "sint (word_of_int x :: TransactionId) = x" if "x < 2 ^ 31" "- (2 ^ 31) \<le> x" for x
      using that by (simp add: signed_of_int signed_take_bit_int_eq_self)
    from this [of "uint next_xid - 2 ^ 32 - 4"] show ?thesis
      unfolding d using assms uint_lt2p [of next_xid] by simp
  qed
  then have "TransactionIdPrecedes next_xid (FirstNormalTransactionId + 1)"
    using assms by (simp add: TransactionIdPrecedes_def FirstNormalTransactionId_def word_less_def)
  then show ?thesis by (simp add: recover_progress_timestamps_from_commit_ts_def)
qed

theorem recovery_skipped_after_half_the_ids_witness:
  "recover_progress_timestamps_from_commit_ts (\<lambda>_. Some (50, 2)) 3000000000 2 (demo_progress 0 100 120) =
     demo_progress 0 100 120"
  by (rule recovery_skipped_after_half_the_ids) simp

section \<open>The table over time\<close>

text \<open>
  The consistency of an entry that the source asserts: nothing is committed that was not inserted, and
  nothing that was not received.
\<close>

definition progress_ok :: "SpockApplyProgress \<Rightarrow> bool" where
  "progress_ok p \<longleftrightarrow> ap_remote_commit_lsn p \<le> ap_remote_insert_lsn p \<and> ap_remote_commit_lsn p \<le> ap_received_lsn p"

text \<open>
  Every table the processes can produce, with consistent reports: workers attach and detach, report
  through the table or through their entry (loading the file is such a report for each of its records), an added node forces
  positions (consistent or not), a worker starts up.
\<close>

inductive progress_reach :: "group_hash \<Rightarrow> bool" where
  reach_start: "progress_reach []"
| reach_attach: "progress_reach h \<Longrightarrow> spock_group_attach room d n r h = Inr (k, h') \<Longrightarrow> progress_reach h'"
| reach_detach: "progress_reach h \<Longrightarrow> progress_reach (snd (spock_group_detach g h))"
| reach_report: "progress_reach h \<Longrightarrow> progress_ok sap \<Longrightarrow>
    spock_group_progress_update room sap (Some h) = (b, Some h') \<Longrightarrow> progress_reach h'"
| reach_report_ptr: "progress_reach h \<Longrightarrow> progress_ok sap \<Longrightarrow>
    progress_reach (spock_group_progress_update_ptr k sap h)"
| reach_force: "progress_reach h \<Longrightarrow> progress_reach (force_set_one room sap h)"
| reach_init: "progress_reach h \<Longrightarrow>
    spock_init_progress_state room c next_xid k lsn (Some h) = Some h' \<Longrightarrow> progress_reach h'"

definition group_ok :: "group_hash \<Rightarrow> bool" where
  "group_ok h \<longleftrightarrow> hash_wf h \<and>
     (\<forall>k e. hash_find h k = Some e \<longrightarrow> ap_key (ge_progress e) = k \<and> progress_ok (ge_progress e))"

lemma group_ok_put:
  "group_ok h \<Longrightarrow> ap_key (ge_progress e) = k \<Longrightarrow> progress_ok (ge_progress e) \<Longrightarrow> group_ok (hash_put k e h)"
  by (auto simp: group_ok_def hash_simps)

lemma group_ok_find:
  "group_ok h \<Longrightarrow> hash_find h k = Some e \<Longrightarrow> ap_key (ge_progress e) = k \<and> progress_ok (ge_progress e)"
  by (simp add: group_ok_def)

lemma group_ok_enter:
  "group_ok h \<Longrightarrow> group_enter room k h = Some (e, f) \<Longrightarrow>
   ap_key (ge_progress e) = k \<and> progress_ok (ge_progress e)"
  by (auto simp: group_enter_def new_entry_def zero_progress_def spock_init_progress_fields_def progress_ok_def
      split: option.splits if_splits dest: group_ok_find)

lemma progress_ok_update: "progress_ok p \<Longrightarrow> progress_ok s \<Longrightarrow> progress_ok (progress_update_struct p s)"
  by (auto simp: progress_ok_def progress_simps max_def intro: order_trans)

lemma progress_ok_force: "progress_ok (force_progress sap)" "ap_key (force_progress sap) = ap_key sap"
  by (auto simp: progress_ok_def force_progress_def Let_def)

lemma progress_ok_reset: "progress_ok (reset_to_origin lsn p)" "ap_key (reset_to_origin lsn p) = ap_key p"
  by (auto simp: progress_ok_def reset_to_origin_def Let_def)

lemma progress_ok_recover:
  "progress_ok (recover_progress_timestamps_from_commit_ts c x orig p) = progress_ok p"
  "ap_key (recover_progress_timestamps_from_commit_ts c x orig p) = ap_key p"
  by (auto simp: recover_progress_timestamps_from_commit_ts_def progress_ok_def split: prod.splits)

lemma progress_ok_same: "progress_ok (p\<lparr>ap_remote_commit_lsn := lsn, ap_remote_insert_lsn := lsn, ap_received_lsn := lsn\<rparr>)"
  by (simp add: progress_ok_def)

lemma recover_lsn:
  "ap_remote_commit_lsn (recover_progress_timestamps_from_commit_ts c x orig p) = ap_remote_commit_lsn p"
  by (auto simp: recover_progress_timestamps_from_commit_ts_def split: prod.splits)

lemma group_ok_reconcile:
  assumes "group_ok h" "reconcile_progress_with_origin room k lsn (Some h) = (r, Some h')"
  shows "group_ok h'"
  using assms group_ok_enter [OF assms(1), of room k]
  by (auto simp: reconcile_progress_with_origin_def Let_def progress_ok_reset progress_ok_same
      split: option.splits if_splits intro!: group_ok_put)

lemma reconcile_Some: "\<exists>r h'. reconcile_progress_with_origin room k lsn (Some h) = (r, Some h')"
  by (auto simp: reconcile_progress_with_origin_def Let_def split: option.splits)

lemma group_ok_init:
  assumes "group_ok h" "spock_init_progress_state room c x k lsn (Some h) = Some h'"
  shows "group_ok h'"
proof -
  obtain r h1 where rec: "reconcile_progress_with_origin room k lsn (Some h) = (r, Some h1)"
    using reconcile_Some by blast
  have "group_ok h1" using assms(1) rec by (rule group_ok_reconcile)
  with assms(2) rec show ?thesis
    by (auto simp: spock_init_progress_state_def progress_ok_recover
        split: if_splits option.splits intro!: group_ok_put dest: group_ok_find)
qed

lemma progress_reach_ok: "progress_reach h \<Longrightarrow> group_ok h"
proof (induction rule: progress_reach.induct)
  case reach_start
  show ?case by (simp add: group_ok_def hash_simps)
next
  case (reach_attach h room d n r k h')
  then show ?case
    by (auto simp: spock_group_attach_def Let_def split: option.splits intro!: group_ok_put
        dest: group_ok_enter)
next
  case (reach_detach h g)
  then show ?case
    by (auto simp: spock_group_detach_def split: option.splits intro!: group_ok_put dest: group_ok_find)
next
  case (reach_report h sap room b h')
  then show ?case
    by (auto simp: spock_group_progress_update_def progress_simps split: option.splits
        intro!: group_ok_put progress_ok_update dest: group_ok_enter)
next
  case (reach_report_ptr h sap k)
  then show ?case
    by (auto simp: spock_group_progress_update_ptr_def progress_simps split: option.splits
        intro!: group_ok_put progress_ok_update dest: group_ok_find)
next
  case (reach_force h room sap)
  then show ?case
    by (auto simp: force_set_one_def progress_ok_force split: option.splits intro!: group_ok_put)
qed (rule group_ok_init)

text \<open>
  C5: The table of groups stays consistent.  Whatever the processes do, every entry is filed under its own
  key once, and its commit position is covered by both its insert position and its received position, as
  long as the reports of the workers are consistent; positions forced from a peer and positions taken from
  the origin are made so.
\<close>

theorem progress_always_consistent:
  assumes "progress_reach h" "hash_find h k = Some e"
  shows "hash_wf h \<and> ap_key (ge_progress e) = k \<and>
    ap_remote_commit_lsn (ge_progress e) \<le> ap_remote_insert_lsn (ge_progress e) \<and>
    ap_remote_commit_lsn (ge_progress e) \<le> ap_received_lsn (ge_progress e)"
  using progress_reach_ok [OF assms(1)] assms(2) by (auto simp: group_ok_def progress_ok_def)

theorem progress_always_consistent_witness:
  "\<exists>h e. progress_reach h \<and> hash_find h (make_key 5 1 2) = Some e \<and>
     ap_remote_commit_lsn (ge_progress e) = 300 \<and> 300 \<le> ap_remote_insert_lsn (ge_progress e)"
proof -
  let ?sap = "demo_progress 10 300 120"
  let ?h = "force_set_one (\<lambda>_. True) ?sap []"
  have r: "progress_reach ?h" by (rule reach_force reach_start)+
  have f: "hash_find ?h (make_key 5 1 2) = Some \<lparr>ge_progress = force_progress ?sap, ge_nattached = 0\<rparr>"
    by (simp add: force_set_one_def group_enter_def hash_simps new_entry_def demo_progress_def)
  have "ap_remote_commit_lsn (force_progress ?sap) = 300"
    by (simp add: force_progress_def demo_progress_def)
  with progress_always_consistent [OF r f] r f show ?thesis by auto
qed

text \<open>
  A worker that starts takes the position of its replication origin: afterwards its entry exists, its
  commit position is the origin's, and the insert and received positions are not behind it.  When the
  entry already had that position it is kept as it was, times included.
\<close>

theorem init_takes_origin_position:
  assumes "room h \<or> hash_find h k \<noteq> None" "progress_reach h"
  shows "\<exists>h' e'. spock_init_progress_state room c next_xid k lsn (Some h) = Some h' \<and> hash_find h' k = Some e' \<and>
    ap_remote_commit_lsn (ge_progress e') = lsn \<and> lsn \<le> ap_remote_insert_lsn (ge_progress e') \<and>
    lsn \<le> ap_received_lsn (ge_progress e') \<and>
    (\<forall>e. hash_find h k = Some e \<longrightarrow> ap_remote_commit_lsn (ge_progress e) = lsn \<longrightarrow> h' = h \<and> e' = e)"
proof -
  have ok: "group_ok h" using assms(2) by (rule progress_reach_ok)
  obtain r h1 where rec: "reconcile_progress_with_origin room k lsn (Some h) = (r, Some h1)"
    using reconcile_Some by blast
  obtain e1 where e1: "hash_find h1 k = Some e1" "ap_remote_commit_lsn (ge_progress e1) = lsn"
    using rec assms(1)
    by (auto simp: reconcile_progress_with_origin_def group_enter_def Let_def hash_simps reset_to_origin_def
        split: option.splits if_splits)
  have sync: "h1 = h \<and> r = RECONCILE_FILE_IN_SYNC"
    if "hash_find h k = Some e" "ap_remote_commit_lsn (ge_progress e) = lsn" for e
    using rec that by (auto simp: reconcile_progress_with_origin_def group_enter_def Let_def)
  define e2 where "e2 = e1\<lparr>ge_progress :=
    recover_progress_timestamps_from_commit_ts c next_xid (ucast (gk_remote_node_id k)) (ge_progress e1)\<rparr>"
  define h' where "h' = (if r = RECONCILE_FILE_IN_SYNC \<or> lsn = 0 then h1 else hash_put k e2 h1)"
  define e' where "e' = (if r = RECONCILE_FILE_IN_SYNC \<or> lsn = 0 then e1 else e2)"
  have st: "spock_init_progress_state room c next_xid k lsn (Some h) = Some h'"
    "hash_find h' k = Some e'" "ap_remote_commit_lsn (ge_progress e') = lsn"
    using rec e1
    by (simp_all add: spock_init_progress_state_def hash_simps recover_lsn h'_def e'_def e2_def)
  have same: "r = RECONCILE_FILE_IN_SYNC \<longrightarrow> h' = h1" by (simp add: h'_def)
  have "group_ok h'" using ok st(1) by (rule group_ok_init)
  from group_ok_find [OF this st(2)] st same sync e1 show ?thesis
    by (auto simp: progress_ok_def)
qed

theorem init_takes_origin_position_witness:
  "\<exists>h' e'. spock_init_progress_state (\<lambda>_. True) demo_commit_ts 6 (make_key 5 1 2) 400 (Some []) = Some h' \<and>
     hash_find h' (make_key 5 1 2) = Some e' \<and> ap_remote_commit_lsn (ge_progress e') = 400"
  using init_takes_origin_position [of "\<lambda>_. True" "[]" "make_key 5 1 2" demo_commit_ts 6 400] reach_start
  by blast

end
