(* ===== verification/Spock_Manager.thy ===== *)
theory Spock_Manager
  imports Spock_Worker
begin

text \<open>
  The supervisor and the managers (\<open>src/spock_manager.c\<close>, \<open>start_manager_workers\<close> and
  \<open>spock_supervisor_on_exit\<close> of \<open>src/spock.c\<close>): which workers are registered, restarted and killed.
  Registration is a parameter \<open>register\<close> here; the locale \<open>registrar\<close> states what its callers rely on and
  is interpreted with the registry of \<open>Spock_Worker\<close>.
\<close>

section \<open>The manager of a database\<close>

definition SPOCK_RESTART_MIN_DELAY :: int where
  "SPOCK_RESTART_MIN_DELAY = 1"

text \<open>The time, and PostgreSQL's arithmetic on it.\<close>

record manager_clock =
  mc_now :: TimestampTz
  mc_plus_ms :: "TimestampTz \<Rightarrow> uint32 \<Rightarrow> TimestampTz"
  mc_diff_ms :: "TimestampTz \<Rightarrow> TimestampTz \<Rightarrow> int"

text \<open>Look for the worker of a subscription in the list of slots, and take it out of the list.\<close>

fun take_worker :: "SpockContext \<Rightarrow> Oid \<Rightarrow> nat list \<Rightarrow> nat option \<times> nat list" where
  "take_worker ctx subid [] = (None, [])"
| "take_worker ctx subid (i # is) =
     (if aw_subid (w_apply (ctx_workers ctx ! i)) = subid then (Some i, is)
      else (let (r, rest) = take_worker ctx subid is in (r, i # rest)))"

text \<open>The milliseconds until the worker of this slot may be started again, if it has to wait.\<close>

definition restart_wait :: "manager_clock \<Rightarrow> SpockWorker \<Rightarrow> int option" where
  "restart_wait mc w =
     (if w_terminated_at w \<noteq> 0 then
        (let restart_time = mc_plus_ms mc (w_terminated_at w) (w_restart_delay w) in
         if \<not> ts_less restart_time (mc_now mc) then Some (mc_diff_ms mc (mc_now mc) restart_time) else None)
      else None)"

text \<open>
  The loop over the subscriptions, each with its id and whether it is enabled: the slots left over, the
  time to sleep, and the subscriptions that need a worker.
\<close>

fun check_subscriptions ::
  "manager_clock \<Rightarrow> SpockContext \<Rightarrow> (Oid \<times> bool) list \<Rightarrow> nat list \<Rightarrow> int \<Rightarrow> nat list \<times> int \<times> Oid list" where
  "check_subscriptions mc ctx [] workers ret = (workers, ret, [])"
| "check_subscriptions mc ctx ((subid, enabled) # subs) workers ret =
     (if \<not> enabled then check_subscriptions mc ctx subs workers ret
      else
        let (apply, workers') = take_worker ctx subid workers in
        if spock_worker_running apply ctx then check_subscriptions mc ctx subs workers' ret
        else (case (case apply of None \<Rightarrow> None | Some i \<Rightarrow> restart_wait mc (ctx_workers ctx ! i)) of
                Some delay \<Rightarrow> check_subscriptions mc ctx subs workers' (if delay < ret then delay else ret)
              | None \<Rightarrow> (let (ws, r, start) = check_subscriptions mc ctx subs workers' ret
                         in (ws, r, subid # start))))"

definition new_apply_worker :: "Oid \<Rightarrow> Oid \<Rightarrow> SpockWorker" where
  "new_apply_worker dboid subid = zero_worker\<lparr>w_worker_type := SPOCK_WORKER_APPLY, w_dboid := dboid,
     w_apply := zero_apply_worker\<lparr>aw_subid := subid, aw_sync_pending := True, aw_replay_stop_lsn := InvalidXLogRecPtr\<rparr>\<rparr>"

text \<open>
  Register one worker after the other.  An error of a registration ends the manager, as does its exit
  when it is told to terminate; a registration that does not return leaves the manager waiting.
\<close>

fun register_all ::
  "(SpockWorker \<Rightarrow> SpockContext \<Rightarrow> register_result \<times> SpockContext) \<Rightarrow> SpockWorker list \<Rightarrow> SpockContext
     \<Rightarrow> register_result option \<times> SpockContext" where
  "register_all register [] ctx = (None, ctx)"
| "register_all register (w # ws) ctx =
     (case register w ctx of
        (Registered _, ctx') \<Rightarrow> register_all register ws ctx'
      | (r, ctx') \<Rightarrow> (Some r, ctx'))"

text \<open>The slots that no enabled subscription claimed: kill the worker, forget the crash.\<close>

fun kill_remaining :: "nat list \<Rightarrow> SpockContext \<Rightarrow> worker_signal list \<times> SpockContext" where
  "kill_remaining [] ctx = ([], ctx)"
| "kill_remaining (i # is) ctx =
     (let s = spock_worker_kill (Some i) ctx;
          (ss, ctx') = kill_remaining is (clean_slot i ctx)
      in (s @ ss, ctx'))"

text \<open>
  \<open>manage_apply_workers\<close>.  \<open>subscriptions\<close> is \<^const>\<open>None\<close> when there is no local node, and then the manager
  exits.  The result is the time to sleep, or why the function did not return.
\<close>

datatype manager_stop = Manager_exit | Manager_stopped register_result

definition manage_apply_workers ::
  "(SpockWorker \<Rightarrow> SpockContext \<Rightarrow> register_result \<times> SpockContext) \<Rightarrow> manager_clock \<Rightarrow> uint32 \<Rightarrow> Oid
     \<Rightarrow> (Oid \<times> bool) list option \<Rightarrow> SpockContext \<Rightarrow> (manager_stop + int) \<times> worker_signal list \<times> SpockContext" where
  "manage_apply_workers register mc restart_delay_default dboid subscriptions ctx =
     (case subscriptions of
        None \<Rightarrow> (Inl Manager_exit, [], ctx)
      | Some subs \<Rightarrow>
          let (workers, ret, subs_to_start) =
                check_subscriptions mc ctx subs (spock_apply_find_all dboid ctx) (uint restart_delay_default)
          in (case register_all register (map (new_apply_worker dboid) subs_to_start) ctx of
                (Some r, ctx') \<Rightarrow> (Inl (Manager_stopped r), [], ctx')
              | (None, ctx') \<Rightarrow>
                  (let (signals, ctx'') = kill_remaining workers ctx'
                   in (Inr (max ret SPOCK_RESTART_MIN_DELAY), signals, ctx''))))"

section \<open>The supervisor\<close>

text \<open>
  A row of \<open>pg_database\<close>: its oid, whether it allows connections, and what the second look at it finds
  (whether it allows connections and its connection limit), \<^const>\<open>None\<close> if it is gone.
\<close>

record pg_database =
  pd_oid :: Oid
  pd_datallowconn :: bool
  pd_revalidated :: "(bool \<times> int) option"

definition db_connectable :: "pg_database \<Rightarrow> bool" where
  "db_connectable d = (case pd_revalidated d of None \<Rightarrow> False | Some (allow, lim) \<Rightarrow> allow \<and> lim \<noteq> -2)"

definition new_manager_worker :: "Oid \<Rightarrow> SpockWorker" where
  "new_manager_worker dboid = zero_worker\<lparr>w_worker_type := SPOCK_WORKER_MANAGER, w_dboid := dboid\<rparr>"

fun start_manager_workers ::
  "(SpockWorker \<Rightarrow> SpockContext \<Rightarrow> register_result \<times> SpockContext) \<Rightarrow> pg_database list \<Rightarrow> SpockContext
     \<Rightarrow> register_result option \<times> SpockContext" where
  "start_manager_workers register [] ctx = (None, ctx)"
| "start_manager_workers register (d # ds) ctx =
     (if \<not> pd_datallowconn d then start_manager_workers register ds ctx
      else if spock_worker_running (spock_manager_find (pd_oid d) ctx) ctx then start_manager_workers register ds ctx
      else if \<not> db_connectable d then start_manager_workers register ds ctx
      else (case register (new_manager_worker (pd_oid d)) ctx of
              (Registered _, ctx') \<Rightarrow> start_manager_workers register ds ctx'
            | (r, ctx') \<Rightarrow> (Some r, ctx')))"

definition SPOCK_SHUTDOWN_DRAIN_MAX_RETRIES :: nat where
  "SPOCK_SHUTDOWN_DRAIN_MAX_RETRIES = 50"

text \<open>
  The drain of the shutdown: how often it sleeps.  \<open>running k\<close> tells what the test for running workers
  answers after \<open>k\<close> sleeps.
\<close>

fun drain_sleeps :: "nat \<Rightarrow> (nat \<Rightarrow> bool) \<Rightarrow> nat \<Rightarrow> nat" where
  "drain_sleeps 0 running k = k"
| "drain_sleeps (Suc retries) running k = (if running k then drain_sleeps retries running (Suc k) else k)"

record shutdown_result =
  sh_sleeps :: nat
  sh_timed_out :: bool
  sh_file :: "group_error + resource_file option"
  sh_records :: "SpockResourceDumpRec list"

text \<open>\<open>shmem k\<close> is the table of groups after \<open>k\<close> sleeps.  An error of the dump leaves no records.\<close>

definition spock_supervisor_on_exit ::
  "int \<Rightarrow> uint64 \<Rightarrow> (nat \<Rightarrow> bool) \<Rightarrow> (nat \<Rightarrow> group_hash option) \<Rightarrow> shutdown_result option" where
  "spock_supervisor_on_exit code sysid running shmem =
     (if code \<noteq> 0 then None
      else
        let k = drain_sleeps SPOCK_SHUTDOWN_DRAIN_MAX_RETRIES running 0;
            file = spock_group_resource_dump sysid (shmem k)
        in Some \<lparr>sh_sleeps = k, sh_timed_out = running k, sh_file = file,
             sh_records = (case file of
                Inl _ \<Rightarrow> []
              | Inr _ \<Rightarrow> fst (spock_rmgr_log_resource_dump SPOCK_DUMP_SHUTDOWN [] (shmem k)))\<rparr>)"

section \<open>What the callers of a registration rely on\<close>

text \<open>An unused slot and the slot of a crashed worker have no process.\<close>

definition slots_ok :: "SpockContext \<Rightarrow> bool" where
  "slots_ok ctx \<longleftrightarrow> (\<forall>w\<in>set (ctx_workers ctx).
     w_worker_type w = SPOCK_WORKER_NONE \<or> w_terminated_at w \<noteq> 0 \<longrightarrow> w_proc w = None)"

definition same_job :: "SpockWorker \<Rightarrow> SpockWorker \<Rightarrow> bool" where
  "same_job v w \<longleftrightarrow> w_worker_type v = w_worker_type w \<and> w_dboid v = w_dboid w \<and>
     aw_subid (w_apply v) = aw_subid (w_apply w)"

definition runs_job :: "(SpockWorker \<Rightarrow> bool) \<Rightarrow> SpockContext \<Rightarrow> bool" where
  "runs_job P ctx \<longleftrightarrow> (\<exists>w\<in>set (ctx_workers ctx). P w \<and> w_proc w \<noteq> None)"

lemma runs_job_mono: "runs_job P ctx \<Longrightarrow> (\<And>w. P w \<Longrightarrow> Q w) \<Longrightarrow> runs_job Q ctx"
  by (auto simp: runs_job_def)

locale registrar =
  fixes register :: "SpockWorker \<Rightarrow> SpockContext \<Rightarrow> register_result \<times> SpockContext"
  assumes registered_ok: "slots_ok ctx \<Longrightarrow> w_worker_type w \<noteq> SPOCK_WORKER_NONE \<Longrightarrow>
      register w ctx = (Registered slot, ctx') \<Longrightarrow> slots_ok ctx'"
    and registered_runs: "slots_ok ctx \<Longrightarrow> w_worker_type w \<noteq> SPOCK_WORKER_NONE \<Longrightarrow>
      register w ctx = (Registered slot, ctx') \<Longrightarrow> runs_job (same_job w) ctx'"
    and registered_keeps: "slots_ok ctx \<Longrightarrow> register w ctx = (Registered slot, ctx') \<Longrightarrow>
      v \<in> set (ctx_workers ctx) \<Longrightarrow> w_proc v \<noteq> None \<Longrightarrow> v \<in> set (ctx_workers ctx')"
begin

lemma registered_keeps_jobs:
  "slots_ok ctx \<Longrightarrow> register w ctx = (Registered slot, ctx') \<Longrightarrow> runs_job P ctx \<Longrightarrow> runs_job P ctx'"
  by (auto simp: runs_job_def dest: registered_keeps)

lemma register_all_ok:
  assumes "register_all register ws ctx = (None, ctx')" "slots_ok ctx"
    "\<forall>w\<in>set ws. w_worker_type w \<noteq> SPOCK_WORKER_NONE"
  shows "slots_ok ctx' \<and> (\<forall>w\<in>set ws. runs_job (same_job w) ctx') \<and> (\<forall>P. runs_job P ctx \<longrightarrow> runs_job P ctx')"
  using assms
proof (induction ws arbitrary: ctx)
  case (Cons w ws)
  then obtain slot ctx1 where r: "register w ctx = (Registered slot, ctx1)"
    and rest: "register_all register ws ctx1 = (None, ctx')"
    by (auto split: prod.splits register_result.splits)
  have "slots_ok ctx1" "runs_job (same_job w) ctx1"
    using registered_ok [OF _ _ r] registered_runs [OF _ _ r] Cons.prems by auto
  with Cons.IH [OF rest] Cons.prems registered_keeps_jobs [OF _ r] show ?case by auto
qed simp

lemma start_managers_ok:
  assumes "start_manager_workers register ds ctx = (None, ctx')" "slots_ok ctx"
  shows "(\<forall>P. runs_job P ctx \<longrightarrow> runs_job P ctx') \<and>
    (\<forall>d\<in>set ds. pd_datallowconn d \<and> db_connectable d \<longrightarrow>
       runs_job (\<lambda>w. w_worker_type w = SPOCK_WORKER_MANAGER \<and> pd_oid d = w_dboid w) ctx')"
  using assms
proof (induction ds arbitrary: ctx)
  case (Cons d ds)
  let ?P = "\<lambda>w. w_worker_type w = SPOCK_WORKER_MANAGER \<and> pd_oid d = w_dboid w"
  consider (skip) "\<not> (pd_datallowconn d \<and> db_connectable d)" "start_manager_workers register ds ctx = (None, ctx')"
    | (running) "spock_worker_running (spock_manager_find (pd_oid d) ctx) ctx"
        "start_manager_workers register ds ctx = (None, ctx')"
    | (fresh) slot ctx1 where "register (new_manager_worker (pd_oid d)) ctx = (Registered slot, ctx1)"
        "start_manager_workers register ds ctx1 = (None, ctx')"
    using Cons.prems(1) by (auto split: if_splits prod.splits register_result.splits)
  then show ?case
  proof cases
    case skip
    with Cons show ?thesis by auto
  next
    case running
    then have "runs_job ?P ctx"
      by (auto simp: spock_worker_running_def spock_manager_find_def first_slot_Some runs_job_def
          split: option.splits)
    with Cons.IH [OF running(2) Cons.prems(2)] show ?thesis by auto
  next
    case fresh
    have "slots_ok ctx1" "runs_job (same_job (new_manager_worker (pd_oid d))) ctx1"
      using registered_ok [OF Cons.prems(2) _ fresh(1)] registered_runs [OF Cons.prems(2) _ fresh(1)]
      by (simp_all add: new_manager_worker_def)
    moreover from this(2) have "runs_job ?P ctx1"
      by (rule runs_job_mono) (simp add: same_job_def new_manager_worker_def)
    ultimately show ?thesis
      using Cons.IH [OF fresh(2)] registered_keeps_jobs [OF Cons.prems(2) fresh(1)] by auto
  qed
qed simp

end

section \<open>The registry is such a registrar\<close>

text \<open>
  The registration as a caller sees it that is not delayed: the launched process (\<open>p slot\<close> in the slot)
  attaches before the first turn of the waiting loop.
\<close>

definition prompt_register ::
  "uint32 \<Rightarrow> TimestampTz \<Rightarrow> (nat \<Rightarrow> PGPROC) \<Rightarrow> SpockWorker \<Rightarrow> SpockContext \<Rightarrow> register_result \<times> SpockContext" where
  "prompt_register d now p w ctx =
     (let slot = (case find_empty_worker_slot (w_dboid w) ctx of None \<Rightarrow> 0 | Some i \<Rightarrow> i) in
      spock_worker_register d True now
        [\<lparr>sp_world = (\<lambda>c. snd (spock_worker_attach slot (p slot) c)), sp_sigterm = False,
          sp_status = BGWH_STARTED, sp_now = now\<rparr>] w ctx)"

lemma prompt_register_Registered:
  assumes "prompt_register d now p w ctx = (Registered slot, ctx')"
  shows "slot < length (ctx_workers ctx) \<and> slot_empty_for (w_dboid w) (ctx_workers ctx ! slot) \<and>
    (\<exists>v. ctx_workers ctx' = (ctx_workers ctx)[slot := v] \<and> same_job w v \<and> w_terminated_at v = 0 \<and>
       w_proc v = Some (p slot) \<and> find_empty_worker_slot (w_dboid w) ctx = Some slot)"
proof (cases "find_empty_worker_slot (w_dboid w) ctx")
  case None
  then show ?thesis using assms by (simp add: prompt_register_def spock_worker_register_def reserve_slot_def)
next
  case (Some i)
  then have i: "i < length (ctx_workers ctx)" "slot_empty_for (w_dboid w) (ctx_workers ctx ! i)"
    by (auto simp: find_empty_worker_slot_def first_slot_Some)
  with Some assms show ?thesis
    by (auto simp: prompt_register_def spock_worker_register_def reserve_slot_def Let_def spock_worker_attach_def
        spock_worker_running_def same_job_def)
qed

lemma slots_ok_update:
  "slots_ok ctx \<Longrightarrow> ctx_workers ctx' = (ctx_workers ctx)[i := v] \<Longrightarrow>
   (w_worker_type v = SPOCK_WORKER_NONE \<or> w_terminated_at v \<noteq> 0 \<longrightarrow> w_proc v = None) \<Longrightarrow> slots_ok ctx'"
  by (auto simp: slots_ok_def dest!: set_update_subset_insert [THEN subsetD])

lemma set_update_keep: "x \<in> set xs \<Longrightarrow> x \<noteq> xs ! i \<Longrightarrow> x \<in> set (xs[i := v])"
  by (metis in_set_conv_nth length_list_update nth_list_update_neq)

interpretation prompt: registrar "prompt_register d now p" for d now p
proof
  fix ctx w slot ctx'
  assume ok: "slots_ok ctx" and r: "prompt_register d now p w ctx = (Registered slot, ctx')"
  note R = prompt_register_Registered [OF r]
  from R obtain v where v: "ctx_workers ctx' = (ctx_workers ctx)[slot := v]" "same_job w v"
    "w_terminated_at v = 0" "w_proc v = Some (p slot)" and slot: "slot < length (ctx_workers ctx)" by blast
  from R ok have free: "w_proc (ctx_workers ctx ! slot) = None"
    by (auto simp: slots_ok_def slot_empty_for_def)
  { assume "w_worker_type w \<noteq> SPOCK_WORKER_NONE"
    then show "slots_ok ctx'" using slots_ok_update [OF ok v(1)] v(2,3) by (simp add: same_job_def) }
  { assume "w_worker_type w \<noteq> SPOCK_WORKER_NONE"
    show "runs_job (same_job w) ctx'"
      using v slot set_update_memI [OF slot, of v] by (auto simp: runs_job_def) }
  fix u assume "u \<in> set (ctx_workers ctx)" "w_proc u \<noteq> None"
  with free show "u \<in> set (ctx_workers ctx')" unfolding v(1) by (intro set_update_keep) auto
qed

lemma prompt_register_all_length:
  "register_all (prompt_register d now p) ws ctx = (None, ctx') \<Longrightarrow>
   length (ctx_workers ctx') = length (ctx_workers ctx)"
  by (induction ws arbitrary: ctx)
    (auto split: prod.splits register_result.splits dest!: prompt_register_Registered)

section \<open>What the manager achieves\<close>

lemma take_worker_sound:
  assumes "take_worker ctx subid ws = (r, rest)"
  shows "set rest \<subseteq> set ws \<and> (\<forall>i. r = Some i \<longrightarrow> i \<in> set ws \<and> aw_subid (w_apply (ctx_workers ctx ! i)) = subid)"
  using assms by (induction ws arbitrary: r rest) (auto split: if_splits prod.splits)

lemma check_subscriptions_covers:
  assumes "check_subscriptions mc ctx subs ws ret = (rest, ret', start)" "(subid, True) \<in> set subs"
    "set ws \<subseteq> set (spock_apply_find_all dboid ctx)"
  shows "runs_job (apply_of dboid subid) ctx \<or>
    (\<exists>w\<in>set (ctx_workers ctx). apply_of dboid subid w \<and> restart_wait mc w \<noteq> None) \<or> subid \<in> set start"
  using assms
proof (induction subs arbitrary: ws ret rest ret' start)
  case (Cons s subs)
  obtain i en where s: "s = (i, en)" by (cases s)
  obtain r ws' where tw: "take_worker ctx i ws = (r, ws')" by (cases "take_worker ctx i ws")
  have sub: "set ws' \<subseteq> set (spock_apply_find_all dboid ctx)"
    using take_worker_sound [OF tw] Cons.prems(3) by auto
  have own: "\<exists>w\<in>set (ctx_workers ctx). apply_of dboid i w \<and> w = ctx_workers ctx ! k" if "r = Some k" for k
    using take_worker_sound [OF tw] that Cons.prems(3)
    by (auto simp: spock_apply_find_all_def set_all_slots apply_of_def)
  have rec: "\<exists>ws1 ret1 st. ws1 \<in> {ws, ws'} \<and> check_subscriptions mc ctx subs ws1 ret1 = (rest, ret', st) \<and>
      set st \<subseteq> set start"
    using Cons.prems(1) tw s by (fastforce simp: Let_def split: if_splits option.splits prod.splits)
  show ?case
  proof (cases "(subid, True) \<in> set subs")
    case True
    with rec Cons.IH Cons.prems(3) sub show ?thesis by blast
  next
    case False
    with Cons.prems(2) have "i = subid" "en" by (auto simp: s)
    with Cons.prems(1) tw own show ?thesis
      by (auto simp: s Let_def runs_job_def spock_worker_running_def split: if_splits option.splits prod.splits)
  qed
qed simp

lemma clean_slot_keeps:
  assumes "slots_ok ctx" "i < length (ctx_workers ctx)"
  shows "slots_ok (clean_slot i ctx) \<and> (runs_job P ctx \<longrightarrow> runs_job P (clean_slot i ctx))"
proof (cases "w_terminated_at (ctx_workers ctx ! i) = 0")
  case True
  then show ?thesis using assms by (simp add: clean_slot_def)
next
  case False
  then have "w_proc (ctx_workers ctx ! i) = None" using assms by (auto simp: slots_ok_def)
  moreover have "ctx_workers (clean_slot i ctx) = (ctx_workers ctx)[i := (ctx_workers ctx ! i)
      \<lparr>w_worker_type := SPOCK_WORKER_NONE, w_terminated_at := 0\<rparr>]"
    using False by (simp add: clean_slot_def)
  ultimately show ?thesis
    using slots_ok_update [OF assms(1)] by (auto simp: runs_job_def intro!: bexI set_update_keep)
qed

lemma kill_remaining_keeps:
  assumes "kill_remaining ws ctx = (sg, ctx')" "slots_ok ctx" "\<forall>i\<in>set ws. i < length (ctx_workers ctx)"
    "runs_job P ctx"
  shows "runs_job P ctx'"
  using assms
proof (induction ws arbitrary: ctx sg)
  case (Cons i ws)
  have "length (ctx_workers (clean_slot i ctx)) = length (ctx_workers ctx)" by (simp add: clean_slot_def)
  with Cons clean_slot_keeps [of ctx i P] show ?case by (auto simp: Let_def split: prod.splits)
qed simp

lemma check_subscriptions_ret:
  "check_subscriptions mc ctx subs ws ret = (rest, ret', start) \<Longrightarrow> ret' \<le> ret \<and> set rest \<subseteq> set ws"
proof (induction subs arbitrary: ws ret rest ret' start)
  case (Cons s subs)
  obtain i en where s: "s = (i, en)" by (cases s)
  obtain r ws' where tw: "take_worker ctx i ws = (r, ws')" by (cases "take_worker ctx i ws")
  have ws': "set ws' \<subseteq> set ws" using take_worker_sound [OF tw] by blast
  have "\<exists>ws1 ret1 st. set ws1 \<subseteq> set ws \<and> ret1 \<le> ret \<and> check_subscriptions mc ctx subs ws1 ret1 = (rest, ret', st)"
  proof (cases "en \<and> \<not> spock_worker_running r ctx")
    case False
    with Cons.prems tw s ws' show ?thesis by (auto simp: Let_def split: if_splits)
  next
    case True
    show ?thesis
    proof (cases "case r of None \<Rightarrow> None | Some i \<Rightarrow> restart_wait mc (ctx_workers ctx ! i)")
      case None
      with True Cons.prems tw s ws' show ?thesis by (auto simp: Let_def split: prod.splits)
    next
      case (Some delay)
      with True Cons.prems tw s
      have "check_subscriptions mc ctx subs ws' (if delay < ret then delay else ret) = (rest, ret', start)"
        by (simp add: Let_def)
      moreover have "(if delay < ret then delay else ret) \<le> ret" by simp
      ultimately show ?thesis using ws' by blast
    qed
  qed
  then obtain ws1 ret1 st where "set ws1 \<subseteq> set ws" "ret1 \<le> ret"
    "check_subscriptions mc ctx subs ws1 ret1 = (rest, ret', st)" by blast
  with Cons.IH [of ws1 ret1 rest ret' st] show ?case by auto
qed simp


definition demo_clock :: manager_clock where
  "demo_clock = \<lparr>mc_now = 100, mc_plus_ms = (\<lambda>t ms. t + 1000 * ucast ms),
     mc_diff_ms = (\<lambda>a b. (sint b - sint a) div 1000)\<rparr>"


lemma kill_remaining_kills:
  assumes "i \<in> set ws" "w_proc (ctx_workers ctx ! i) = Some q" "w_terminated_at (ctx_workers ctx ! i) = 0"
    "kill_remaining ws ctx = (sg, ctx')"
  shows "Kill q \<in> set sg"
  using assms
proof (induction ws arbitrary: ctx sg)
  case (Cons j ws)
  obtain ss where ss: "kill_remaining ws (clean_slot j ctx) = (ss, ctx')" "set ss \<subseteq> set sg"
    "j = i \<longrightarrow> Kill q \<in> set sg"
    using Cons.prems(2,4) by (auto simp: Let_def spock_worker_kill_def split: prod.splits)
  have "ctx_workers (clean_slot j ctx) ! i = ctx_workers ctx ! i" if "j \<noteq> i"
    using that by (simp add: clean_slot_def)
  with Cons.IH [OF _ _ _ ss(1)] Cons.prems ss show ?case by (cases "j = i") auto
qed simp


definition demo_crashed :: SpockContext where
  "demo_crashed = (spock_shmem_context 2)\<lparr>ctx_workers :=
     [(new_manager_worker 5)\<lparr>w_proc := Some 70\<rparr>, (new_apply_worker 5 8)\<lparr>w_terminated_at := 90\<rparr>]\<rparr>"


text \<open>The shutdown waits at most fifty times, and no longer than workers run.\<close>

lemma drain_sleeps_bound:
  "drain_sleeps r running k \<le> k + r \<and> (drain_sleeps r running k < k + r \<longrightarrow> \<not> running (drain_sleeps r running k)) \<and>
   (\<forall>j. k \<le> j \<longrightarrow> j < drain_sleeps r running k \<longrightarrow> running j)"
proof (induction r arbitrary: k)
  case (Suc r)
  from Suc.IH [of "Suc k"] show ?case by (auto simp: Suc_le_eq nat_less_le)
qed simp

end
