(* ===== verification/Spock_Replay.thy ===== *)
theory Spock_Replay
  imports Spock_Wire
begin

text \<open>
  The replay queue of the apply worker (\<open>src/spock_apply.c\<close>, \<open>apply_replay_*\<close>).  Every message of
  the transaction in progress is kept so that the transaction can be run again after an error; past
  a limit the messages go to a temporary file.  The file is PostgreSQL's \<open>BufFile\<close>, a parameter
  with the laws of a seekable file (locale \<open>buf_file\<close>).  The queue is shown to refine a plain list
  with a cursor (locale \<open>replay_fifo\<close>, its laws proved for the model by a sublocale), and its
  behaviour on file errors is stated as it is.
\<close>

section \<open>Temporary files\<close>

text \<open>
  The operations of the server that the queue uses.  A \<^const>\<open>False\<close> or \<^const>\<open>None\<close> result is an
  error raised inside the call; \<open>MaxAllocSize\<close> is the largest size that \<open>palloc\<close> accepts.
\<close>

record 'f buffile =
  BufFileCreateTemp :: "'f option"
  BufFileWrite :: "bytes \<Rightarrow> 'f \<Rightarrow> bool \<times> 'f"
  BufFileRead :: "nat \<Rightarrow> 'f \<Rightarrow> bytes \<times> 'f"
  BufFileSeekStart :: "'f \<Rightarrow> bool \<times> 'f"
  MaxAllocSize :: int

text \<open>A file is its content and a position; a write that fails has written some prefix.\<close>

locale buf_file =
  fixes io :: "'f buffile" and content :: "'f \<Rightarrow> bytes" and fpos :: "'f \<Rightarrow> nat"
  assumes create: "BufFileCreateTemp io = Some f \<Longrightarrow> content f = [] \<and> fpos f = 0"
    and write_end: "fpos f = length (content f) \<Longrightarrow> BufFileWrite io s f = (r, f') \<Longrightarrow>
      (\<exists>k \<le> length s. (r \<longrightarrow> k = length s) \<and> content f' = content f @ take k s \<and> fpos f' = length (content f'))"
    and read: "fpos f \<le> length (content f) \<Longrightarrow> BufFileRead io n f = (s, f') \<Longrightarrow>
      s = take n (drop (fpos f) (content f)) \<and> content f' = content f \<and> fpos f' = fpos f + length s"
    and seek: "BufFileSeekStart io f = (True, f') \<Longrightarrow> content f' = content f \<and> fpos f' = 0"
    and alloc_limit: "MaxAllocSize io < 2 ^ 31"

text \<open>A file on a disk that does not fail.\<close>

locale reliable_buf_file = buf_file +
  assumes create_ok: "BufFileCreateTemp io \<noteq> None"
    and write_ok: "fst (BufFileWrite io s f)"
    and seek_ok: "fst (BufFileSeekStart io f)"

section \<open>The queue\<close>

text \<open>
  \<open>rq_entries\<close> is the linked list from \<open>apply_replay_head\<close> to \<open>apply_replay_tail\<close>, \<open>rq_next\<close> the
  position in it of \<open>apply_replay_next\<close>.  The counters of the spilled records are C \<open>int\<close>s.
\<close>

record 'f replay_queue =
  rq_entries :: "bytes list"
  rq_next :: "nat option"
  rq_bytes :: uint64
  rq_mode :: bool
  rq_spill_file :: "'f option"
  rq_spilling :: bool
  rq_spill_count :: uint32
  rq_spill_read :: uint32

datatype replay_error =
    Spill_create_failed
  | Spill_write_failed
  | Spill_corrupt
  | Spill_seek_failed
  | Spill_no_file

definition apply_replay_initial :: "'f replay_queue" where
  "apply_replay_initial = \<lparr>rq_entries = [], rq_next = None, rq_bytes = 0, rq_mode = False,
     rq_spill_file = None, rq_spilling = False, rq_spill_count = 0, rq_spill_read = 0\<rparr>"

text \<open>The bytes of a C \<open>int\<close> in memory, least significant first.\<close>

definition int_bytes :: "uint32 \<Rightarrow> bytes" where
  "int_bytes w = rev (be32 w)"

definition bytes_int :: "bytes \<Rightarrow> uint32" where
  "bytes_int s = (case of_be32 (rev s) of Some (w, _) \<Rightarrow> w | None \<Rightarrow> 0)"

text \<open>
  \<open>Spill_no_file\<close> stands for the null pointer that an assertion of the source excludes; the
  invariant below shows that it does not occur.
\<close>

definition apply_replay_spill_write_entry ::
    "'f buffile \<Rightarrow> bytes \<Rightarrow> 'f replay_queue \<Rightarrow> (replay_error + unit) \<times> 'f replay_queue" where
  "apply_replay_spill_write_entry io data q =
     (let q = q\<lparr>rq_spill_count := rq_spill_count q + 1\<rparr> in
      case rq_spill_file q of
        None \<Rightarrow> (Inl Spill_no_file, q)
      | Some f \<Rightarrow>
          (case BufFileWrite io (int_bytes (word_of_nat (length data))) f of
             (False, f) \<Rightarrow> (Inl Spill_write_failed, q\<lparr>rq_spill_file := Some f\<rparr>)
           | (True, f) \<Rightarrow>
               (case BufFileWrite io data f of
                  (False, f) \<Rightarrow> (Inl Spill_write_failed, q\<lparr>rq_spill_file := Some f\<rparr>)
                | (True, f) \<Rightarrow> (Inr (), q\<lparr>rq_spill_file := Some f\<rparr>))))"

definition apply_replay_spill_read_entry ::
    "'f buffile \<Rightarrow> 'f replay_queue \<Rightarrow> (replay_error + bytes) \<times> 'f replay_queue" where
  "apply_replay_spill_read_entry io q =
     (case rq_spill_file q of
        None \<Rightarrow> (Inl Spill_no_file, q)
      | Some f \<Rightarrow>
          (case BufFileRead io 4 f of
             (s, f) \<Rightarrow>
               (let len = sint (bytes_int s) in
                if length s \<noteq> 4 \<or> len \<le> 0 \<or> len > MaxAllocSize io
                then (Inl Spill_corrupt, q\<lparr>rq_spill_file := Some f\<rparr>)
                else case BufFileRead io (nat len) f of
                       (data, f) \<Rightarrow>
                         (if int (length data) \<noteq> len then (Inl Spill_corrupt, q\<lparr>rq_spill_file := Some f\<rparr>)
                          else (Inr data, q\<lparr>rq_spill_file := Some f, rq_spill_read := rq_spill_read q + 1\<rparr>)))))"

definition apply_replay_queue_reset :: "'f replay_queue \<Rightarrow> 'f replay_queue" where
  "apply_replay_queue_reset q = q\<lparr>rq_entries := [], rq_next := None, rq_bytes := 0, rq_mode := False,
     rq_spill_file := None, rq_spilling := False, rq_spill_count := 0, rq_spill_read := 0\<rparr>"

definition apply_replay_queue_next_entry ::
    "'f buffile \<Rightarrow> 'f replay_queue \<Rightarrow> (replay_error + bytes option) \<times> 'f replay_queue" where
  "apply_replay_queue_next_entry io q =
     (case rq_next q of
        Some i \<Rightarrow> (Inr (Some (rq_entries q ! i)),
                   q\<lparr>rq_next := (if Suc i < length (rq_entries q) then Some (Suc i) else None)\<rparr>)
      | None \<Rightarrow>
          if rq_spilling q \<and> sint (rq_spill_read q) < sint (rq_spill_count q)
          then (case apply_replay_spill_read_entry io q of
                  (Inl e, q) \<Rightarrow> (Inl e, q)
                | (Inr m, q) \<Rightarrow> (Inr (Some m), q))
          else (Inr None, q\<lparr>rq_mode := False\<rparr>))"

text \<open>
  The result of appending says whether the caller has to free the entry.  \<open>limit\<close> is
  \<open>spock_replay_queue_size\<close> in megabytes.
\<close>

definition spill_starts :: "int \<Rightarrow> bytes \<Rightarrow> 'f replay_queue \<Rightarrow> bool" where
  "spill_starts limit msg q \<longleftrightarrow> \<not> rq_spilling q \<and> limit > 0 \<and>
     rq_bytes q + word_of_nat (length msg) > word_of_int (limit * 1024 * 1024)"

definition append_spilling ::
    "'f buffile \<Rightarrow> bytes \<Rightarrow> 'f replay_queue \<Rightarrow> (replay_error + bool) \<times> 'f replay_queue" where
  "append_spilling io msg q =
     (if rq_spilling q
      then (case apply_replay_spill_write_entry io msg q of
              (Inl e, q) \<Rightarrow> (Inl e, q)
            | (Inr _, q) \<Rightarrow> (Inr True, q))
      else (Inr False, q\<lparr>rq_bytes := rq_bytes q + word_of_nat (length msg),
                         rq_entries := rq_entries q @ [msg]\<rparr>))"

definition apply_replay_queue_append_entry ::
    "'f buffile \<Rightarrow> int \<Rightarrow> bytes \<Rightarrow> 'f replay_queue \<Rightarrow> (replay_error + bool) \<times> 'f replay_queue" where
  "apply_replay_queue_append_entry io limit msg q =
     (if spill_starts limit msg q
      then (case BufFileCreateTemp io of
              None \<Rightarrow> (Inl Spill_create_failed, q)
            | Some f \<Rightarrow> append_spilling io msg
                (q\<lparr>rq_spill_file := Some f, rq_spilling := True, rq_bytes := 0\<rparr>))
      else append_spilling io msg q)"

definition apply_replay_queue_start_replay ::
    "'f buffile \<Rightarrow> 'f replay_queue \<Rightarrow> (replay_error + unit) \<times> 'f replay_queue" where
  "apply_replay_queue_start_replay io q =
     (let q = q\<lparr>rq_next := (if rq_entries q = [] then None else Some 0), rq_mode := True\<rparr> in
      if rq_spilling q
      then (case rq_spill_file q of
              None \<Rightarrow> (Inl Spill_no_file, q)
            | Some f \<Rightarrow>
                (case BufFileSeekStart io f of
                   (False, f) \<Rightarrow> (Inl Spill_seek_failed, q\<lparr>rq_spill_file := Some f\<rparr>)
                 | (True, f) \<Rightarrow> (Inr (), q\<lparr>rq_spill_file := Some f, rq_spill_read := 0\<rparr>)))
      else (Inr (), q))"

section \<open>The specification: a list and a cursor\<close>

text \<open>
  What the apply worker relies on: the messages since the last reset, and while replaying those
  still to come.  The operations are commands, so that a run is a list of them; an append carries
  the limit in force, which can change between calls.
\<close>

record replay_spec =
  rs_queued :: "bytes list"
  rs_todo :: "bytes list"
  rs_replaying :: bool

datatype replay_cmd = Append int bytes | Start_replay | Next_entry | Reset

datatype replay_out = Done | Message bytes | Exhausted | Failed replay_error

fun spec_step :: "replay_cmd \<Rightarrow> replay_spec \<Rightarrow> replay_out \<times> replay_spec" where
  "spec_step (Append _ m) s = (Done, s\<lparr>rs_queued := rs_queued s @ [m]\<rparr>)"
| "spec_step Start_replay s = (Done, s\<lparr>rs_todo := rs_queued s, rs_replaying := True\<rparr>)"
| "spec_step Next_entry s =
     (case rs_todo s of
        [] \<Rightarrow> (Exhausted, s\<lparr>rs_replaying := False\<rparr>)
      | m # ms \<Rightarrow> (Message m, s\<lparr>rs_todo := ms\<rparr>))"
| "spec_step Reset s = (Done, \<lparr>rs_queued = [], rs_todo = [], rs_replaying = False\<rparr>)"

definition spec_initial :: replay_spec where
  "spec_initial = \<lparr>rs_queued = [], rs_todo = [], rs_replaying = False\<rparr>"

text \<open>
  The calls the worker makes: it appends only messages from the stream and takes entries only while
  replaying.  A message has a positive length that can be allocated, and one transaction has fewer
  than \<open>2 ^ 31\<close> messages, which the counters of the queue assume.
\<close>

fun legal :: "int \<Rightarrow> replay_cmd \<Rightarrow> replay_spec \<Rightarrow> bool" where
  "legal maxlen (Append _ m) s \<longleftrightarrow> \<not> rs_replaying s \<and> m \<noteq> [] \<and> int (length m) \<le> maxlen \<and>
     length (rs_queued s) + 1 < 2 ^ 31"
| "legal _ Start_replay s \<longleftrightarrow> True"
| "legal _ Next_entry s \<longleftrightarrow> rs_replaying s"
| "legal _ Reset s \<longleftrightarrow> True"

fun run :: "(replay_cmd \<Rightarrow> 'q \<Rightarrow> replay_out \<times> 'q) \<Rightarrow> replay_cmd list \<Rightarrow> 'q \<Rightarrow> replay_out list \<times> 'q" where
  "run step [] q = ([], q)"
| "run step (c # cmds) q =
     (case step c q of (out, q) \<Rightarrow> case run step cmds q of (outs, q) \<Rightarrow> (out # outs, q))"

fun legal_run :: "int \<Rightarrow> replay_cmd list \<Rightarrow> replay_spec \<Rightarrow> bool" where
  "legal_run maxlen [] s \<longleftrightarrow> True"
| "legal_run maxlen (c # cmds) s \<longleftrightarrow> legal maxlen c s \<and> legal_run maxlen cmds (snd (spec_step c s))"

text \<open>The same commands on the queue of the source.\<close>

fun replay_step :: "'f buffile \<Rightarrow> replay_cmd \<Rightarrow> 'f replay_queue \<Rightarrow> replay_out \<times> 'f replay_queue" where
  "replay_step io (Append limit m) q =
     (case apply_replay_queue_append_entry io limit m q of
        (Inl e, q) \<Rightarrow> (Failed e, q) | (Inr _, q) \<Rightarrow> (Done, q))"
| "replay_step io Start_replay q =
     (case apply_replay_queue_start_replay io q of
        (Inl e, q) \<Rightarrow> (Failed e, q) | (Inr _, q) \<Rightarrow> (Done, q))"
| "replay_step io Next_entry q =
     (case apply_replay_queue_next_entry io q of
        (Inl e, q) \<Rightarrow> (Failed e, q)
      | (Inr (Some m), q) \<Rightarrow> (Message m, q)
      | (Inr None, q) \<Rightarrow> (Exhausted, q))"
| "replay_step io Reset q = (Done, apply_replay_queue_reset q)"

text \<open>
  The contract of a replay queue: a call that does not fail does what the specification says.  So
  does a run without failures, and every legal run of a queue that never fails.
\<close>

definition no_failure :: "replay_out list \<Rightarrow> bool" where
  "no_failure outs \<longleftrightarrow> list_all (\<lambda>out. case out of Failed _ \<Rightarrow> False | _ \<Rightarrow> True) outs"

locale replay_fifo =
  fixes step :: "replay_cmd \<Rightarrow> 'q \<Rightarrow> replay_out \<times> 'q" and initial :: 'q and maxlen :: int
    and abs_rel :: "'q \<Rightarrow> replay_spec \<Rightarrow> bool"
  assumes initial_rel: "abs_rel initial spec_initial"
    and step_rel: "abs_rel q s \<Longrightarrow> legal maxlen c s \<Longrightarrow> step c q = (out, q') \<Longrightarrow> no_failure [out] \<Longrightarrow>
      out = fst (spec_step c s) \<and> abs_rel q' (snd (spec_step c s))"
begin

lemma run_rel:
  "abs_rel q s \<Longrightarrow> legal_run maxlen cmds s \<Longrightarrow> run step cmds q = (outs, q') \<Longrightarrow> no_failure outs \<Longrightarrow>
   outs = fst (run spec_step cmds s) \<and> abs_rel q' (snd (run spec_step cmds s))"
proof (induction cmds arbitrary: q s outs)
  case Nil
  then show ?case by simp
next
  case (Cons c cmds)
  obtain out q1 outs' where st: "step c q = (out, q1)" "run step cmds q1 = (outs', q')" "outs = out # outs'"
    using Cons.prems(3) by (auto split: prod.splits)
  then have one: "out = fst (spec_step c s) \<and> abs_rel q1 (snd (spec_step c s))"
    using Cons.prems by (intro step_rel [of q]) (auto simp: no_failure_def)
  then have "outs' = fst (run spec_step cmds (snd (spec_step c s))) \<and>
      abs_rel q' (snd (run spec_step cmds (snd (spec_step c s))))"
    using Cons.prems st by (intro Cons.IH [of q1]) (auto simp: no_failure_def)
  with one st show ?case by (simp add: case_prod_unfold)
qed

end

locale total_replay_fifo = replay_fifo +
  assumes never_fails: "abs_rel q s \<Longrightarrow> legal maxlen c s \<Longrightarrow> step c q = (out, q') \<Longrightarrow> no_failure [out]"
begin

lemma run_total:
  "abs_rel q s \<Longrightarrow> legal_run maxlen cmds s \<Longrightarrow> run step cmds q = (outs, q') \<Longrightarrow> no_failure outs"
proof (induction cmds arbitrary: q s outs)
  case Nil
  then show ?case by (simp add: no_failure_def)
next
  case (Cons c cmds)
  obtain out q1 outs' where st: "step c q = (out, q1)" "run step cmds q1 = (outs', q')" "outs = out # outs'"
    using Cons.prems(3) by (auto split: prod.splits)
  then have "no_failure [out]" "abs_rel q1 (snd (spec_step c s))"
    using Cons.prems never_fails [of q s c] step_rel [of q s c] by auto
  with Cons.IH [of q1 "snd (spec_step c s)" outs'] Cons.prems st show ?case by (simp add: no_failure_def)
qed

lemma run_outputs:
  assumes "legal_run maxlen cmds spec_initial"
  shows "fst (run step cmds initial) = fst (run spec_step cmds spec_initial)"
proof -
  obtain outs q' where r: "run step cmds initial = (outs, q')" by fastforce
  with run_rel [OF initial_rel assms r run_total [OF initial_rel assms r]] show ?thesis by simp
qed

end

section \<open>The queue implements the specification\<close>

definition record_bytes :: "bytes \<Rightarrow> bytes" where
  "record_bytes m = int_bytes (word_of_nat (length m)) @ m"

text \<open>
  The relation between the queue and the specification.  \<open>recs\<close> are the spilled messages, the first
  \<open>k\<close> of them read again; \<open>tail\<close> are the bytes that a failed write of one more message has left.
\<close>

definition spill_rel ::
    "('f \<Rightarrow> bytes) \<Rightarrow> ('f \<Rightarrow> nat) \<Rightarrow> int \<Rightarrow> 'f replay_queue \<Rightarrow> bytes list \<Rightarrow> bytes \<Rightarrow> nat \<Rightarrow> nat \<Rightarrow> bool" where
  "spill_rel content fpos maxlen q recs tail broken k \<longleftrightarrow>
     (\<exists>f. rq_spill_file q = Some f \<and> content f = concat (map record_bytes recs) @ tail \<and>
          rq_spill_count q = word_of_nat (length recs + broken) \<and> length recs + broken < 2 ^ 31 \<and>
          (\<forall>m\<in>set recs. m \<noteq> [] \<and> int (length m) \<le> maxlen) \<and> k \<le> length recs \<and>
          (if rq_mode q
           then rq_spill_read q = word_of_nat k \<and> fpos f = length (concat (map record_bytes (take k recs)))
           else fpos f = length (content f)))"

definition queue_rel ::
    "('f \<Rightarrow> bytes) \<Rightarrow> ('f \<Rightarrow> nat) \<Rightarrow> int \<Rightarrow> bytes \<Rightarrow> nat \<Rightarrow> 'f replay_queue \<Rightarrow> replay_spec \<Rightarrow> bool" where
  "queue_rel content fpos maxlen tail broken q s \<longleftrightarrow>
     (\<exists>recs k. rs_queued s = rq_entries q @ recs \<and> rs_replaying s = rq_mode q \<and>
        (if rq_spilling q then spill_rel content fpos maxlen q recs tail broken k
         else recs = [] \<and> k = 0 \<and> broken = 0 \<and> tail = [] \<and> rq_spill_count q = 0) \<and>
        (case rq_next q of
           None \<Rightarrow> rq_mode q \<longrightarrow> rs_todo s = drop k recs
         | Some i \<Rightarrow> rq_mode q \<and> i < length (rq_entries q) \<and> rs_todo s = drop i (rq_entries q) @ drop k recs))"

lemma length_int_bytes [simp]: "length (int_bytes w) = 4"
  by (simp add: int_bytes_def be32_def be16_def)

lemma bytes_int_int_bytes [simp]: "bytes_int (int_bytes w) = w"
  using of_be32_be32 [of w "[]"] by (simp add: int_bytes_def bytes_int_def)

lemma sint_word_of_nat: "n < 2 ^ 31 \<Longrightarrow> sint (word_of_nat n :: uint32) = int n"
  by (simp add: signed_of_nat signed_take_bit_int_eq_self)

lemma length_record_bytes [simp]: "length (record_bytes m) = 4 + length m"
  by (simp add: record_bytes_def)

lemma concat_take_nth:
  "k < length recs \<Longrightarrow>
   concat (map f recs) = concat (map f (take k recs)) @ f (recs ! k) @ concat (map f (drop (Suc k) recs))"
  by (metis append_take_drop_id concat.simps(2) concat_append id_take_nth_drop list.simps(9) map_append)

lemma concat_take_Suc:
  "k < length recs \<Longrightarrow> concat (map f (take (Suc k) recs)) = concat (map f (take k recs)) @ f (recs ! k)"
  by (simp add: take_Suc_conv_app_nth)

context buf_file
begin

text \<open>Reading where \<open>s\<close> is what follows the position.\<close>

lemma read_at:
  assumes "content f = p @ s" "fpos f = length p" "BufFileRead io n f = (d, f')"
  shows "d = take n s \<and> content f' = p @ s \<and> fpos f' = length (p @ d)"
  using read [OF _ assms(3)] assms(1,2) by auto

lemma read_length:
  assumes "content f = p @ record_bytes m @ s" "fpos f = length p" "int (length m) < 2 ^ 31"
  obtains f1 where "BufFileRead io 4 f = (int_bytes (word_of_nat (length m)), f1)"
    and "content f1 = (p @ int_bytes (word_of_nat (length m))) @ m @ s"
    and "fpos f1 = length (p @ int_bytes (word_of_nat (length m)))"
proof -
  obtain d f1 where r: "BufFileRead io 4 f = (d, f1)"
    by fastforce
  from read_at [OF assms(1,2) r] show ?thesis
    using r by (intro that [of f1]) (simp_all add: record_bytes_def)
qed

lemma spill_read_ok:
  assumes rel: "spill_rel content fpos (MaxAllocSize io) q recs tail broken k" and "rq_mode q" "k < length recs"
  shows "\<exists>f'. apply_replay_spill_read_entry io q =
      (Inr (recs ! k), q\<lparr>rq_spill_file := Some f', rq_spill_read := rq_spill_read q + 1\<rparr>) \<and>
    spill_rel content fpos (MaxAllocSize io)
      (q\<lparr>rq_spill_file := Some f', rq_spill_read := rq_spill_read q + 1\<rparr>) recs tail broken (Suc k)"
proof -
  define p where "p = concat (map record_bytes (take k recs))"
  define m where "m = recs ! k"
  define s where "s = concat (map record_bytes (drop (Suc k) recs)) @ tail"
  obtain f where f: "rq_spill_file q = Some f" "content f = p @ record_bytes m @ s" "fpos f = length p"
    "rq_spill_read q = word_of_nat k"
    using rel \<open>rq_mode q\<close> concat_take_nth [OF \<open>k < length recs\<close>, of record_bytes]
    by (auto simp: spill_rel_def p_def m_def s_def)
  have m: "m \<noteq> []" "int (length m) \<le> MaxAllocSize io"
    using rel \<open>k < length recs\<close> by (auto simp: spill_rel_def m_def)
  then have len: "int (length m) < 2 ^ 31"
    using alloc_limit by linarith
  then have len': "length m < 2 ^ 31" by simp
  obtain f1 where f1: "BufFileRead io 4 f = (int_bytes (word_of_nat (length m)), f1)"
    "content f1 = (p @ int_bytes (word_of_nat (length m))) @ m @ s"
    "fpos f1 = length (p @ int_bytes (word_of_nat (length m)))"
    using read_length [OF f(2,3) len] by blast
  obtain d f2 where r2: "BufFileRead io (length m) f1 = (d, f2)"
    by fastforce
  from read_at [OF f1(2,3) r2] have f2: "d = m" "content f2 = content f" "fpos f2 = length (p @ record_bytes m)"
    by (auto simp: f(2) record_bytes_def)
  have "apply_replay_spill_read_entry io q =
      (Inr m, q\<lparr>rq_spill_file := Some f2, rq_spill_read := rq_spill_read q + 1\<rparr>)"
    using m r2 len' f2(1) by (simp add: apply_replay_spill_read_entry_def f(1) f1(1) sint_word_of_nat Let_def)
  moreover have "spill_rel content fpos (MaxAllocSize io)
      (q\<lparr>rq_spill_file := Some f2, rq_spill_read := rq_spill_read q + 1\<rparr>) recs tail broken (Suc k)"
    using rel \<open>rq_mode q\<close> \<open>k < length recs\<close> f f2 concat_take_Suc [OF \<open>k < length recs\<close>, of record_bytes]
    by (auto simp: spill_rel_def p_def m_def)
  ultimately show ?thesis by (auto simp: m_def)
qed

lemma write_at_end:
  assumes "content f = c" "fpos f = length c" "BufFileWrite io s f = (r, f')"
  shows "\<exists>k \<le> length s. (r \<longrightarrow> k = length s) \<and> content f' = c @ take k s \<and> fpos f' = length (content f')"
  using write_end [of f s r f'] assms by auto

text \<open>A write adds the record; a write that fails leaves some prefix of it, but counts it.\<close>

lemma spill_write:
  assumes rel: "spill_rel content fpos (MaxAllocSize io) q recs [] 0 k" and nomode: "\<not> rq_mode q"
    and m: "m \<noteq> []" "int (length m) \<le> MaxAllocSize io" "length recs + 1 < 2 ^ 31"
    and w: "apply_replay_spill_write_entry io m q = (r, q')"
  shows "\<exists>f'. q' = q\<lparr>rq_spill_count := rq_spill_count q + 1, rq_spill_file := Some f'\<rparr> \<and>
    (case r of
       Inr _ \<Rightarrow> spill_rel content fpos (MaxAllocSize io) q' (recs @ [m]) [] 0 k
     | Inl e \<Rightarrow> e = Spill_write_failed \<and>
         (\<exists>j. spill_rel content fpos (MaxAllocSize io) q' recs (take j (record_bytes m)) 1 k))"
proof -
  define n where "n = int_bytes (word_of_nat (length m))"
  define c where "c = concat (map record_bytes recs)"
  obtain f where f: "rq_spill_file q = Some f" "content f = c" "fpos f = length c"
    "rq_spill_count q = word_of_nat (length recs)"
    using rel nomode by (auto simp: spill_rel_def c_def)
  obtain r1 f1 where w1: "BufFileWrite io n f = (r1, f1)" by fastforce
  obtain r2 f2 where w2: "BufFileWrite io m f1 = (r2, f2)" by fastforce
  obtain j1 where j1: "r1 \<longrightarrow> j1 = length n" "content f1 = c @ take j1 n" "fpos f1 = length (content f1)" "j1 \<le> length n"
    using write_at_end [OF f(2,3) w1] by blast
  have rel': "spill_rel content fpos (MaxAllocSize io)
      (q\<lparr>rq_spill_count := rq_spill_count q + 1, rq_spill_file := Some g\<rparr>) recs (take j (record_bytes m)) 1 k"
    if "content g = c @ take j (record_bytes m)" "fpos g = length (content g)" for g j
    using rel nomode m that f by (auto simp: spill_rel_def c_def)
  show ?thesis
  proof (cases r1)
    case False
    then have "r = Inl Spill_write_failed" "q' = q\<lparr>rq_spill_count := rq_spill_count q + 1, rq_spill_file := Some f1\<rparr>"
      using w by (auto simp: apply_replay_spill_write_entry_def f(1) w1 n_def [symmetric] Let_def)
    moreover have "content f1 = c @ take j1 (record_bytes m)"
      using j1 by (simp add: record_bytes_def n_def)
    ultimately show ?thesis
      using rel' [OF _ j1(3)] by auto
  next
    case True
    then have c1: "content f1 = c @ n" using j1 by simp
    obtain j2 where j2: "r2 \<longrightarrow> j2 = length m" "content f2 = (c @ n) @ take j2 m" "fpos f2 = length (content f2)"
      using write_at_end [OF c1 _ w2] j1(3) c1 by metis
    have q': "q' = q\<lparr>rq_spill_count := rq_spill_count q + 1, rq_spill_file := Some f2\<rparr>"
      and r: "r = (if r2 then Inr () else Inl Spill_write_failed)"
      using True w by (auto simp: apply_replay_spill_write_entry_def f(1) w1 w2 n_def [symmetric] Let_def split: bool.splits if_splits)
    have "spill_rel content fpos (MaxAllocSize io) q' (recs @ [m]) [] 0 k" if r2
      using rel nomode m f j2 that by (auto simp: spill_rel_def q' record_bytes_def n_def c_def)
    moreover have "content f2 = c @ take (4 + j2) (record_bytes m)"
      using j2 by (simp add: record_bytes_def n_def)
    ultimately show ?thesis
      using q' r rel' [OF _ j2(3)] by (cases r2) auto
  qed
qed

lemma start_rel:
  assumes rel: "queue_rel content fpos (MaxAllocSize io) tail broken q s"
    and r: "apply_replay_queue_start_replay io q = (Inr (), q')"
  shows "queue_rel content fpos (MaxAllocSize io) tail broken q' (snd (spec_step Start_replay s))"
proof -
  obtain recs k where rk: "rs_queued s = rq_entries q @ recs"
    "if rq_spilling q then spill_rel content fpos (MaxAllocSize io) q recs tail broken k
     else recs = [] \<and> k = 0 \<and> broken = 0 \<and> tail = [] \<and> rq_spill_count q = 0"
    using rel by (auto simp: queue_rel_def)
  show ?thesis
  proof (cases "rq_spilling q")
    case False
    then show ?thesis
      using r rk by (auto simp: apply_replay_queue_start_replay_def queue_rel_def Let_def)
  next
    case True
    then obtain f f' where f: "rq_spill_file q = Some f" "BufFileSeekStart io f = (True, f')"
      "q' = q\<lparr>rq_next := (if rq_entries q = [] then None else Some 0), rq_mode := True,
              rq_spill_file := Some f', rq_spill_read := 0\<rparr>"
      using r rk(2) by (auto simp: apply_replay_queue_start_replay_def spill_rel_def Let_def split: prod.splits bool.splits)
    then have "spill_rel content fpos (MaxAllocSize io) q' recs tail broken 0"
      using True rk(2) seek [OF f(2)] by (auto simp: spill_rel_def)
    then show ?thesis
      using rk(1) True f(3) by (auto simp: queue_rel_def intro!: exI [of _ recs] exI [of _ 0])
  qed
qed

text \<open>The next message is the first one still to come, from memory or from the file.\<close>

lemma next_rel:
  assumes rel: "queue_rel content fpos (MaxAllocSize io) tail broken q s"
    and "rs_replaying s" "rs_todo s = m # ms"
  shows "fst (apply_replay_queue_next_entry io q) = Inr (Some m) \<and>
    queue_rel content fpos (MaxAllocSize io) tail broken (snd (apply_replay_queue_next_entry io q)) (s\<lparr>rs_todo := ms\<rparr>)"
proof -
  obtain recs k where rk: "rs_queued s = rq_entries q @ recs" "rq_mode q"
    "if rq_spilling q then spill_rel content fpos (MaxAllocSize io) q recs tail broken k
     else recs = [] \<and> k = 0 \<and> broken = 0 \<and> tail = [] \<and> rq_spill_count q = 0"
    "case rq_next q of None \<Rightarrow> rs_todo s = drop k recs
     | Some i \<Rightarrow> i < length (rq_entries q) \<and> rs_todo s = drop i (rq_entries q) @ drop k recs"
    using rel assms(2) by (auto simp: queue_rel_def split: option.splits)
  show ?thesis
  proof (cases "rq_next q")
    case (Some i)
    then have i: "i < length (rq_entries q)" "m = rq_entries q ! i" "ms = drop (Suc i) (rq_entries q) @ drop k recs"
      using rk(4) assms(3) by (auto simp flip: Cons_nth_drop_Suc)
    have "spill_rel content fpos (MaxAllocSize io) (q\<lparr>rq_next := n\<rparr>) recs tail broken k
        \<longleftrightarrow> spill_rel content fpos (MaxAllocSize io) q recs tail broken k" for n
      by (simp add: spill_rel_def)
    then show ?thesis
      using Some i rk assms(2)
      by (auto simp: apply_replay_queue_next_entry_def queue_rel_def intro!: exI [of _ recs] exI [of _ k])
  next
    case None
    then have k: "k < length recs" "recs ! k = m" "drop (Suc k) recs = ms" "rq_spilling q"
      using rk(3,4) assms(3) drop_eq_ConsD [of k recs m ms] by (auto split: if_splits)
    then have sr: "spill_rel content fpos (MaxAllocSize io) q recs tail broken k"
      using rk(3) by simp
    then have "sint (rq_spill_read q) = int k" "sint (rq_spill_count q) = int (length recs + broken)"
      using rk(2) k(1) by (auto simp: spill_rel_def sint_word_of_nat simp del: of_nat_add)
    then show ?thesis
      using spill_read_ok [OF sr rk(2) k(1)] None k rk(1,2) assms(2)
      by (auto simp: apply_replay_queue_next_entry_def queue_rel_def intro!: exI [of _ recs] exI [of _ "Suc k"])
  qed
qed

lemma next_exhausted:
  assumes rel: "queue_rel content fpos (MaxAllocSize io) tail 0 q s"
    and "rs_replaying s" "rs_todo s = []" "tail = []"
  shows "fst (apply_replay_queue_next_entry io q) = Inr None \<and>
    queue_rel content fpos (MaxAllocSize io) tail 0 (snd (apply_replay_queue_next_entry io q)) (s\<lparr>rs_replaying := False\<rparr>)"
proof -
  obtain recs k where rk: "rs_queued s = rq_entries q @ recs" "rq_mode q" "rq_next q = None" "drop k recs = []"
    "if rq_spilling q then spill_rel content fpos (MaxAllocSize io) q recs tail 0 k else recs = [] \<and> k = 0 \<and> rq_spill_count q = 0"
    using rel assms(2,3) by (auto simp: queue_rel_def split: option.splits)
  have "\<not> (rq_spilling q \<and> sint (rq_spill_read q) < sint (rq_spill_count q))"
    using rk by (auto simp: spill_rel_def)
  moreover have "spill_rel content fpos (MaxAllocSize io) (q\<lparr>rq_mode := False\<rparr>) recs tail 0 k" if "rq_spilling q"
    using rk that assms(4) by (auto simp: spill_rel_def)
  ultimately show ?thesis
    using rk assms(4) by (auto simp: apply_replay_queue_next_entry_def queue_rel_def intro!: exI [of _ recs] exI [of _ k])
qed

lemma append_spilling_rel:
  assumes rel: "queue_rel content fpos (MaxAllocSize io) [] 0 q s" and l: "legal (MaxAllocSize io) (Append limit m) s"
    and w: "append_spilling io m q = (r, q')"
  shows "case r of
      Inr _ \<Rightarrow> queue_rel content fpos (MaxAllocSize io) [] 0 q' (s\<lparr>rs_queued := rs_queued s @ [m]\<rparr>)
    | Inl e \<Rightarrow> e = Spill_write_failed \<and>
        (\<exists>j. queue_rel content fpos (MaxAllocSize io) (take j (record_bytes m)) 1 q' s)"
proof -
  obtain recs k where r0: "rs_queued s = rq_entries q @ recs" "rs_replaying s = rq_mode q"
    "if rq_spilling q then spill_rel content fpos (MaxAllocSize io) q recs [] 0 k
     else recs = [] \<and> k = 0 \<and> (0 :: nat) = 0 \<and> ([] :: bytes) = [] \<and> rq_spill_count q = 0"
    "case rq_next q of None \<Rightarrow> rq_mode q \<longrightarrow> rs_todo s = drop k recs
     | Some i \<Rightarrow> rq_mode q \<and> i < length (rq_entries q) \<and> rs_todo s = drop i (rq_entries q) @ drop k recs"
    using rel unfolding queue_rel_def by blast
  have rk: "rs_queued s = rq_entries q @ recs" "\<not> rq_mode q" "\<not> rs_replaying s" "rq_next q = None"
    using r0 l by (auto split: option.splits)
  show ?thesis
  proof (cases "rq_spilling q")
    case False
    then show ?thesis
      using w rk r0(3) by (auto simp: append_spilling_def queue_rel_def)
  next
    case True
    obtain r1 q1 where w0: "apply_replay_spill_write_entry io m q = (r1, q1)"
      by (rule prod.exhaust)
    then have w1: "apply_replay_spill_write_entry io m q = (r1, q')" "r = map_sum id (\<lambda>_. True) r1"
      using w True by (simp_all add: append_spilling_def split: sum.splits)
    have g: "length recs + 1 < 2 ^ 31" "m \<noteq> []" "int (length m) \<le> MaxAllocSize io"
      using l rk(1) by auto
    have sr: "spill_rel content fpos (MaxAllocSize io) q recs [] 0 k"
      using r0(3) True by simp
    obtain f' where q': "q' = q\<lparr>rq_spill_count := rq_spill_count q + 1, rq_spill_file := Some f'\<rparr>"
      and sw: "case r1 of
         Inr _ \<Rightarrow> spill_rel content fpos (MaxAllocSize io) q' (recs @ [m]) [] 0 k
       | Inl e \<Rightarrow> e = Spill_write_failed \<and>
           (\<exists>j. spill_rel content fpos (MaxAllocSize io) q' recs (take j (record_bytes m)) 1 k)"
      using spill_write [OF sr rk(2) g(2,3,1) w1(1)] by blast
    have eq: "rq_entries q' = rq_entries q" "rq_mode q' = rq_mode q" "rq_spilling q'" "rq_next q' = None"
      using q' rk(4) True by simp_all
    have qr: "queue_rel content fpos (MaxAllocSize io) tail broken q' s'"
      if "spill_rel content fpos (MaxAllocSize io) q' recs' tail broken k" "rs_queued s' = rq_entries q @ recs'"
        "\<not> rs_replaying s'" for recs' tail broken s'
      unfolding queue_rel_def using that eq rk(2) by (intro exI [of _ recs'] exI [of _ k]) simp
    show ?thesis
    proof (cases r1)
      case (Inl e)
      then show ?thesis
        using sw w1(2) qr [of recs _ 1 s] rk(1,3) by auto
    next
      case (Inr u)
      then show ?thesis
        using sw w1(2) qr [of "recs @ [m]" "[]" 0 "s\<lparr>rs_queued := rs_queued s @ [m]\<rparr>"] rk(1,3) by simp
    qed
  qed
qed

lemma append_rel:
  assumes rel: "queue_rel content fpos (MaxAllocSize io) [] 0 q s" and l: "legal (MaxAllocSize io) (Append limit m) s"
    and w: "apply_replay_queue_append_entry io limit m q = (r, q')"
  shows "case r of
      Inr _ \<Rightarrow> queue_rel content fpos (MaxAllocSize io) [] 0 q' (s\<lparr>rs_queued := rs_queued s @ [m]\<rparr>)
    | Inl e \<Rightarrow> (e = Spill_create_failed \<and> BufFileCreateTemp io = None \<and> q' = q) \<or> (e = Spill_write_failed \<and>
        (\<exists>j. queue_rel content fpos (MaxAllocSize io) (take j (record_bytes m)) 1 q' s))"
proof (cases "spill_starts limit m q")
  case False
  then have "append_spilling io m q = (r, q')"
    using w by (simp add: apply_replay_queue_append_entry_def)
  from append_spilling_rel [OF rel l this] show ?thesis by (auto split: sum.splits)
next
  case starts: True
  show ?thesis
  proof (cases "BufFileCreateTemp io")
    case None
    then show ?thesis
      using w starts by (auto simp: apply_replay_queue_append_entry_def)
  next
    case (Some f)
    have r0: "queue_rel content fpos (MaxAllocSize io) [] 0
        (q\<lparr>rq_spill_file := Some f, rq_spilling := True, rq_bytes := 0\<rparr>) s"
      using rel l starts create [OF Some] by (auto simp: queue_rel_def spill_rel_def spill_starts_def split: option.splits)
    have "append_spilling io m (q\<lparr>rq_spill_file := Some f, rq_spilling := True, rq_bytes := 0\<rparr>) = (r, q')"
      using w starts Some by (simp add: apply_replay_queue_append_entry_def)
    from append_spilling_rel [OF r0 l this] show ?thesis by (auto split: sum.splits)
  qed
qed

end

sublocale buf_file \<subseteq> fifo: replay_fifo "replay_step io" apply_replay_initial "MaxAllocSize io"
  "queue_rel content fpos (MaxAllocSize io) [] 0"
proof
  show "queue_rel content fpos (MaxAllocSize io) [] 0 apply_replay_initial spec_initial"
    by (simp add: queue_rel_def apply_replay_initial_def spec_initial_def)
next
  fix q s c out q'
  assume rel: "queue_rel content fpos (MaxAllocSize io) [] 0 q s" and l: "legal (MaxAllocSize io) c s"
    and st: "replay_step io c q = (out, q')" and ok: "no_failure [out]"
  show "out = fst (spec_step c s) \<and> queue_rel content fpos (MaxAllocSize io) [] 0 q' (snd (spec_step c s))"
  proof (cases c)
    case (Append limit m)
    then obtain r where w: "apply_replay_queue_append_entry io limit m q = (Inr r, q')" and "out = Done"
      using st ok by (auto simp: no_failure_def split: prod.splits sum.splits)
    then show ?thesis
      using append_rel [OF rel _ w] l Append by simp
  next
    case Start_replay
    then have "apply_replay_queue_start_replay io q = (Inr (), q')" "out = Done"
      using st ok by (auto simp: no_failure_def split: prod.splits sum.splits)
    then show ?thesis
      using start_rel [OF rel] Start_replay by simp
  next
    case Next_entry
    show ?thesis
    proof (cases "rs_todo s")
      case Nil
      then show ?thesis
        using next_exhausted [OF rel] l st Next_entry by (auto split: prod.splits sum.splits option.splits)
    next
      case (Cons m ms)
      then show ?thesis
        using next_rel [OF rel _ Cons] l st Next_entry by (auto split: prod.splits sum.splits option.splits)
    qed
  next
    case Reset
    then show ?thesis
      using st by (auto simp: queue_rel_def apply_replay_queue_reset_def)
  qed
qed

sublocale reliable_buf_file \<subseteq> total: total_replay_fifo "replay_step io" apply_replay_initial "MaxAllocSize io"
  "queue_rel content fpos (MaxAllocSize io) [] 0"
proof
  fix q s c out q'
  assume rel: "queue_rel content fpos (MaxAllocSize io) [] 0 q s" and l: "legal (MaxAllocSize io) c s"
    and st: "replay_step io c q = (out, q')"
  show "no_failure [out]"
  proof (cases c)
    case (Append limit m)
    obtain r q1 where w: "apply_replay_queue_append_entry io limit m q = (r, q1)" by (rule prod.exhaust)
    have "r \<noteq> Inl e" for e
      using w create_ok write_ok rel
      by (auto simp: apply_replay_queue_append_entry_def append_spilling_def apply_replay_spill_write_entry_def
          Let_def queue_rel_def spill_rel_def case_prod_unfold split: if_splits option.splits bool.splits)
    then show ?thesis
      using st w Append by (cases r) (auto simp: no_failure_def)
  next
    case Start_replay
    then show ?thesis
      using st rel seek_ok
      by (auto simp: apply_replay_queue_start_replay_def queue_rel_def spill_rel_def Let_def no_failure_def
          case_prod_unfold split: if_splits option.splits bool.splits)
  next
    case Next_entry
    then show ?thesis
      using next_exhausted [OF rel] next_rel [OF rel] l st
      by (cases "rs_todo s") (auto simp: no_failure_def split: prod.splits sum.splits option.splits)
  next
    case Reset
    then show ?thesis
      using st by (auto simp: no_failure_def)
  qed
qed

section \<open>A temporary file as content and position\<close>

text \<open>A file on a disk with room for \<open>room\<close> bytes, or with no limit.\<close>

definition temp_file :: "nat option \<Rightarrow> (bytes \<times> nat) buffile" where
  "temp_file room =
     \<lparr>BufFileCreateTemp = Some ([], 0),
      BufFileWrite = (\<lambda>s (c, p).
        let k = (case room of None \<Rightarrow> length s | Some n \<Rightarrow> min (length s) (n - p))
        in (k = length s, (take p c @ take k s @ drop (p + k) c, p + k))),
      BufFileRead = (\<lambda>n (c, p). let d = take n (drop p c) in (d, (c, p + length d))),
      BufFileSeekStart = (\<lambda>(c, p). (True, (c, 0))),
      MaxAllocSize = 0x3fffffff\<rparr>"

interpretation disk: buf_file "temp_file room" fst snd for room
proof
  fix f s r f'
  assume "snd f = length (fst f)" "BufFileWrite (temp_file room) s f = (r, f')"
  then show "\<exists>k \<le> length s. (r \<longrightarrow> k = length s) \<and> fst f' = fst f @ take k s \<and> snd f' = length (fst f')"
    by (cases f; intro exI [of _ "case room of None \<Rightarrow> length s | Some n \<Rightarrow> min (length s) (n - snd f)"])
      (auto simp: temp_file_def Let_def split: option.splits)
qed (auto simp: temp_file_def Let_def split: prod.splits)

interpretation tmp: reliable_buf_file "temp_file None" fst snd
  by unfold_locales (auto simp: temp_file_def Let_def split: prod.splits)

section \<open>A failed write is not lost\<close>

context reliable_buf_file
begin

lemmas queue_run_outputs = total.run_outputs

end

context buf_file
begin

lemmas queue_run_rel = fifo.run_rel [OF fifo.initial_rel]

text \<open>Behind the complete records the reader meets the prefix that the failed write has left.\<close>

lemma read_broken:
  assumes c: "content f = p @ take j (record_bytes m)" "fpos f = length p" "rq_spill_file q = Some f"
    and m: "int (length m) \<le> MaxAllocSize io"
  shows "fst (apply_replay_spill_read_entry io q) \<in> {Inl Spill_corrupt, Inr m}"
proof -
  have len: "length m < 2 ^ 31"
    using m alloc_limit by simp
  obtain d f1 where r1: "BufFileRead io 4 f = (d, f1)" by fastforce
  note a1 = read_at [OF c(1,2) r1]
  show ?thesis
  proof (cases "j < 4")
    case True
    then have "length d \<noteq> 4"
      using a1 by (simp add: record_bytes_def)
    then show ?thesis
      by (simp add: apply_replay_spill_read_entry_def c(3) r1 Let_def)
  next
    case False
    then have d: "d = int_bytes (word_of_nat (length m))"
      and f1: "content f1 = (p @ d) @ take (j - 4) m" "fpos f1 = length (p @ d)"
      using a1 by (simp_all add: record_bytes_def)
    obtain e f2 where r2: "BufFileRead io (length m) f1 = (e, f2)" by fastforce
    from read_at [OF f1 r2] have "e = take (min (length m) (j - 4)) m" by simp
    then show ?thesis
      using len r2 by (auto simp: apply_replay_spill_read_entry_def c(3) r1 d Let_def sint_word_of_nat)
  qed
qed

lemma next_broken:
  assumes rel: "queue_rel content fpos (MaxAllocSize io) (take j (record_bytes m)) 1 q s"
    and "rs_replaying s" "rs_todo s = []" and m: "int (length m) \<le> MaxAllocSize io"
  shows "fst (replay_step io Next_entry q) \<in> {Failed Spill_corrupt, Message m}"
proof -
  obtain recs k where rk: "rq_mode q" "rq_next q = None" "drop k recs = []" "rq_spilling q"
    "spill_rel content fpos (MaxAllocSize io) q recs (take j (record_bytes m)) 1 k"
    using rel assms(2,3) by (auto simp: queue_rel_def split: option.splits if_splits)
  then obtain f where f: "rq_spill_file q = Some f"
    "content f = concat (map record_bytes recs) @ take j (record_bytes m)"
    "fpos f = length (concat (map record_bytes recs))"
    "rq_spill_read q = word_of_nat (length recs)" "rq_spill_count q = word_of_nat (length recs + 1)"
    "length recs + 1 < 2 ^ 31"
    by (auto simp: spill_rel_def)
  have "sint (rq_spill_read q) = int (length recs)" "sint (rq_spill_count q) = int (length recs + 1)"
    using f(4-6) by (simp_all only: sint_word_of_nat)
  then show ?thesis
    using read_broken [OF f(2,3,1) m] rk(2,4)
    by (auto simp: apply_replay_queue_next_entry_def split: prod.splits sum.splits)
qed

lemma drain_broken:
  assumes "queue_rel content fpos (MaxAllocSize io) (take j (record_bytes m)) 1 q s"
    and "rs_replaying s" and "int (length m) \<le> MaxAllocSize io"
  shows "fst (run (replay_step io) (replicate (length (rs_todo s) + 1) Next_entry) q)
    \<in> {map Message (rs_todo s) @ [Failed Spill_corrupt], map Message (rs_todo s) @ [Message m]}"
  using assms
proof (induction "rs_todo s" arbitrary: q s)
  case Nil
  then show ?case
    using next_broken [of j m q s] by (auto simp: case_prod_unfold)
next
  case (Cons x xs)
  have st: "fst (replay_step io Next_entry q) = Message x"
    "queue_rel content fpos (MaxAllocSize io) (take j (record_bytes m)) 1 (snd (replay_step io Next_entry q)) (s\<lparr>rs_todo := xs\<rparr>)"
    using next_rel [OF Cons.prems(1,2) Cons.hyps(2) [symmetric]] by (auto split: prod.splits sum.splits option.splits)
  from Cons.hyps(1) [OF _ st(2)] Cons.prems
  have "fst (run (replay_step io) (replicate (length xs + 1) Next_entry) (snd (replay_step io Next_entry q)))
    \<in> {map Message xs @ [Failed Spill_corrupt], map Message xs @ [Message m]}"
    by simp
  then show ?case
    using st(1) unfolding Cons.hyps(2) [symmetric] by (auto simp: case_prod_unfold)
qed

end

section \<open>Properties\<close>

text \<open>
  C14: The replay queue is a list with a cursor, whatever part of it is in the temporary file.
  For every sequence of calls that the worker makes (appending, starting a replay, taking entries,
  resetting, with any limits), the queue gives exactly the results of the specification: a replay
  returns every message since the last reset once and in order, and then ends the replay mode.
\<close>

theorem replay_queue_refines_list:
  assumes "reliable_buf_file io content fpos"
    and "legal_run (MaxAllocSize io) cmds spec_initial"
  shows "fst (run (replay_step io) cmds apply_replay_initial) = fst (run spec_step cmds spec_initial)"
  using assms by (rule reliable_buf_file.queue_run_outputs)

theorem replay_queue_refines_list_witness:
  "fst (run (replay_step (temp_file None))
      [Append 1 [7], Append 1 (replicate 1048577 0), Append 1 [8], Start_replay,
       Next_entry, Next_entry, Next_entry, Next_entry, Reset, Append 0 [9], Start_replay, Next_entry] apply_replay_initial)
   = [Done, Done, Done, Done, Message [7], Message (replicate 1048577 0), Message [8], Exhausted,
      Done, Done, Done, Message [9]]"
proof -
  have "legal_run (MaxAllocSize (temp_file None))
      [Append 1 [7], Append 1 (replicate 1048577 0), Append 1 [8], Start_replay,
       Next_entry, Next_entry, Next_entry, Next_entry, Reset, Append 0 [9], Start_replay, Next_entry] spec_initial"
    by (simp add: spec_initial_def temp_file_def)
  from replay_queue_refines_list [OF tmp.reliable_buf_file_axioms this] show ?thesis
    by (simp add: spec_initial_def)
qed

text \<open>
  A message whose write to the temporary file fails is never silently dropped.  After a run
  without failures and an append that fails in the write, a replay returns all the messages before
  it, in order, and then either that message or the error that the file is corrupt.
\<close>

theorem failed_spill_write_is_noticed:
  assumes io: "buf_file io content fpos"
    and l: "legal_run (MaxAllocSize io) (cmds @ [Append limit m]) spec_initial"
    and r: "run (replay_step io) cmds apply_replay_initial = (outs, q)" "no_failure outs"
    and w: "apply_replay_queue_append_entry io limit m q = (Inl Spill_write_failed, q1)"
    and st: "apply_replay_queue_start_replay io q1 = (Inr (), q2)"
    and n: "queued = rs_queued (snd (run spec_step cmds spec_initial))"
  shows "fst (run (replay_step io) (replicate (length queued + 1) Next_entry) q2)
    \<in> {map Message queued @ [Failed Spill_corrupt], map Message queued @ [Message m]}"
proof -
  define s where "s = snd (run spec_step cmds spec_initial)"
  have split: "legal_run M (cs @ ds) t \<longleftrightarrow> legal_run M cs t \<and> legal_run M ds (snd (run spec_step cs t))" for M cs ds t
    by (induction cs arbitrary: t) (simp_all add: case_prod_unfold)
  then have ls: "legal_run (MaxAllocSize io) cmds spec_initial" "legal (MaxAllocSize io) (Append limit m) s"
    using l unfolding s_def by (simp_all add: split)
  have rel: "queue_rel content fpos (MaxAllocSize io) [] 0 q s"
    using buf_file.queue_run_rel [OF io ls(1) r] by (simp add: s_def)
  obtain j where j: "queue_rel content fpos (MaxAllocSize io) (take j (record_bytes m)) 1 q1 s"
    using buf_file.append_rel [OF io rel ls(2) w] by auto
  have "queue_rel content fpos (MaxAllocSize io) (take j (record_bytes m)) 1 q2 (s\<lparr>rs_todo := rs_queued s, rs_replaying := True\<rparr>)"
    using buf_file.start_rel [OF io j st] by simp
  from buf_file.drain_broken [OF io this] ls(2) show ?thesis
    by (simp add: n s_def)
qed

definition demo_broken :: "(bytes \<times> nat) replay_queue" where
  "demo_broken = snd (apply_replay_queue_start_replay (temp_file (Some 3))
     (snd (apply_replay_queue_append_entry (temp_file (Some 3)) 1 (replicate 1048577 0)
       (snd (run (replay_step (temp_file (Some 3))) [Append 1 [7]] apply_replay_initial)))))"

theorem failed_spill_write_is_noticed_witness:
  "fst (run (replay_step (temp_file (Some 3))) (replicate 2 Next_entry) demo_broken)
     \<in> {[Message [7], Failed Spill_corrupt], [Message [7], Message (replicate 1048577 0)]}"
proof -
  let ?io = "temp_file (Some 3)" and ?m = "replicate 1048577 0 :: bytes"
  obtain outs q where r: "run (replay_step ?io) [Append 1 [7]] apply_replay_initial = (outs, q)"
    and ok: "no_failure outs" and q: "q = apply_replay_initial\<lparr>rq_bytes := 1, rq_entries := [[7]]\<rparr>"
    by (simp add: apply_replay_queue_append_entry_def append_spilling_def spill_starts_def
        apply_replay_initial_def no_failure_def)
  obtain q1 where w: "apply_replay_queue_append_entry ?io 1 ?m q = (Inl Spill_write_failed, q1)"
    and f: "rq_spill_file q1 = Some (take 3 (int_bytes 1048577), 3)"
    by (simp add: q apply_replay_queue_append_entry_def append_spilling_def spill_starts_def
        apply_replay_spill_write_entry_def apply_replay_initial_def temp_file_def Let_def)
  obtain q2 where st: "apply_replay_queue_start_replay ?io q1 = (Inr (), q2)"
    using f by (cases "rq_spilling q1") (simp_all add: apply_replay_queue_start_replay_def temp_file_def Let_def)
  have l: "legal_run (MaxAllocSize ?io) ([Append 1 [7]] @ [Append 1 ?m]) spec_initial"
    by (simp add: spec_initial_def temp_file_def)
  show ?thesis
    using failed_spill_write_is_noticed [OF disk.buf_file_axioms l r ok w st refl] r w st
    by (simp add: demo_broken_def spec_initial_def numeral_2_eq_2)
qed

end
