(* ===== verification/Spock_Feedback.thy ===== *)
theory Spock_Feedback
  imports Spock_Wire Spock_Group
begin

text \<open>
  The positions that an apply worker reports to the publisher (\<open>src/spock_apply.c\<close>,
  \<open>get_flush_position\<close> to \<open>UpdateWorkerStats\<close>, and the lines of \<open>handle_commit\<close> that record a
  commit).  Each local commit is remembered with the remote position it covers; what is reported
  as flushed decides how far the publisher may discard its log.  The local flush position, the
  flush position of a synchronous standby and the connection are arguments.
\<close>

section \<open>Remembered commits\<close>

record SPKFlushPosition =
  fp_local_end :: XLogRecPtr
  fp_remote_end :: XLogRecPtr

record RemoteSyncPosition =
  sp_local_commit_lsn :: XLogRecPtr
  sp_remote_recvpos :: XLogRecPtr
  sp_remote_flushpos :: XLogRecPtr
  sp_remote_writepos :: XLogRecPtr

text \<open>The lists of the file and the static variables of \<open>send_feedback\<close>.\<close>

record feedback =
  fb_lsn_mapping :: "SPKFlushPosition list"
  fb_sync_replica_lsn :: "RemoteSyncPosition list"
  fb_max_recvpos :: XLogRecPtr
  fb_last_recvpos :: XLogRecPtr
  fb_last_writepos :: XLogRecPtr
  fb_last_flushpos :: XLogRecPtr

definition feedback_initial :: feedback where
  "feedback_initial = \<lparr>fb_lsn_mapping = [], fb_sync_replica_lsn = [], fb_max_recvpos = InvalidXLogRecPtr,
     fb_last_recvpos = InvalidXLogRecPtr, fb_last_writepos = InvalidXLogRecPtr, fb_last_flushpos = InvalidXLogRecPtr\<rparr>"

fun flush_position_from ::
    "XLogRecPtr \<Rightarrow> XLogRecPtr \<Rightarrow> XLogRecPtr \<Rightarrow> SPKFlushPosition list
     \<Rightarrow> bool \<times> XLogRecPtr \<times> XLogRecPtr \<times> SPKFlushPosition list" where
  "flush_position_from local_flush write flush [] = (True, write, flush, [])"
| "flush_position_from local_flush write flush (pos # ps) =
     (if fp_local_end pos \<le> local_flush
      then flush_position_from local_flush (fp_remote_end pos) (fp_remote_end pos) ps
      else (False, fp_remote_end (last (pos # ps)), flush, pos # ps))"

definition get_flush_position ::
    "XLogRecPtr \<Rightarrow> SPKFlushPosition list \<Rightarrow> bool \<times> XLogRecPtr \<times> XLogRecPtr \<times> SPKFlushPosition list" where
  "get_flush_position local_flush mapping =
     flush_position_from local_flush InvalidXLogRecPtr InvalidXLogRecPtr mapping"

definition append_feedback_position ::
    "XLogRecPtr \<Rightarrow> XLogRecPtr \<Rightarrow> XLogRecPtr \<Rightarrow> feedback \<Rightarrow> feedback" where
  "append_feedback_position local_flush local_commit_lsn remote_commit_lsn fb =
     (case get_flush_position local_flush (fb_lsn_mapping fb) of
        (drained, writepos, flushpos, mapping) \<Rightarrow>
          (let (writepos, flushpos) =
                 (if drained then (remote_commit_lsn, remote_commit_lsn) else (writepos, flushpos))
           in fb\<lparr>fb_lsn_mapping := mapping,
                 fb_sync_replica_lsn := fb_sync_replica_lsn fb @
                   [\<lparr>sp_local_commit_lsn = local_commit_lsn, sp_remote_recvpos = remote_commit_lsn,
                     sp_remote_flushpos = flushpos, sp_remote_writepos = writepos\<rparr>]\<rparr>))"

text \<open>
  The walk over the held positions: the caller's receive, write and flush position and the largest
  one still held are variables of the loop.
\<close>

record positions =
  ps_recvpos :: XLogRecPtr
  ps_writepos :: XLogRecPtr
  ps_flushpos :: XLogRecPtr
  ps_max_recvpos :: XLogRecPtr

fun get_feedback_position ::
    "XLogRecPtr \<Rightarrow> positions \<Rightarrow> RemoteSyncPosition list \<Rightarrow> positions \<times> RemoteSyncPosition list" where
  "get_feedback_position sync_flush ps [] = (ps, [])"
| "get_feedback_position sync_flush ps (h # holds) =
     (if sp_local_commit_lsn h \<le> sync_flush
      then get_feedback_position sync_flush
             (ps\<lparr>ps_recvpos := sp_remote_recvpos h, ps_writepos := sp_remote_writepos h,
                 ps_flushpos := sp_remote_flushpos h\<rparr>) holds
      else case get_feedback_position sync_flush (ps\<lparr>ps_max_recvpos := sp_remote_recvpos h\<rparr>) holds of
             (ps, holds) \<Rightarrow> (ps, h # holds))"

section \<open>Status messages\<close>

record status_update =
  su_write :: XLogRecPtr
  su_flush :: XLogRecPtr
  su_apply :: XLogRecPtr
  su_time :: TimestampTz
  su_reply_requested :: bool

definition status_message :: "pqformat \<Rightarrow> status_update \<Rightarrow> bytes" where
  "status_message pq su =
     pq_sendint8 pq (ch CHR ''r'') @ pq_sendint64 pq (su_write su) @ pq_sendint64 pq (su_flush su) @
     pq_sendint64 pq (su_apply su) @ pq_sendint64 pq (su_time su) @
     pq_sendint8 pq (if su_reply_requested su then 1 else 0)"

datatype feedback_error = Could_not_send_feedback

text \<open>
  \<open>sync\<close> is the flush position of the synchronous standby when one is defined, \<open>junk\<close> what the two
  uninitialised variables hold, \<open>sent\<close> whether the connection takes a message.  The result is the
  message that is sent, if any.
\<close>

definition send_feedback ::
    "XLogRecPtr option \<Rightarrow> XLogRecPtr \<Rightarrow> (status_update \<Rightarrow> bool) \<Rightarrow> XLogRecPtr \<times> XLogRecPtr
     \<Rightarrow> XLogRecPtr \<Rightarrow> TimestampTz \<Rightarrow> bool \<Rightarrow> feedback
     \<Rightarrow> (feedback_error + status_update option) \<times> feedback" where
  "send_feedback sync local_flush sent junk recvpos now force fb =
     (let ps = \<lparr>ps_recvpos = recvpos, ps_writepos = fst junk, ps_flushpos = snd junk,
                ps_max_recvpos = fb_max_recvpos fb\<rparr>;
          (ps, holds) = (case sync of
                           None \<Rightarrow> (ps, fb_sync_replica_lsn fb)
                         | Some sync_flush \<Rightarrow> get_feedback_position sync_flush ps (fb_sync_replica_lsn fb));
          fb = fb\<lparr>fb_sync_replica_lsn := holds, fb_max_recvpos := ps_max_recvpos ps\<rparr>;
          recvpos = (if ps_recvpos ps < fb_last_recvpos fb then fb_last_recvpos fb else ps_recvpos ps);
          (drained, writepos, flushpos, mapping) = get_flush_position local_flush (fb_lsn_mapping fb);
          fb = fb\<lparr>fb_lsn_mapping := mapping\<rparr>;
          (writepos, flushpos) = (if drained then (recvpos, recvpos) else (writepos, flushpos));
          writepos = (if writepos < fb_last_writepos fb then fb_last_writepos fb else writepos);
          flushpos = (if flushpos < fb_last_flushpos fb then fb_last_flushpos fb else flushpos);
          su = \<lparr>su_write = recvpos, su_flush = flushpos, su_apply = writepos, su_time = now,
                su_reply_requested = False\<rparr>
      in if \<not> force \<and> writepos = fb_last_writepos fb \<and> flushpos = fb_last_flushpos fb then (Inr None, fb)
         else if \<not> sent su then (Inl Could_not_send_feedback, fb)
         else (Inr (Some su),
               fb\<lparr>fb_last_recvpos := (if recvpos > fb_last_recvpos fb then recvpos else fb_last_recvpos fb),
                  fb_last_writepos := (if writepos > fb_last_writepos fb then writepos else fb_last_writepos fb),
                  fb_last_flushpos := (if flushpos > fb_last_flushpos fb then flushpos else fb_last_flushpos fb)\<rparr>))"

definition request_initial_status_update ::
    "(status_update \<Rightarrow> bool) \<Rightarrow> XLogRecPtr \<Rightarrow> TimestampTz \<Rightarrow> feedback_error + status_update" where
  "request_initial_status_update sent startpos now =
     (let su = \<lparr>su_write = startpos, su_flush = startpos, su_apply = startpos, su_time = now,
                su_reply_requested = True\<rparr>
      in if sent su then Inr su else Inl Could_not_send_feedback)"

definition UpdateWorkerStats ::
    "SpockGroupKey \<Rightarrow> SpockGroupKey \<Rightarrow> XLogRecPtr \<Rightarrow> XLogRecPtr \<Rightarrow> group_hash \<Rightarrow> group_hash" where
  "UpdateWorkerStats apply_group key last_received last_inserted h =
     spock_group_progress_update_ptr apply_group
       ((zero_progress key)\<lparr>ap_received_lsn := last_received, ap_remote_insert_lsn := last_inserted\<rparr>) h"

text \<open>The end of \<open>handle_commit\<close>: hold the position for a standby, remember the commit.\<close>

definition track_commit :: "bool \<Rightarrow> XLogRecPtr \<Rightarrow> XLogRecPtr \<Rightarrow> XLogRecPtr \<Rightarrow> feedback \<Rightarrow> feedback" where
  "track_commit sync_defined local_flush local_end end_lsn fb =
     (let fb = (if sync_defined then append_feedback_position local_flush local_end end_lsn fb else fb)
      in fb\<lparr>fb_lsn_mapping := fb_lsn_mapping fb @ [\<lparr>fp_local_end = local_end, fp_remote_end = end_lsn\<rparr>]\<rparr>)"

section \<open>What is reported as flushed is flushed\<close>

lemma if_less_max: "(if a < b then b else a) = max a b" for a b :: XLogRecPtr
  by (auto simp: max_def)

lemma flush_position_from_split:
  "flush_position_from lf w f mapping = (d, w', f', rest) \<Longrightarrow>
   \<exists>flushed. mapping = flushed @ rest \<and> (\<forall>p\<in>set flushed. fp_local_end p \<le> lf) \<and> (d \<longleftrightarrow> rest = []) \<and>
     f' = (if flushed = [] then f else fp_remote_end (last flushed))"
proof (induction lf w f mapping rule: flush_position_from.induct)
  case (2 lf w f pos ps)
  show ?case
  proof (cases "fp_local_end pos \<le> lf")
    case True
    then obtain flushed where "ps = flushed @ rest" "\<forall>p\<in>set flushed. fp_local_end p \<le> lf" "d \<longleftrightarrow> rest = []"
      "f' = (if flushed = [] then fp_remote_end pos else fp_remote_end (last flushed))"
      using 2 by auto
    then show ?thesis
      using True by (intro exI [of _ "pos # flushed"]) auto
  next
    case False
    then show ?thesis
      using 2 by auto
  qed
qed simp

lemma all_flushed:
  "\<forall>p\<in>set mapping. fp_local_end p \<le> lf \<Longrightarrow> \<exists>w' f'. flush_position_from lf w f mapping = (True, w', f', [])"
  by (induction mapping arbitrary: w f) auto

lemmas get_flush_position_split =
  flush_position_from_split [where w = InvalidXLogRecPtr and f = InvalidXLogRecPtr, folded get_flush_position_def]

lemma append_feedback_position_fields:
  "fb_last_flushpos (append_feedback_position lf a b fb) = fb_last_flushpos fb"
  "fb_last_recvpos (append_feedback_position lf a b fb) = fb_last_recvpos fb"
  "\<exists>flushed. fb_lsn_mapping fb = flushed @ fb_lsn_mapping (append_feedback_position lf a b fb) \<and>
     (\<forall>p\<in>set flushed. fp_local_end p \<le> lf)"
proof -
  obtain d w f rest where g: "get_flush_position lf (fb_lsn_mapping fb) = (d, w, f, rest)"
    by (metis prod_cases4)
  from get_flush_position_split [OF g]
  show "\<exists>flushed. fb_lsn_mapping fb = flushed @ fb_lsn_mapping (append_feedback_position lf a b fb) \<and>
     (\<forall>p\<in>set flushed. fp_local_end p \<le> lf)"
    by (auto simp: append_feedback_position_def g)
  show "fb_last_flushpos (append_feedback_position lf a b fb) = fb_last_flushpos fb"
    "fb_last_recvpos (append_feedback_position lf a b fb) = fb_last_recvpos fb"
    by (simp_all add: append_feedback_position_def g)
qed

text \<open>The effect of a feedback call on the remembered commits and on the last reported positions.\<close>

lemma send_feedback_effect:
  assumes "send_feedback sync lf sent junk recvpos now force fb = (Inr r, fb')"
  obtains d w f where "get_flush_position lf (fb_lsn_mapping fb) = (d, w, f, fb_lsn_mapping fb')"
    and "fb_last_recvpos fb \<le> fb_last_recvpos fb'"
    and "fb_last_flushpos fb' = fb_last_flushpos fb \<or> (d \<and> fb_last_flushpos fb' \<le> fb_last_recvpos fb')
      \<or> (\<not> d \<and> fb_last_flushpos fb' = f)"
proof -
  obtain d w f rest where g: "get_flush_position lf (fb_lsn_mapping fb) = (d, w, f, rest)"
    by (metis prod_cases4)
  then show ?thesis
    using assms by (intro that [of d w f])
      (auto simp: send_feedback_def g Let_def split: prod.splits if_splits)
qed

text \<open>
  Sequences of commits and feedback calls.  Local commits are written in order, so a later one does
  not end before an earlier one.  The publisher sends transactions in the order of their commits,
  so the end of a commit is beyond the earlier ones and beyond every position it sent before.
  \<open>tr_commits\<close> are all the commits so far, \<open>tr_flushed\<close> the local flush position last seen.
\<close>

record feedback_trace =
  tr_fb :: feedback
  tr_commits :: "SPKFlushPosition list"
  tr_flushed :: XLogRecPtr

inductive feedback_reach :: "feedback_trace \<Rightarrow> bool" where
  init: "feedback_reach \<lparr>tr_fb = feedback_initial, tr_commits = [], tr_flushed = lf\<rparr>"
| commit: "feedback_reach t \<Longrightarrow> tr_flushed t \<le> lf \<Longrightarrow>
    (\<forall>p\<in>set (tr_commits t). fp_local_end p \<le> le \<and> fp_remote_end p < re) \<Longrightarrow>
    fb_last_recvpos (tr_fb t) < re \<Longrightarrow>
    feedback_reach \<lparr>tr_fb = track_commit sync_defined lf le re (tr_fb t),
      tr_commits = tr_commits t @ [\<lparr>fp_local_end = le, fp_remote_end = re\<rparr>], tr_flushed = lf\<rparr>"
| feedback: "feedback_reach t \<Longrightarrow> tr_flushed t \<le> lf \<Longrightarrow>
    send_feedback sync lf sent junk recvpos now force (tr_fb t) = (Inr r, fb) \<Longrightarrow>
    feedback_reach (t\<lparr>tr_fb := fb, tr_flushed := lf\<rparr>)"

definition feedback_ok :: "feedback_trace \<Rightarrow> bool" where
  "feedback_ok t \<longleftrightarrow>
     (\<exists>flushed. tr_commits t = flushed @ fb_lsn_mapping (tr_fb t) \<and>
        (\<forall>p\<in>set flushed. fp_local_end p \<le> tr_flushed t)) \<and>
     sorted_wrt (<) (map fp_remote_end (tr_commits t)) \<and>
     (\<forall>p\<in>set (fb_lsn_mapping (tr_fb t)). fb_last_flushpos (tr_fb t) < fp_remote_end p) \<and>
     (fb_last_flushpos (tr_fb t) \<le> fb_last_recvpos (tr_fb t) \<or>
      (\<exists>p\<in>set (tr_commits t). fb_last_flushpos (tr_fb t) \<le> fp_remote_end p))"

lemma feedback_ok_init: "feedback_ok \<lparr>tr_fb = feedback_initial, tr_commits = [], tr_flushed = lf\<rparr>"
  by (simp add: feedback_ok_def feedback_initial_def)

lemma feedback_ok_commit:
  assumes ok: "feedback_ok t" and lf: "tr_flushed t \<le> lf"
    and re: "\<forall>p\<in>set (tr_commits t). fp_remote_end p < re" "fb_last_recvpos (tr_fb t) < re"
  shows "feedback_ok \<lparr>tr_fb = track_commit sd lf le re (tr_fb t),
      tr_commits = tr_commits t @ [\<lparr>fp_local_end = le, fp_remote_end = re\<rparr>], tr_flushed = lf\<rparr>"
proof -
  define fb where "fb = (if sd then append_feedback_position lf le re (tr_fb t) else tr_fb t)"
  obtain f1 where f1: "fb_lsn_mapping (tr_fb t) = f1 @ fb_lsn_mapping fb" "\<forall>p\<in>set f1. fp_local_end p \<le> lf"
    using append_feedback_position_fields(3) [of "tr_fb t" lf le re] by (cases sd) (auto simp: fb_def)
  obtain f0 where f0: "tr_commits t = f0 @ f1 @ fb_lsn_mapping fb" "\<forall>p\<in>set f0. fp_local_end p \<le> tr_flushed t"
    using ok f1(1) by (auto simp: feedback_ok_def)
  have last: "fb_last_flushpos fb = fb_last_flushpos (tr_fb t)" "fb_last_recvpos fb = fb_last_recvpos (tr_fb t)"
    by (simp_all add: fb_def append_feedback_position_fields)
  have small: "fb_last_flushpos (tr_fb t) < re"
    using ok re by (auto simp: feedback_ok_def)
  have all: "\<forall>p\<in>set (f0 @ f1). fp_local_end p \<le> lf"
    using f0(2) f1(2) lf by auto
  have tc: "track_commit sd lf le re (tr_fb t) =
      fb\<lparr>fb_lsn_mapping := fb_lsn_mapping fb @ [\<lparr>fp_local_end = le, fp_remote_end = re\<rparr>]\<rparr>"
    by (simp add: track_commit_def fb_def Let_def)
  have "\<exists>fl. tr_commits t @ [\<lparr>fp_local_end = le, fp_remote_end = re\<rparr>] =
      fl @ fb_lsn_mapping fb @ [\<lparr>fp_local_end = le, fp_remote_end = re\<rparr>] \<and> (\<forall>p\<in>set fl. fp_local_end p \<le> lf)"
    using f0(1) all by (intro exI [of _ "f0 @ f1"]) simp
  moreover have "sorted_wrt (<) (map fp_remote_end (tr_commits t @ [\<lparr>fp_local_end = le, fp_remote_end = re\<rparr>]))"
    using ok re(1) by (auto simp: feedback_ok_def sorted_wrt_append)
  moreover have "\<forall>p\<in>set (fb_lsn_mapping fb). fb_last_flushpos fb < fp_remote_end p"
    using ok f1(1) last by (auto simp: feedback_ok_def)
  ultimately show ?thesis
    using small last by (auto simp: feedback_ok_def tc)
qed

lemma feedback_ok_feedback:
  assumes ok: "feedback_ok t" and lf: "tr_flushed t \<le> lf"
    and s: "send_feedback sync lf sent junk recvpos now force (tr_fb t) = (Inr r, fb)"
  shows "feedback_ok (t\<lparr>tr_fb := fb, tr_flushed := lf\<rparr>)"
proof -
  obtain d w f where g: "get_flush_position lf (fb_lsn_mapping (tr_fb t)) = (d, w, f, fb_lsn_mapping fb)"
    and recv: "fb_last_recvpos (tr_fb t) \<le> fb_last_recvpos fb"
    and flush: "fb_last_flushpos fb = fb_last_flushpos (tr_fb t) \<or>
      (d \<and> fb_last_flushpos fb \<le> fb_last_recvpos fb) \<or> (\<not> d \<and> fb_last_flushpos fb = f)"
    using send_feedback_effect [OF s] by blast
  obtain f1 where f1: "fb_lsn_mapping (tr_fb t) = f1 @ fb_lsn_mapping fb" "\<forall>p\<in>set f1. fp_local_end p \<le> lf"
    "d \<longleftrightarrow> fb_lsn_mapping fb = []" "f = (if f1 = [] then InvalidXLogRecPtr else fp_remote_end (last f1))"
    using get_flush_position_split [OF g] by blast
  obtain f0 where f0: "tr_commits t = f0 @ f1 @ fb_lsn_mapping fb" "\<forall>p\<in>set f0. fp_local_end p \<le> tr_flushed t"
    using ok f1(1) by (auto simp: feedback_ok_def)
  have all: "\<forall>p\<in>set (f0 @ f1). fp_local_end p \<le> lf"
    using f0(2) f1(2) lf by auto
  have rest: "fp_remote_end q < fp_remote_end p" if "q \<in> set f1" "p \<in> set (fb_lsn_mapping fb)" for p q
    using ok that f0(1) by (auto simp: feedback_ok_def sorted_wrt_append)
  have old: "fb_last_flushpos (tr_fb t) < fp_remote_end p" if "p \<in> set (fb_lsn_mapping fb)" for p
    using ok that f1(1) by (auto simp: feedback_ok_def)
  then have "0 < fp_remote_end p" if "p \<in> set (fb_lsn_mapping fb)" for p
    using that word_zero_le le_less_trans by blast
  then have "\<forall>p\<in>set (fb_lsn_mapping fb). fb_last_flushpos fb < fp_remote_end p"
    using flush old f1 rest by auto
  moreover have "fb_last_flushpos fb \<le> fb_last_recvpos fb \<or> (\<exists>p\<in>set (tr_commits t). fb_last_flushpos fb \<le> fp_remote_end p)"
  proof -
    have "f = InvalidXLogRecPtr \<or> (\<exists>p\<in>set (tr_commits t). f \<le> fp_remote_end p)"
      using f1(4) f0(1) by (auto intro: bexI [of _ "last f1"])
    then show ?thesis
      using flush ok recv order.trans [OF _ recv] by (auto simp: feedback_ok_def)
  qed
  ultimately show ?thesis
    using ok f0(1) all by (auto simp: feedback_ok_def intro: exI [of _ "f0 @ f1"])
qed

lemma feedback_reach_ok: "feedback_reach t \<Longrightarrow> feedback_ok t"
  by (induction rule: feedback_reach.induct)
    (simp_all add: feedback_ok_init feedback_ok_commit feedback_ok_feedback)

text \<open>
  C15: The flush position that the worker reports never covers a commit that is not yet flushed
  locally.  Over every sequence of commits and feedback calls, with or without a synchronous standby
  and whatever positions are passed in, a commit beyond the local flush position ends beyond the
  last reported flush position, so the publisher still keeps its transaction.
\<close>

theorem reported_flush_is_durable:
  assumes "feedback_reach t" and "p \<in> set (tr_commits t)" and "tr_flushed t < fp_local_end p"
  shows "fb_last_flushpos (tr_fb t) < fp_remote_end p"
  using feedback_reach_ok [OF assms(1)] assms(2,3) unfolding feedback_ok_def by fastforce

text \<open>Two commits, of which the first is flushed when the feedback is sent.\<close>

definition demo_feedback :: "feedback \<times> feedback" where
  "demo_feedback =
     (let fb = track_commit False 0 10 100 feedback_initial;
          fb = track_commit False 0 20 200 fb
      in (fb, snd (send_feedback None 10 (\<lambda>_. True) (0, 0) 200 7 False fb)))"

theorem reported_flush_is_durable_witness:
  "fb_last_flushpos (snd demo_feedback) = 100 \<and> fb_last_flushpos (snd demo_feedback) < 200"
proof -
  have fb: "demo_feedback =
      (feedback_initial\<lparr>fb_lsn_mapping := [\<lparr>fp_local_end = 10, fp_remote_end = 100\<rparr>, \<lparr>fp_local_end = 20, fp_remote_end = 200\<rparr>]\<rparr>,
       feedback_initial\<lparr>fb_lsn_mapping := [\<lparr>fp_local_end = 20, fp_remote_end = 200\<rparr>], fb_last_recvpos := 200,
         fb_last_writepos := 200, fb_last_flushpos := 100\<rparr>)"
    by (simp add: demo_feedback_def track_commit_def send_feedback_def get_flush_position_def feedback_initial_def Let_def)
  have "feedback_reach \<lparr>tr_fb = track_commit False 0 20 200 (track_commit False 0 10 100 feedback_initial),
      tr_commits = [\<lparr>fp_local_end = 10, fp_remote_end = 100\<rparr>, \<lparr>fp_local_end = 20, fp_remote_end = 200\<rparr>], tr_flushed = 0\<rparr>"
    using feedback_reach.commit [OF feedback_reach.commit [OF feedback_reach.init [of 0], of 0 10 100 False], of 0 20 200 False]
    by (simp add: track_commit_def feedback_initial_def)
  from feedback_reach.feedback [OF this, of 10 None "\<lambda>_. True" "(0, 0)" 200 7 False]
  have "feedback_reach \<lparr>tr_fb = snd demo_feedback,
      tr_commits = [\<lparr>fp_local_end = 10, fp_remote_end = 100\<rparr>, \<lparr>fp_local_end = 20, fp_remote_end = 200\<rparr>], tr_flushed = 10\<rparr>"
    by (simp add: demo_feedback_def track_commit_def send_feedback_def get_flush_position_def feedback_initial_def Let_def)
  from reported_flush_is_durable [OF this, of "\<lparr>fp_local_end = 20, fp_remote_end = 200\<rparr>"] show ?thesis
    by (simp add: fb)
qed



lemma get_feedback_position_held:
  "\<forall>h\<in>set holds. sync_flush < sp_local_commit_lsn h \<Longrightarrow>
   \<exists>m. get_feedback_position sync_flush ps holds = (ps\<lparr>ps_max_recvpos := m\<rparr>, holds)"
proof (induction holds arbitrary: ps)
  case Nil
  then show ?case by (auto intro: exI [of _ "ps_max_recvpos ps"])
next
  case (Cons h holds)
  then obtain m where "get_feedback_position sync_flush (ps\<lparr>ps_max_recvpos := sp_remote_recvpos h\<rparr>) holds =
      (ps\<lparr>ps_max_recvpos := m\<rparr>, holds)"
    using Cons.IH [of "ps\<lparr>ps_max_recvpos := sp_remote_recvpos h\<rparr>"] by auto
  then show ?case using Cons.prems by auto
qed

text \<open>
  C35: The hold for a synchronous standby does not hold anything back.  Although the standby has none
  of the held commits, a feedback call that finds the local commits flushed reports a flush position
  that covers them: the positions of the hold are overwritten by those of the local flush.
\<close>

theorem sync_hold_does_not_hold:
  assumes "\<forall>h\<in>set (fb_sync_replica_lsn fb). sync_flush < sp_local_commit_lsn h"
    and "\<forall>p\<in>set (fb_lsn_mapping fb). fp_local_end p \<le> local_flush"
    and "h \<in> set (fb_sync_replica_lsn fb)" and "sp_remote_recvpos h \<le> recvpos"
  shows "\<exists>su fb'. send_feedback (Some sync_flush) local_flush (\<lambda>_. True) junk recvpos now True fb = (Inr (Some su), fb') \<and>
    sp_remote_recvpos h \<le> su_flush su \<and> h \<in> set (fb_sync_replica_lsn fb')"
proof -
  obtain w f where g: "get_flush_position local_flush (fb_lsn_mapping fb) = (True, w, f, [])"
    using all_flushed [OF assms(2), of InvalidXLogRecPtr InvalidXLogRecPtr] by (auto simp: get_flush_position_def)
  obtain m where m: "get_feedback_position sync_flush \<lparr>ps_recvpos = recvpos, ps_writepos = fst junk,
      ps_flushpos = snd junk, ps_max_recvpos = fb_max_recvpos fb\<rparr> (fb_sync_replica_lsn fb) =
      (\<lparr>ps_recvpos = recvpos, ps_writepos = fst junk, ps_flushpos = snd junk, ps_max_recvpos = m\<rparr>, fb_sync_replica_lsn fb)"
    using get_feedback_position_held [OF assms(1), of "\<lparr>ps_recvpos = recvpos, ps_writepos = fst junk,
      ps_flushpos = snd junk, ps_max_recvpos = fb_max_recvpos fb\<rparr>"] by auto
  show ?thesis
    using assms(3,4) by (simp add: send_feedback_def Let_def g m if_less_max le_max_iff_disj)
qed

theorem sync_hold_does_not_hold_witness:
  "\<exists>su fb'. send_feedback (Some 5) 10 (\<lambda>_. True) (0, 0) 100 7 True (track_commit True 10 10 100 feedback_initial)
     = (Inr (Some su), fb') \<and> 100 \<le> su_flush su \<and> fb_sync_replica_lsn fb' \<noteq> []"
proof -
  let ?h = "\<lparr>sp_local_commit_lsn = 10, sp_remote_recvpos = 100, sp_remote_flushpos = 100, sp_remote_writepos = 100\<rparr>"
  have "fb_sync_replica_lsn (track_commit True 10 10 100 feedback_initial) = [?h]"
    "fb_lsn_mapping (track_commit True 10 10 100 feedback_initial) = [\<lparr>fp_local_end = 10, fp_remote_end = 100\<rparr>]"
    by (simp_all add: track_commit_def append_feedback_position_def get_flush_position_def feedback_initial_def Let_def)
  with sync_hold_does_not_hold [of "track_commit True 10 10 100 feedback_initial" 5 10 ?h 100 "(0, 0)" 7]
  show ?thesis by force
qed

end
