(* ===== verification/Spock_Exception.thy ===== *)
theory Spock_Exception
  imports Spock_Apply_Heap "HOL-Library.Sublist"
begin

text \<open>
  Exception handling of the apply worker: the settings and the shared array of slots that survives
  a restart (\<open>src/spock_apply.c\<close>, the slot search of \<open>handle_begin\<close> and the logging helpers), and
  the rows of the exception table (\<open>src/spock_exception_handler.c\<close>).  A row keeps the tuples
  themselves; rendering them as JSON is not modelled here.
\<close>

section \<open>Settings\<close>

datatype SpockExceptionBehaviour = DISCARD | TRANSDISCARD | SUB_DISABLE

datatype SpockExceptionLogging = LOG_NONE | LOG_DISCARD | LOG_ALL

record exception_settings =
  xs_behaviour :: SpockExceptionBehaviour
  xs_logging :: SpockExceptionLogging

definition should_log_exception :: "exception_settings \<Rightarrow> bool \<Rightarrow> bool" where
  "should_log_exception xs failed =
     (if xs_logging xs \<noteq> LOG_NONE then
        (if failed then True
         else if xs_logging xs = LOG_ALL \<or> xs_behaviour xs = TRANSDISCARD \<or> xs_behaviour xs = SUB_DISABLE then True
         else False)
      else False)"

definition get_exception_behaviour_name :: "exception_settings \<Rightarrow> bytes" where
  "get_exception_behaviour_name xs =
     (case xs_behaviour xs of
        DISCARD \<Rightarrow> cs ''discard'' | TRANSDISCARD \<Rightarrow> cs ''transdiscard'' | SUB_DISABLE \<Rightarrow> cs ''sub_disable'')"

section \<open>Slots\<close>

text \<open>
  One slot of the shared array.  \<open>el_local_tuple\<close> is the row that the last operation found.
\<close>

record 'd SpockExceptionLog =
  el_slot_name :: bytes
  el_commit_lsn :: XLogRecPtr
  el_local_tuple :: "'d local_row option"
  el_initial_error_message :: bytes
  el_failed_action :: uint32

definition empty_exception_log :: "'d SpockExceptionLog" where
  "empty_exception_log = \<lparr>el_slot_name = [], el_commit_lsn = InvalidXLogRecPtr, el_local_tuple = None,
     el_initial_error_message = [], el_failed_action = 0\<rparr>"


text \<open>\<open>strncmp (slot_name, sub, strlen (sub)) == 0\<close>.\<close>

definition slot_name_matches :: "bytes \<Rightarrow> 'd SpockExceptionLog \<Rightarrow> bool" where
  "slot_name_matches sub e \<longleftrightarrow> take (length sub) (el_slot_name e) = sub"

datatype exception_error = No_empty_exception_slot

text \<open>
  The search of \<open>handle_begin\<close>.  \<open>mem\<close> are the entries that the loops visit, index
  \<open>total_workers\<close> included, which is the memory behind the array; \<open>mem1\<close> is what the first loop
  sees without the lock, \<open>mem2\<close> what is there under the lock.  The result is the index, whether the
  slot was found, and the memory.
\<close>

definition slot_search_locked ::
    "bytes \<Rightarrow> XLogRecPtr \<Rightarrow> 'd SpockExceptionLog list \<Rightarrow> exception_error + (nat \<times> bool \<times> 'd SpockExceptionLog list)" where
  "slot_search_locked sub commit_lsn mem2 =
     (let found = first_slot (slot_name_matches sub) mem2;
          visited = (case found of Some i \<Rightarrow> take i mem2 | None \<Rightarrow> mem2)
      in case first_slot (\<lambda>e. el_slot_name e = []) visited of
           None \<Rightarrow> Inl No_empty_exception_slot
         | Some free \<Rightarrow>
             (case found of
                Some i \<Rightarrow> Inr (i, True, mem2)
              | None \<Rightarrow> Inr (free, False,
                  mem2[free := (mem2 ! free)\<lparr>el_slot_name := take (NAMEDATALEN - 1) sub,
                                 el_commit_lsn := commit_lsn, el_local_tuple := None\<rparr>])))"

definition find_exception_slot ::
    "bytes \<Rightarrow> XLogRecPtr \<Rightarrow> 'd SpockExceptionLog list \<Rightarrow> 'd SpockExceptionLog list
     \<Rightarrow> exception_error + (nat \<times> bool \<times> bool \<times> 'd SpockExceptionLog list)" where
  "find_exception_slot sub commit_lsn mem1 mem2 =
     (case first_slot (slot_name_matches sub) mem1 of
        Some i \<Rightarrow> Inr (i, True, False, mem2)
      | None \<Rightarrow> map_sum id (\<lambda>(i, found, mem). (i, found, True, mem)) (slot_search_locked sub commit_lsn mem2))"

text \<open>
  What \<open>handle_begin\<close> does with the slot: on the first transaction after a start it looks for it, and
  a slot that already holds this commit means that the transaction has failed before.  The result is
  the index of the slot, whether the try block is used, whether the transaction was recognised, and
  the memory.
\<close>

definition exception_begin ::
    "bytes \<Rightarrow> XLogRecPtr \<Rightarrow> bool \<Rightarrow> nat \<Rightarrow> bool \<Rightarrow> 'd SpockExceptionLog list \<Rightarrow> 'd SpockExceptionLog list
     \<Rightarrow> exception_error + (nat \<times> bool \<times> bool \<times> 'd SpockExceptionLog list)" where
  "exception_begin sub commit_lsn first_begin my_index use_try mem1 mem2 =
     (if first_begin then
        res_bind (find_exception_slot sub commit_lsn mem1 mem2) (\<lambda>(i, found, relooked, mem).
          let use_try = (if relooked then False else use_try);
              hit = (found \<and> el_commit_lsn (mem ! i) = commit_lsn)
          in Inr (i, use_try \<or> hit, hit, mem[i := (mem ! i)\<lparr>el_commit_lsn := commit_lsn\<rparr>]))
      else Inr (my_index, use_try, False, mem2[my_index := (mem2 ! my_index)\<lparr>el_commit_lsn := commit_lsn\<rparr>]))"

section \<open>Messages and rows\<close>

text \<open>An error of the server: its code, as the five characters of the SQLSTATE, and its text.\<close>

record ErrorData =
  ed_sqlstate :: bytes
  ed_message :: "bytes option"

definition errmsg_with_sqlstate :: "ErrorData option \<Rightarrow> bytes" where
  "errmsg_with_sqlstate edata =
     (let sqlstate = (case edata of Some e \<Rightarrow> ed_sqlstate e | None \<Rightarrow> cs ''XX000'');
          detail = (case Option.bind edata ed_message of Some m \<Rightarrow> m | None \<Rightarrow> cs ''(no error detail captured)'')
      in if sqlstate = cs ''XX000'' then detail else cs ''[SQLSTATE '' @ sqlstate @ cs ''] '' @ detail)"

definition discard_collateral_message ::
    "exception_settings \<Rightarrow> 'd SpockExceptionLog \<Rightarrow> bytes \<Rightarrow> bytes" where
  "discard_collateral_message xs e what =
     (if el_failed_action e \<noteq> 0 then
        get_exception_behaviour_name xs @ cs '': '' @ what @
        cs '' discarded due to exception at command_counter '' @ show_nat (unat (el_failed_action e))
      else if el_initial_error_message e \<noteq> [] then
        get_exception_behaviour_name xs @ cs '': '' @ what @
        cs '' discarded due to exception: '' @ el_initial_error_message e
      else get_exception_behaviour_name xs @ cs '': '' @ what @
        cs '' discarded due to exception (root cause not captured)'')"

record 'd exception_row =
  xr_remote_origin :: Oid
  xr_remote_commit_ts :: TimestampTz
  xr_command_counter :: uint32
  xr_retry_errored_at :: TimestampTz
  xr_remote_xid :: TransactionId
  xr_local_origin :: "Oid option"
  xr_local_commit_ts :: "TimestampTz option"
  xr_schema :: "bytes option"
  xr_table :: "bytes option"
  xr_operation :: bytes
  xr_local_tup :: "'d slot option"
  xr_remote_old_tup :: "'d SpockTupleData option"
  xr_remote_new_tup :: "'d SpockTupleData option"
  xr_ddl_statement :: "bytes option"
  xr_ddl_user :: "bytes option"
  xr_error_message :: bytes

text \<open>
  The transaction that a row is about, the counter of commands and the time are variables of the
  process; \<open>ddl\<close> is the statement with its user.
\<close>

record exception_context =
  xc_remote_origin :: Oid
  xc_remote_commit_ts :: TimestampTz
  xc_remote_xid :: TransactionId
  xc_command_counter :: uint32
  xc_now :: TimestampTz

definition add_entry_to_exception_log ::
    "exception_context \<Rightarrow> RepOriginId \<Rightarrow> TimestampTz \<Rightarrow> SpockRelation option \<Rightarrow> 'd local_row option
     \<Rightarrow> 'd SpockTupleData option \<Rightarrow> 'd SpockTupleData option \<Rightarrow> (bytes \<times> bytes) option \<Rightarrow> bytes \<Rightarrow> bytes option
     \<Rightarrow> 'd exception_row" where
  "add_entry_to_exception_log xc local_origin local_commit_ts targetrel localtup oldtup newtup ddl operation error_message =
     (let message = (case error_message of Some m \<Rightarrow> m | None \<Rightarrow> cs ''unavailable'') in
      case ddl of
        None \<Rightarrow>
          \<lparr>xr_remote_origin = xc_remote_origin xc, xr_remote_commit_ts = xc_remote_commit_ts xc,
           xr_command_counter = xc_command_counter xc, xr_retry_errored_at = xc_now xc,
           xr_remote_xid = xc_remote_xid xc,
           xr_local_origin = map_option (\<lambda>_. ucast local_origin) localtup,
           xr_local_commit_ts = map_option (\<lambda>_. local_commit_ts) localtup,
           xr_schema = Some (case targetrel of None \<Rightarrow> [] | Some r \<Rightarrow> sr_nspname r),
           xr_table = Some (case targetrel of None \<Rightarrow> [] | Some r \<Rightarrow> sr_relname r),
           xr_operation = operation, xr_local_tup = map_option lr_slot localtup,
           xr_remote_old_tup = oldtup, xr_remote_new_tup = newtup,
           xr_ddl_statement = None, xr_ddl_user = None, xr_error_message = message\<rparr>
      | Some (statement, user) \<Rightarrow>
          \<lparr>xr_remote_origin = xc_remote_origin xc, xr_remote_commit_ts = xc_remote_commit_ts xc,
           xr_command_counter = xc_command_counter xc, xr_retry_errored_at = xc_now xc,
           xr_remote_xid = xc_remote_xid xc, xr_local_origin = None, xr_local_commit_ts = None,
           xr_schema = None, xr_table = None, xr_operation = cs ''DDL'', xr_local_tup = None,
           xr_remote_old_tup = None, xr_remote_new_tup = None,
           xr_ddl_statement = Some statement, xr_ddl_user = Some user, xr_error_message = message\<rparr>)"

text \<open>
  \<open>log_insert_exception\<close>: the row it adds, if any.  The origin of the local row is looked up as the
  conflict code does it; an unknown local node is an error there.
\<close>

definition exception_local_origin :: "conflict_env \<Rightarrow> 'd local_row \<Rightarrow> conflict_error + (RepOriginId \<times> TimestampTz)" where
  "exception_local_origin ce row =
     res_bind (get_tuple_origin ce (lr_xmin row) True) (\<lambda>(found, origin, ts).
       if found \<and> origin = 0
       then (case env_local_node ce of None \<Rightarrow> Inl Local_node_not_found | Some n \<Rightarrow> Inr (ucast (node_id n), ts))
       else Inr (origin, ts))"

definition log_insert_exception ::
    "exception_settings \<Rightarrow> exception_context \<Rightarrow> conflict_env \<Rightarrow> 'd SpockExceptionLog \<Rightarrow> bool \<Rightarrow> bytes option
     \<Rightarrow> SpockRelation option \<Rightarrow> 'd SpockTupleData option \<Rightarrow> 'd SpockTupleData option \<Rightarrow> bytes
     \<Rightarrow> conflict_error + 'd exception_row list" where
  "log_insert_exception xs xc ce e failed errmsg rel oldtup newtup action_name =
     (if \<not> should_log_exception xs failed then Inr []
      else
        let errmsg = (case errmsg of Some m \<Rightarrow> m | None \<Rightarrow> discard_collateral_message xs e (cs ''tuple'')) in
        res_bind (case el_local_tuple e of
                    None \<Rightarrow> Inr (0, 0)
                  | Some row \<Rightarrow> exception_local_origin ce row) (\<lambda>(local_origin, local_commit_ts).
          Inr [add_entry_to_exception_log xc local_origin local_commit_ts rel (el_local_tuple e)
                 oldtup newtup None action_name (Some errmsg)]))"

text \<open>\<open>spock_disable_subscription\<close>: positions are printed as two hexadecimal halves.\<close>

fun show_hex :: "nat \<Rightarrow> bytes" where
  "show_hex n = (if n < 16 then [word_of_nat (if n < 10 then 48 + n else 55 + n)]
     else show_hex (n div 16) @ [word_of_nat (if n mod 16 < 10 then 48 + n mod 16 else 55 + n mod 16)])"

declare show_hex.simps [simp del]

definition lsn_text :: "XLogRecPtr \<Rightarrow> bytes" where
  "lsn_text lsn = show_hex (unat (drop_bit 32 lsn)) @ cs ''/'' @ show_hex (unat lsn mod 2 ^ 32)"

text \<open>The row and the counter; the subscription is disabled by \<open>alter_subscription\<close>.\<close>

definition spock_disable_subscription ::
    "exception_context \<Rightarrow> bytes \<Rightarrow> XLogRecPtr \<Rightarrow> 'd exception_row \<times> uint32" where
  "spock_disable_subscription xc sub_name lsn =
     (let counter = xc_command_counter xc + 1;
          errmsg = take 1023 (cs ''disabling subscription '' @ sub_name @
            cs '' due to exception(s) - skip_lsn = '' @ lsn_text lsn)
      in (add_entry_to_exception_log (xc\<lparr>xc_command_counter := counter\<rparr>) 0 0 None None None None None
            (cs ''SUB_DISABLE'') (Some errmsg), counter))"

section \<open>The slot of a subscription\<close>

text \<open>
  The row that an operation leaves in the slot, also when it fails afterwards: the row found, or
  none.
\<close>

definition insert_local_tuple :: "('d, 'j) heap_env \<Rightarrow> SpockRelation \<Rightarrow> 'd SpockTupleData \<Rightarrow> 'd local_row option" where
  "insert_local_tuple he rel newtup =
     (let remoteslot = slot_fill_defaults he rel (slot_store_data rel newtup) in
      case FindReplTupleInLocalRel he (sr_idxoid rel) remoteslot True of
        Some row \<Rightarrow> Some row
      | None \<Rightarrow> if ah_check_all_uc_indexes he
                then map_option fst (find_by_uc he (ah_unique_indexes he) remoteslot) else None)"

definition old_local_tuple ::
    "nat \<Rightarrow> (nat \<Rightarrow> ('d, 'j) heap_env) \<Rightarrow> 'd local_row option \<Rightarrow> SpockRelation \<Rightarrow> 'd SpockTupleData \<Rightarrow> 'd local_row option" where
  "old_local_tuple retry_count looks junk rel oldtup =
     fst (find_retry (\<lambda>n. FindReplTupleInLocalRel (looks n) (sr_idxoid rel) (slot_store_data rel oldtup) False)
            retry_count 0 junk)"



text \<open>
  C36: A subscription whose name is the beginning of another one's name takes over its slot: the
  comparison looks only at as many bytes as the own name has.  The worker then overwrites the
  position that the other subscription needs to recognise its failed transaction.
\<close>

theorem name_prefix_takes_foreign_slot:
  assumes "strict_prefix sub other" and "j < length mem" and "el_slot_name (mem ! j) = other"
    and "\<forall>i<j. \<not> slot_name_matches sub (mem ! i)"
  shows "exception_begin sub lsn True my u mem mem =
    Inr (j, u \<or> el_commit_lsn (mem ! j) = lsn, el_commit_lsn (mem ! j) = lsn, mem[j := (mem ! j)\<lparr>el_commit_lsn := lsn\<rparr>])"
proof -
  have "slot_name_matches sub (mem ! j)"
    using assms(1,3) by (auto simp: slot_name_matches_def strict_prefix_def prefix_def)
  then have "first_slot (slot_name_matches sub) mem = Some j"
    using assms(2,4) by (simp add: first_slot_Some)
  then show ?thesis
    by (simp add: exception_begin_def find_exception_slot_def Let_def)
qed

theorem name_prefix_takes_foreign_slot_witness:
  "exception_begin (cs ''sub'') 100 True 0 False [empty_exception_log\<lparr>el_slot_name := cs ''sub_b''\<rparr>]
     [(empty_exception_log :: nat SpockExceptionLog)\<lparr>el_slot_name := cs ''sub_b''\<rparr>]
   = Inr (0, False, False, [empty_exception_log\<lparr>el_slot_name := cs ''sub_b'', el_commit_lsn := 100\<rparr>])"
  using name_prefix_takes_foreign_slot [of "cs ''sub''" "cs ''sub_b''" 0
      "[(empty_exception_log :: nat SpockExceptionLog)\<lparr>el_slot_name := cs ''sub_b''\<rparr>]" 100 0 False]
  by (simp add: empty_exception_log_def cs_def strict_prefix_def)

end
