(* ===== verification/Spock_Queue.thy ===== *)
theory Spock_Queue
  imports Spock_Prelude
begin

text \<open>
  The queue table (\<open>src/spock_queue.c\<close>) and the messages that the apply worker finds in it
  (\<open>src/spock_apply.c\<close>, \<open>parse_relation_message\<close>, \<open>handle_sequence\<close> and \<open>handle_sql\<close> up to the point
  where they act).  JSON is the server's: a message is what its iterator returns, and the conversion
  from the text is a parameter.
\<close>

section \<open>JSON as the iterator gives it\<close>

datatype jsonb_value = jbvString bytes | jbvOther nat

datatype jsonb_token =
    WJB_KEY bytes
  | WJB_VALUE jsonb_value
  | WJB_ELEM jsonb_value
  | WJB_BEGIN_ARRAY
  | WJB_END_ARRAY
  | WJB_BEGIN_OBJECT
  | WJB_END_OBJECT

record Jsonb =
  jb_root_is_object :: bool
  jb_root_is_scalar :: bool
  jb_tokens :: "jsonb_token list"

datatype queue_error =
    Root_is_not_object
  | Root_is_not_scalar
  | Root_element_not_object
  | Unexpected_key bytes
  | Wrong_state_when_parsing_key
  | Unexpected_type_for_key
  | Unexpected_content
  | Missing_key bytes
  | Malformed_message
  | Invalid_json
  | Unknown_message_type byte

section \<open>The table\<close>

definition QUEUE_COMMAND_TYPE_SQL :: byte where "QUEUE_COMMAND_TYPE_SQL = ch CHR ''Q''"
definition QUEUE_COMMAND_TYPE_TABLESYNC :: byte where "QUEUE_COMMAND_TYPE_TABLESYNC = ch CHR ''A''"
definition QUEUE_COMMAND_TYPE_SEQUENCE :: byte where "QUEUE_COMMAND_TYPE_SEQUENCE = ch CHR ''S''"
definition QUEUE_COMMAND_TYPE_DDL :: byte where "QUEUE_COMMAND_TYPE_DDL = ch CHR ''D''"

text \<open>A row of the queue; the message is a value of type \<open>json\<close>, which keeps its text.\<close>

record queue_tuple =
  qt_queued_at :: TimestampTz
  qt_role :: bytes
  qt_replication_sets :: "bytes list option"
  qt_message_type :: byte
  qt_message :: bytes

record QueuedMessage =
  qm_queued_at :: TimestampTz
  qm_replication_sets :: "bytes list"
  qm_role :: bytes
  qm_message_type :: byte
  qm_message :: Jsonb

text \<open>\<open>json_valid\<close> says whether \<open>json_in\<close> takes the text, \<open>jsonb_in\<close> is the server's conversion.\<close>

definition queue_message ::
    "(bytes \<Rightarrow> bool) \<Rightarrow> TimestampTz \<Rightarrow> bytes list \<Rightarrow> bytes \<Rightarrow> byte \<Rightarrow> bytes \<Rightarrow> queue_tuple list
     \<Rightarrow> queue_error + queue_tuple list" where
  "queue_message json_valid ts replication_sets role message_type message rows =
     (if \<not> json_valid message then Inl Invalid_json
      else Inr (rows @ [\<lparr>qt_queued_at = ts, qt_role = role,
             qt_replication_sets = (if replication_sets = [] then None else Some replication_sets),
             qt_message_type = message_type, qt_message = message\<rparr>]))"

definition queued_message_from_tuple ::
    "(bytes \<Rightarrow> Jsonb option) \<Rightarrow> queue_tuple \<Rightarrow> queue_error + QueuedMessage" where
  "queued_message_from_tuple jsonb_in tup =
     (case jsonb_in (qt_message tup) of
        None \<Rightarrow> Inl Invalid_json
      | Some m \<Rightarrow> Inr \<lparr>qm_queued_at = qt_queued_at tup,
          qm_replication_sets = (case qt_replication_sets tup of None \<Rightarrow> [] | Some l \<Rightarrow> l),
          qm_role = qt_role tup, qm_message_type = qt_message_type tup, qm_message = m\<rparr>)"

section \<open>Parsing the messages\<close>

text \<open>\<open>strncmp (key, literal, key length) == 0\<close>, for a key without NUL.\<close>

definition key_is :: "bytes \<Rightarrow> bytes \<Rightarrow> bool" where
  "key_is key literal \<longleftrightarrow> take (length key) literal = key"

text \<open>
  The loop that both parsers have.  \<open>keys\<close> are the expected keys in the order of the comparisons;
  \<open>parse_res\<close> points to one of them once a key has been read, which is also when \<open>key\<close> is set.
\<close>

record parse_state =
  pj_level :: nat
  pj_parse_res :: "nat option"
  pj_values :: "nat \<Rightarrow> bytes option"

fun match_key :: "bytes \<Rightarrow> bytes list \<Rightarrow> nat option" where
  "match_key key [] = None"
| "match_key key (f # fs) = (if key_is key f then Some 0 else map_option Suc (match_key key fs))"

fun parse_object :: "bytes list \<Rightarrow> jsonb_token list \<Rightarrow> parse_state \<Rightarrow> queue_error + parse_state" where
  "parse_object keys [] ps = Inr ps"
| "parse_object keys (r # rs) ps =
     (if pj_level ps = 0 then
        (case r of
           WJB_BEGIN_OBJECT \<Rightarrow> parse_object keys rs (ps\<lparr>pj_level := 1\<rparr>)
         | _ \<Rightarrow> Inl Root_element_not_object)
      else
        (case r of
           WJB_KEY key \<Rightarrow>
             (case match_key key keys of
                None \<Rightarrow> Inl (Unexpected_key key)
              | Some i \<Rightarrow> parse_object keys rs (ps\<lparr>pj_parse_res := Some i\<rparr>))
         | WJB_VALUE v \<Rightarrow>
             (case pj_parse_res ps of
                None \<Rightarrow> Inl Wrong_state_when_parsing_key
              | Some i \<Rightarrow>
                  (case v of
                     jbvString s \<Rightarrow> parse_object keys rs (ps\<lparr>pj_values := (pj_values ps)(i := Some s)\<rparr>)
                   | _ \<Rightarrow> Inl Unexpected_type_for_key))
         | WJB_END_OBJECT \<Rightarrow> parse_object keys rs (ps\<lparr>pj_level := 0, pj_parse_res := None\<rparr>)
         | _ \<Rightarrow> Inl Unexpected_content))"

definition parse_fields :: "bytes list \<Rightarrow> Jsonb \<Rightarrow> queue_error + (nat \<Rightarrow> bytes option)" where
  "parse_fields keys message =
     (if \<not> jb_root_is_object message then Inl Root_is_not_object
      else map_sum id pj_values (parse_object keys (jb_tokens message)
             \<lparr>pj_level = 0, pj_parse_res = None, pj_values = (\<lambda>_. None)\<rparr>))"

definition require :: "bytes \<Rightarrow> 'a option \<Rightarrow> queue_error + 'a" where
  "require key v = (case v of None \<Rightarrow> Inl (Missing_key key) | Some x \<Rightarrow> Inr x)"

definition parse_relation_message :: "Jsonb \<Rightarrow> queue_error + (bytes \<times> bytes)" where
  "parse_relation_message message =
     res_bind (parse_fields [cs ''schema_name'', cs ''table_name''] message) (\<lambda>values.
     res_bind (require (cs ''schema_name'') (values 0)) (\<lambda>nspname.
     res_bind (require (cs ''table_name'') (values 1)) (\<lambda>relname. Inr (nspname, relname))))"

definition parse_sequence_message :: "Jsonb \<Rightarrow> queue_error + (bytes \<times> bytes \<times> bytes)" where
  "parse_sequence_message message =
     res_bind (parse_fields [cs ''schema_name'', cs ''sequence_name'', cs ''last_value''] message) (\<lambda>values.
     res_bind (require (cs ''schema_name'') (values 0)) (\<lambda>nspname.
     res_bind (require (cs ''table_name'') (values 1)) (\<lambda>relname.
     res_bind (require (cs ''last_value'') (values 2)) (\<lambda>last_value. Inr (nspname, relname, last_value)))))"

text \<open>The statement of an SQL message: a scalar, which the iterator shows as an array of one element.\<close>

definition parse_sql_message :: "Jsonb \<Rightarrow> queue_error + bytes" where
  "parse_sql_message message =
     (if \<not> jb_root_is_scalar message then Inl Root_is_not_scalar
      else case jb_tokens message of
             [WJB_BEGIN_ARRAY, WJB_ELEM (jbvString sql), WJB_END_ARRAY] \<Rightarrow> Inr sql
           | _ \<Rightarrow> Inl Malformed_message)"

section \<open>What the parsers accept\<close>

text \<open>The members of an object as tokens.\<close>

definition object_tokens :: "(bytes \<times> bytes) list \<Rightarrow> jsonb_token list" where
  "object_tokens kvs = WJB_BEGIN_OBJECT # concat (map (\<lambda>(k, v). [WJB_KEY k, WJB_VALUE (jbvString v)]) kvs) @ [WJB_END_OBJECT]"

lemma parse_members:
  assumes "list_all (\<lambda>(k, v). match_key k keys = Some (idx k)) kvs" and "pj_level ps = 1"
  shows "\<exists>res. parse_object keys (concat (map (\<lambda>(k, v). [WJB_KEY k, WJB_VALUE (jbvString v)]) kvs) @ rest) ps =
    parse_object keys rest
      (ps\<lparr>pj_parse_res := res, pj_values := fold (\<lambda>(k, v) f. f(idx k := Some v)) kvs (pj_values ps)\<rparr>)"
  using assms
proof (induction kvs arbitrary: ps)
  case Nil
  then show ?case by (auto intro: exI [of _ "pj_parse_res ps"])
next
  case (Cons kv kvs)
  obtain k v where kv: "kv = (k, v)" by fastforce
  let ?ps = "ps\<lparr>pj_parse_res := Some (idx k), pj_values := (pj_values ps)(idx k := Some v)\<rparr>"
  from Cons.IH [of ?ps] Cons.prems show ?case by (auto simp: kv)
qed

lemma parse_fields_object:
  assumes "list_all (\<lambda>(k, v). match_key k keys = Some (idx k)) kvs"
    and "jb_root_is_object message" and "jb_tokens message = object_tokens kvs"
  shows "parse_fields keys message = Inr (fold (\<lambda>(k, v) f. f(idx k := Some v)) kvs (\<lambda>_. None))"
  using parse_members [OF assms(1), of "\<lparr>pj_level = 1, pj_parse_res = None, pj_values = (\<lambda>_. None)\<rparr>" "[WJB_END_OBJECT]"]
  by (auto simp: parse_fields_def assms(2,3) object_tokens_def)

end
