(* ===== verification/Spock_Sequences.thy ===== *)
theory Spock_Sequences
  imports Spock_Queue "HOL-Library.Multiset"
begin

text \<open>
  Replication of sequences (\<open>src/spock_sequences.c\<close>).  The provider keeps for each sequence a value
  ahead of the current one and queues a message when the current value comes close to it; the
  subscriber sets its sequence to the value of the message.  Values are C \<open>int64\<close>, buffer sizes
  C \<open>int32\<close>; the server is compiled so that they wrap.
\<close>

section \<open>State\<close>

definition SEQUENCE_REPLICATION_MIN_CACHE :: uint32 where "SEQUENCE_REPLICATION_MIN_CACHE = 1000"
definition SEQUENCE_REPLICATION_MAX_CACHE :: uint32 where "SEQUENCE_REPLICATION_MAX_CACHE = 1000000"

record SeqStateTuple =
  seq_seqoid :: Oid
  seq_cache_size :: uint32
  seq_last_value :: uint64

text \<open>
  The server's side: the current value of a sequence, its schema and name, the replication sets it
  is in, the text that \<open>escape_json\<close> makes of a string, the user, the clock and \<open>json_in\<close>.
\<close>

record seq_server =
  sv_last_value :: "Oid \<Rightarrow> uint64"
  sv_nspname :: "Oid \<Rightarrow> bytes"
  sv_relname :: "Oid \<Rightarrow> bytes"
  sv_repsets :: "Oid \<Rightarrow> bytes list"
  sv_escape_json :: "bytes \<Rightarrow> bytes"
  sv_user :: bytes
  sv_now :: TimestampTz
  sv_json_valid :: "bytes \<Rightarrow> bool"

definition show_int64 :: "uint64 \<Rightarrow> bytes" where
  "show_int64 w = (if sint w < 0 then cs ''-'' @ show_nat (nat (- sint w)) else show_nat (nat (sint w)))"

definition sequence_json :: "(bytes \<Rightarrow> bytes) \<Rightarrow> bytes \<Rightarrow> bytes \<Rightarrow> uint64 \<Rightarrow> bytes" where
  "sequence_json escape_json nspname relname last_value =
     cs ''{\"schema_name\": '' @ escape_json nspname @ cs '',\"sequence_name\": '' @ escape_json relname @
     cs '',\"last_value\": \"'' @ show_int64 last_value @ cs ''\"'' @ cs ''}''"

definition int32_to_64 :: "uint32 \<Rightarrow> uint64" where
  "int32_to_64 w = scast w"

section \<open>Operations\<close>

definition queue_sequence ::
    "seq_server \<Rightarrow> SeqStateTuple \<Rightarrow> queue_tuple list \<Rightarrow> queue_error + queue_tuple list" where
  "queue_sequence sv newseq rows =
     (let oid = seq_seqoid newseq;
          json = sequence_json (sv_escape_json sv) (sv_nspname sv oid) (sv_relname sv oid) (seq_last_value newseq)
      in queue_message (sv_json_valid sv) (sv_now sv) (sv_repsets sv oid) (sv_user sv)
           QUEUE_COMMAND_TYPE_SEQUENCE json rows)"

text \<open>The state after a look at one sequence, whether it changed, and whether it was used slowly.\<close>

definition advance_sequence :: "uint64 \<Rightarrow> SeqStateTuple \<Rightarrow> SeqStateTuple \<times> bool \<times> bool" where
  "advance_sequence last_value oldseq =
     (if sint (seq_last_value oldseq) \<ge> sint (last_value + int32_to_64 SEQUENCE_REPLICATION_MIN_CACHE div 2)
      then (oldseq, False, True)
      else
        let ret = \<not> (sint (seq_last_value oldseq + int32_to_64 (seq_cache_size oldseq div 2)) < sint last_value);
            cache = (if sint (seq_last_value oldseq + int32_to_64 (seq_cache_size oldseq)) \<le> sint last_value
                     then (if sint (seq_cache_size oldseq * 2) < sint SEQUENCE_REPLICATION_MAX_CACHE
                           then seq_cache_size oldseq * 2 else SEQUENCE_REPLICATION_MAX_CACHE)
                     else seq_cache_size oldseq)
        in (oldseq\<lparr>seq_cache_size := cache, seq_last_value := last_value + int32_to_64 cache\<rparr>, True, ret))"

text \<open>The scan over the table; the result is the table, the queue and whether no sequence is used fast.\<close>

fun synchronize_scan ::
    "seq_server \<Rightarrow> SeqStateTuple list \<Rightarrow> queue_tuple list
     \<Rightarrow> queue_error + (SeqStateTuple list \<times> queue_tuple list \<times> bool)" where
  "synchronize_scan sv [] rows = Inr ([], rows, True)"
| "synchronize_scan sv (oldseq # seqs) rows =
     (case advance_sequence (sv_last_value sv (seq_seqoid oldseq)) oldseq of
        (newseq, changed, slow) \<Rightarrow>
          res_bind (if changed then queue_sequence sv newseq rows else Inr rows) (\<lambda>rows.
          res_bind (synchronize_scan sv seqs rows) (\<lambda>(seqs, rows, ret).
            Inr (newseq # seqs, rows, slow \<and> ret))))"

definition synchronize_sequences ::
    "seq_server \<Rightarrow> bool \<Rightarrow> SeqStateTuple list \<Rightarrow> queue_tuple list
     \<Rightarrow> queue_error + (SeqStateTuple list \<times> queue_tuple list \<times> bool)" where
  "synchronize_sequences sv have_local_node seqs rows =
     (if \<not> have_local_node then Inr (seqs, rows, True) else synchronize_scan sv seqs rows)"

datatype sequence_error =
    Not_a_sequence
  | Not_a_replicated_sequence
  | Sequence_queue queue_error

definition replace_state :: "SeqStateTuple \<Rightarrow> SeqStateTuple list \<Rightarrow> SeqStateTuple list" where
  "replace_state newseq = map (\<lambda>s. if seq_seqoid s = seq_seqoid newseq then newseq else s)"

definition synchronize_sequence ::
    "seq_server \<Rightarrow> bool \<Rightarrow> Oid \<Rightarrow> SeqStateTuple list \<Rightarrow> queue_tuple list
     \<Rightarrow> sequence_error + (SeqStateTuple list \<times> queue_tuple list)" where
  "synchronize_sequence sv is_sequence seqoid seqs rows =
     (if \<not> is_sequence then Inl Not_a_sequence
      else case find (\<lambda>s. seq_seqoid s = seqoid) seqs of
             None \<Rightarrow> Inl Not_a_replicated_sequence
           | Some oldseq \<Rightarrow>
               (let newseq = oldseq\<lparr>seq_last_value := sv_last_value sv seqoid + int32_to_64 (seq_cache_size oldseq)\<rparr>
                in case queue_sequence sv newseq rows of
                     Inl e \<Rightarrow> Inl (Sequence_queue e)
                   | Inr rows \<Rightarrow> Inr (replace_state newseq seqs, rows)))"

definition spock_create_sequence_state_record ::
    "seq_server \<Rightarrow> Oid \<Rightarrow> SeqStateTuple list \<Rightarrow> SeqStateTuple list" where
  "spock_create_sequence_state_record sv seqoid seqs =
     (case find (\<lambda>s. seq_seqoid s = seqoid) seqs of
        Some _ \<Rightarrow> seqs
      | None \<Rightarrow> seqs @ [\<lparr>seq_seqoid = seqoid, seq_cache_size = SEQUENCE_REPLICATION_MIN_CACHE,
                         seq_last_value = sv_last_value sv seqoid\<rparr>])"

text \<open>The scan finds at most the first record of the sequence.\<close>

fun spock_drop_sequence_state_record :: "Oid \<Rightarrow> SeqStateTuple list \<Rightarrow> SeqStateTuple list" where
  "spock_drop_sequence_state_record seqoid [] = []"
| "spock_drop_sequence_state_record seqoid (s # seqs) =
     (if seq_seqoid s = seqoid then seqs else s # spock_drop_sequence_state_record seqoid seqs)"

text \<open>
  What the subscriber does with the message: parse it and set the sequence.  \<open>strtoint64\<close> is
  \<open>pg_strtoint64\<close>, \<open>setval\<close> the server's function on a schema and a name.
\<close>

datatype setval_error = Sequence_message queue_error | Invalid_last_value bytes | Setval_failed

definition handle_sequence ::
    "(bytes \<Rightarrow> uint64 option) \<Rightarrow> (bytes \<Rightarrow> bytes \<Rightarrow> uint64 \<Rightarrow> 'db \<Rightarrow> 'db option) \<Rightarrow> Jsonb \<Rightarrow> 'db \<Rightarrow> setval_error + 'db" where
  "handle_sequence strtoint64 setval message db =
     (case parse_sequence_message message of
        Inl e \<Rightarrow> Inl (Sequence_message e)
      | Inr (nspname, relname, last_value_raw) \<Rightarrow>
          (case strtoint64 last_value_raw of
             None \<Rightarrow> Inl (Invalid_last_value last_value_raw)
           | Some last_value \<Rightarrow>
               (case setval nspname relname last_value db of None \<Rightarrow> Inl Setval_failed | Some db \<Rightarrow> Inr db)))"

section \<open>The announced value stays ahead\<close>

definition seq_cache_ok :: "SeqStateTuple \<Rightarrow> bool" where
  "seq_cache_ok s \<longleftrightarrow> 1000 \<le> uint (seq_cache_size s) \<and> uint (seq_cache_size s) \<le> 1000000"

text \<open>A value that is far enough from the largest one for the additions below.\<close>

definition value_in_range :: "uint64 \<Rightarrow> bool" where
  "value_in_range v \<longleftrightarrow> sint v + 1000000 < 2 ^ 63"

lemma sint_plus_small:
  fixes v :: uint64
  assumes "value_in_range v" and "0 \<le> k" "k \<le> 1000000" and "sint w = k"
  shows "sint (v + w) = sint v + k"
proof -
  have "- (2 ^ 63) \<le> sint v" using sint_ge [of v] by simp
  then show ?thesis
    using assms by (simp add: value_in_range_def signed_take_bit_int_eq_self sint_word_ariths)
qed

lemma sint_cache:
  "uint w \<le> 1000000 \<Longrightarrow> sint (int32_to_64 w) = uint w"
  "uint w \<le> 1000000 \<Longrightarrow> sint (int32_to_64 (w div 2)) = uint w div 2"
  "uint w \<le> 1000000 \<Longrightarrow> sint w = uint w"
  "uint w \<le> 1000000 \<Longrightarrow> uint (w * 2) = uint w * 2"
  for w :: uint32
proof -
  have g: "- (2 ^ 31) \<le> uint x" for x :: uint32
    by (rule order_trans [OF _ uint_ge_0]) simp
  have s: "uint x \<le> 1000000 \<Longrightarrow> sint x = uint x" for x :: uint32
    using signed_take_bit_int_eq_self [OF g, of x] by (simp add: sint_uint)
  have c: "uint x \<le> 1000000 \<Longrightarrow> sint (int32_to_64 x) = uint x" for x :: uint32
    using s [of x] signed_take_bit_int_eq_self [OF order_trans [OF _ uint_ge_0], of 63 x]
    by (simp add: int32_to_64_def signed_scast_eq)
  show "uint w \<le> 1000000 \<Longrightarrow> sint (int32_to_64 w) = uint w" "uint w \<le> 1000000 \<Longrightarrow> sint w = uint w"
    by (fact c, fact s)
  show "uint w \<le> 1000000 \<Longrightarrow> sint (int32_to_64 (w div 2)) = uint w div 2"
    using c [of "w div 2"] by (simp add: uint_div)
  show "uint w \<le> 1000000 \<Longrightarrow> uint (w * 2) = uint w * 2"
    by (simp add: uint_word_ariths)
qed

lemma advance_sequence_ahead:
  assumes ok: "seq_cache_ok old" and v: "value_in_range v" "value_in_range (seq_last_value old)"
    and a: "advance_sequence v old = (new, changed, slow)"
  shows "seq_cache_ok new" "sint v + 500 \<le> sint (seq_last_value new)" "seq_seqoid new = seq_seqoid old"
    "\<not> changed \<Longrightarrow> new = old"
proof -
  have c: "1000 \<le> uint (seq_cache_size old)" "uint (seq_cache_size old) \<le> 1000000"
    using ok by (simp_all add: seq_cache_ok_def)
  have min: "sint (v + int32_to_64 SEQUENCE_REPLICATION_MIN_CACHE div 2) = sint v + 500"
    by (rule sint_plus_small [OF v(1)]) (simp_all add: int32_to_64_def SEQUENCE_REPLICATION_MIN_CACHE_def)
  define cache where "cache = (if sint (seq_last_value old + int32_to_64 (seq_cache_size old)) \<le> sint v
     then (if sint (seq_cache_size old * 2) < sint SEQUENCE_REPLICATION_MAX_CACHE
           then seq_cache_size old * 2 else SEQUENCE_REPLICATION_MAX_CACHE)
     else seq_cache_size old)"
  have "- (2 ^ 31) \<le> uint (seq_cache_size old * 2)"
    by (rule order_trans [OF _ uint_ge_0]) simp
  then have "sint (seq_cache_size old * 2) = uint (seq_cache_size old) * 2"
    using c sint_cache(4) [OF c(2)] signed_take_bit_int_eq_self [of 31 "uint (seq_cache_size old * 2)"]
    by (simp add: sint_uint)
  then have cache: "1000 \<le> uint cache" "uint cache \<le> 1000000"
    using c sint_cache(4) [OF c(2)] by (auto simp: cache_def SEQUENCE_REPLICATION_MAX_CACHE_def)
  have ahead: "sint (v + int32_to_64 cache) = sint v + uint cache"
    using cache by (intro sint_plus_small [OF v(1)]) (simp_all add: sint_cache(1))
  show "seq_cache_ok new"
    using a ok cache by (auto simp: advance_sequence_def cache_def [symmetric] Let_def seq_cache_ok_def split: if_splits)
  show "sint v + 500 \<le> sint (seq_last_value new)"
    using a min ahead cache by (auto simp: advance_sequence_def cache_def [symmetric] Let_def split: if_splits)
  show "seq_seqoid new = seq_seqoid old" "\<not> changed \<Longrightarrow> new = old"
    using a by (auto simp: advance_sequence_def Let_def split: if_splits)
qed

lemma queue_sequence_rows:
  "queue_sequence sv s rows = Inr rows' \<Longrightarrow>
   \<exists>r. rows' = rows @ [r] \<and> qt_message_type r = QUEUE_COMMAND_TYPE_SEQUENCE \<and>
     qt_message r = sequence_json (sv_escape_json sv) (sv_nspname sv (seq_seqoid s)) (sv_relname sv (seq_seqoid s)) (seq_last_value s)"
  by (auto simp: queue_sequence_def queue_message_def Let_def split: if_splits)

text \<open>Whether the queue holds the message for a state of a sequence.\<close>

definition announced :: "seq_server \<Rightarrow> queue_tuple list \<Rightarrow> SeqStateTuple \<Rightarrow> bool" where
  "announced sv rows s \<longleftrightarrow> (\<exists>r\<in>set rows. qt_message_type r = QUEUE_COMMAND_TYPE_SEQUENCE \<and>
     qt_message r = sequence_json (sv_escape_json sv) (sv_nspname sv (seq_seqoid s)) (sv_relname sv (seq_seqoid s)) (seq_last_value s))"

definition stays_ahead :: "seq_server \<Rightarrow> queue_tuple list \<Rightarrow> SeqStateTuple \<Rightarrow> SeqStateTuple \<Rightarrow> bool" where
  "stays_ahead sv rows old new \<longleftrightarrow> seq_seqoid new = seq_seqoid old \<and> seq_cache_ok new \<and>
     sint (sv_last_value sv (seq_seqoid old)) + 500 \<le> sint (seq_last_value new) \<and>
     (new = old \<or> announced sv rows new)"

lemma stays_ahead_mono: "stays_ahead sv rows old new \<Longrightarrow> set rows \<subseteq> set rows' \<Longrightarrow> stays_ahead sv rows' old new"
  by (auto simp: stays_ahead_def announced_def)

lemma synchronize_scan_ahead:
  "synchronize_scan sv seqs rows = Inr (seqs', rows', ret) \<Longrightarrow>
   list_all (\<lambda>s. seq_cache_ok s \<and> value_in_range (seq_last_value s) \<and> value_in_range (sv_last_value sv (seq_seqoid s))) seqs \<Longrightarrow>
   set rows \<subseteq> set rows' \<and> list_all2 (stays_ahead sv rows') seqs seqs'"
proof (induction seqs arbitrary: rows seqs' ret)
  case Nil
  then show ?case by simp
next
  case (Cons old seqs)
  obtain new changed slow where a: "advance_sequence (sv_last_value sv (seq_seqoid old)) old = (new, changed, slow)"
    by (rule prod_cases3)
  with Cons.prems obtain rows1 seqs1 ret1 where q: "(if changed then queue_sequence sv new rows else Inr rows) = Inr rows1"
    and scan: "synchronize_scan sv seqs rows1 = Inr (seqs1, rows', ret1)" and seqs': "seqs' = new # seqs1"
    by auto
  note ih = Cons.IH [OF scan]
  have ok: "seq_cache_ok old" "value_in_range (sv_last_value sv (seq_seqoid old))" "value_in_range (seq_last_value old)"
    using Cons.prems(2) by simp_all
  note new = advance_sequence_ahead [OF ok a]
  have "set rows \<subseteq> set rows1 \<and> (new = old \<or> announced sv rows1 new)"
    using q new(4) queue_sequence_rows [of sv new rows rows1] by (cases changed) (auto simp: announced_def)
  then show ?case
    using ih Cons.prems(2) new by (auto simp: seqs' stays_ahead_def announced_def)
qed

text \<open>
  C24: After a round over the sequences the value announced for each of them is at least 500 ahead of
  the current one, its buffer is between 1000 and 1000000, and a value that changed is in the queue.
  Hence a subscriber that has applied the queue does not give out a value that the provider has
  already used, unless more than 500 are taken before the next round.
\<close>

theorem sequences_stay_ahead:
  assumes "synchronize_sequences sv True seqs rows = Inr (seqs', rows', ret)"
    and "list_all (\<lambda>s. seq_cache_ok s \<and> value_in_range (seq_last_value s) \<and> value_in_range (sv_last_value sv (seq_seqoid s))) seqs"
  shows "list_all2 (stays_ahead sv rows') seqs seqs'"
  using synchronize_scan_ahead [of sv seqs rows seqs' rows' ret] assms by (simp add: synchronize_sequences_def)

definition demo_seq_server :: seq_server where
  "demo_seq_server = \<lparr>sv_last_value = (\<lambda>oid. if oid = 1 then 5000 else 10), sv_nspname = (\<lambda>_. cs ''public''),
     sv_relname = (\<lambda>_. cs ''s''), sv_repsets = (\<lambda>_. []), sv_escape_json = (\<lambda>t. cs ''\"'' @ t @ cs ''\"''),
     sv_user = cs ''me'', sv_now = 0, sv_json_valid = (\<lambda>_. True)\<rparr>"

theorem sequences_stay_ahead_witness:
  "\<exists>seqs' rows' ret. synchronize_sequences demo_seq_server True
     [\<lparr>seq_seqoid = 1, seq_cache_size = 1000, seq_last_value = 2000\<rparr>, \<lparr>seq_seqoid = 2, seq_cache_size = 1000, seq_last_value = 1010\<rparr>] []
     = Inr (seqs', rows', ret) \<and> map seq_last_value seqs' = [7000, 1010] \<and>
   list_all2 (stays_ahead demo_seq_server rows')
     [\<lparr>seq_seqoid = 1, seq_cache_size = 1000, seq_last_value = 2000\<rparr>, \<lparr>seq_seqoid = 2, seq_cache_size = 1000, seq_last_value = 1010\<rparr>] seqs'"
proof -
  let ?seqs = "[\<lparr>seq_seqoid = 1, seq_cache_size = 1000, seq_last_value = 2000\<rparr>, \<lparr>seq_seqoid = 2, seq_cache_size = 1000, seq_last_value = 1010\<rparr>]"
  have a: "advance_sequence 5000 \<lparr>seq_seqoid = 1, seq_cache_size = 1000, seq_last_value = 2000\<rparr>
      = (\<lparr>seq_seqoid = 1, seq_cache_size = 2000, seq_last_value = 7000\<rparr>, True, False)"
    "advance_sequence 10 \<lparr>seq_seqoid = 2, seq_cache_size = 1000, seq_last_value = 1010\<rparr>
      = (\<lparr>seq_seqoid = 2, seq_cache_size = 1000, seq_last_value = 1010\<rparr>, False, True)"
    by (simp_all add: advance_sequence_def int32_to_64_def SEQUENCE_REPLICATION_MIN_CACHE_def SEQUENCE_REPLICATION_MAX_CACHE_def)
  obtain seqs' rows' ret where s: "synchronize_sequences demo_seq_server True ?seqs [] = Inr (seqs', rows', ret)"
    and v: "map seq_last_value seqs' = [7000, 1010]"
    by (auto simp: synchronize_sequences_def demo_seq_server_def a queue_sequence_def queue_message_def)
  have "list_all (\<lambda>s. seq_cache_ok s \<and> value_in_range (seq_last_value s) \<and>
      value_in_range (sv_last_value demo_seq_server (seq_seqoid s))) ?seqs"
    by (simp add: seq_cache_ok_def value_in_range_def demo_seq_server_def)
  from sequences_stay_ahead [OF s this] s v show ?thesis
    by (intro exI [of _ seqs'] exI [of _ rows'] exI [of _ ret] conjI)
qed

section \<open>What arrives at the subscriber\<close>

lemma fold_members:
  assumes "distinct (map (idx \<circ> fst) kvs)" and "(k, v) \<in> set kvs"
  shows "fold (\<lambda>(k, v) f. f(idx k := Some v)) kvs f (idx k) = Some v"
  using assms
proof (induction kvs arbitrary: f)
  case (Cons kv kvs)
  have other: "fold (\<lambda>(k, v) f. f(idx k := Some v)) kvs g i = g i" if "i \<notin> (idx \<circ> fst) ` set kvs" for g i
    using that by (induction kvs arbitrary: g) auto
  obtain k' v' where kv: "kv = (k', v')" by (rule prod.exhaust)
  show ?case
  proof (cases "kv = (k, v)")
    case True
    then have "idx k \<notin> (idx \<circ> fst) ` set kvs" using Cons.prems(1) by simp
    from other [OF this] True show ?thesis by (simp add: fun_upd_same del: fun_upd_apply)
  next
    case False
    then show ?thesis using Cons.prems Cons.IH by (auto simp: kv simp del: fun_upd_apply)
  qed
qed simp

text \<open>
  The message of a sequence, in whatever order the server keeps the members, sets the sequence to the
  announced value.
\<close>

lemma handle_sequence_sets_announced_value:
  assumes "jb_root_is_object m" "jb_tokens m = object_tokens kvs"
    and "mset kvs = mset [(cs ''schema_name'', n), (cs ''sequence_name'', r), (cs ''last_value'', show_int64 v)]"
    and "strtoint64 (show_int64 v) = Some v" and "setval n r v db = Some db'"
  shows "handle_sequence strtoint64 setval m db = Inr db'"
proof -
  define K where "K = [cs ''schema_name'', cs ''sequence_name'', cs ''last_value'']"
  define idx where "idx k = the (match_key k K)" for k
  have mk: "match_key (cs ''schema_name'') K = Some 0"
    "match_key (cs ''sequence_name'') K = Some 1"
    "match_key (cs ''last_value'') K = Some 2"
    by (simp_all add: K_def key_is_def cs_def ch_def)
  have set: "set kvs = {(cs ''schema_name'', n), (cs ''sequence_name'', r), (cs ''last_value'', show_int64 v)}"
    using assms(3) by (metis list.set(1,2) mset_eq_setD)
  then have all: "list_all (\<lambda>(k, v). match_key k K = Some (idx k)) kvs"
    by (auto simp: list_all_iff idx_def mk)
  have "mset (map (idx \<circ> fst) kvs) = mset [0, 1, 2]"
    using arg_cong [OF assms(3), of "image_mset (idx \<circ> fst)"] by (simp add: idx_def mk)
  then have d: "distinct (map (idx \<circ> fst) kvs)"
    using mset_eq_imp_distinct_iff by fastforce
  have i: "idx (cs ''schema_name'') = 0" "idx (cs ''sequence_name'') = 1" "idx (cs ''last_value'') = 2"
    by (simp_all add: idx_def mk)
  have "fold (\<lambda>(k, v) f. f(idx k := Some v)) kvs (\<lambda>_. None) 0 = Some n"
    "fold (\<lambda>(k, v) f. f(idx k := Some v)) kvs (\<lambda>_. None) 1 = Some r"
    "fold (\<lambda>(k, v) f. f(idx k := Some v)) kvs (\<lambda>_. None) 2 = Some (show_int64 v)"
    using fold_members [OF d, of "cs ''schema_name''" n] fold_members [OF d, of "cs ''sequence_name''" r]
      fold_members [OF d, of "cs ''last_value''" "show_int64 v"] set by (simp_all add: i)
  then show ?thesis
    using parse_fields_object [OF all assms(1,2)] assms(4,5)
    by (simp add: handle_sequence_def parse_sequence_message_def require_def K_def)
qed

text \<open>
  The comparisons look at the values only: once a value is announced, no smaller current value leads
  to another message.  A sequence that counts down is announced in the wrong direction and then never
  again.
\<close>

lemma descending_sequence_not_announced:
  assumes "sint (seq_last_value s) \<ge> sint (v + int32_to_64 SEQUENCE_REPLICATION_MIN_CACHE div 2)"
  shows "advance_sequence v s = (s, False, True)"
  using assms by (simp add: advance_sequence_def)

end
