(* ===== verification/Spock_Change_Log.thy ===== *)
theory Spock_Change_Log
  imports Spock_Proto_Native
begin

text \<open>
  The optional log of applied changes (\<open>src/spock_change_log.c\<close>): one line of JSON per change.  The
  server's conversions of values, strings and times are parameters.
\<close>

datatype SpockApplyChangeLogging =
    SPOCK_APPLY_CHANGE_LOG_NONE
  | SPOCK_APPLY_CHANGE_LOG_KEY_ONLY
  | SPOCK_APPLY_CHANGE_LOG_VERBOSE

text \<open>
  \<open>cl_index_keys\<close> are the column numbers of an index, \<open>cl_output\<close> is the output function of a type.
\<close>

record 'd change_log_env =
  cl_logging :: SpockApplyChangeLogging
  cl_escape_json :: "bytes \<Rightarrow> bytes"
  cl_output :: "Oid \<Rightarrow> 'd tup_value \<Rightarrow> bytes"
  cl_index_keys :: "Oid \<Rightarrow> int list option"
  cl_timestamp_str :: "TimestampTz \<Rightarrow> bytes"
  cl_session_ts :: TimestampTz

definition append_json_value :: "'d change_log_env \<Rightarrow> Oid \<Rightarrow> 'd tup_value \<Rightarrow> bool \<Rightarrow> bytes" where
  "append_json_value env typid v isnull =
     (if isnull then cs ''null'' else cl_escape_json env (cl_output env typid v))"

definition pk_attnums :: "'d change_log_env \<Rightarrow> SpockRelation \<Rightarrow> bool \<Rightarrow> int list" where
  "pk_attnums env rel pk_only =
     (if pk_only \<and> sr_idxoid rel \<noteq> InvalidOid
      then (case cl_index_keys env (sr_idxoid rel) of None \<Rightarrow> [] | Some ks \<Rightarrow> filter (\<lambda>a. a > 0) ks)
      else [])"

text \<open>The columns that are printed, in the order of the loop.\<close>

definition row_columns :: "'d change_log_env \<Rightarrow> SpockRelation \<Rightarrow> bool \<Rightarrow> nat list" where
  "row_columns env rel pk_only =
     filter (\<lambda>i. \<not> pk_only \<or> int (sr_attmap rel ! i) + 1 \<in> set (pk_attnums env rel pk_only)) [0..<sr_natts rel]"

definition row_member :: "'d change_log_env \<Rightarrow> SpockRelation \<Rightarrow> 'd SpockTupleData \<Rightarrow> nat \<Rightarrow> bytes" where
  "row_member env rel tup i =
     cl_escape_json env (sr_attnames rel ! i) @ cs '':'' @
     append_json_value env (sr_attrtypes rel ! i) (tup_values tup i) (tup_nulls tup i)"

fun comma_separated :: "bytes list \<Rightarrow> bytes" where
  "comma_separated [] = []"
| "comma_separated [x] = x"
| "comma_separated (x # y # xs) = x @ cs '','' @ comma_separated (y # xs)"

definition append_row_json :: "'d change_log_env \<Rightarrow> SpockRelation \<Rightarrow> 'd SpockTupleData \<Rightarrow> bool \<Rightarrow> bytes" where
  "append_row_json env rel tup pk_only =
     cs ''{'' @ comma_separated (map (row_member env rel tup) (row_columns env rel pk_only)) @ cs ''}''"

definition optional_member :: "'d change_log_env \<Rightarrow> string \<Rightarrow> bytes option \<Rightarrow> bytes" where
  "optional_member env key v = (case v of None \<Rightarrow> [] | Some s \<Rightarrow> cs key @ cl_escape_json env s)"

definition append_change_log_header ::
    "'d change_log_env \<Rightarrow> bytes \<Rightarrow> bytes option \<Rightarrow> bytes option \<Rightarrow> bytes option \<Rightarrow> bytes" where
  "append_change_log_header env action nspname relname origin_name =
     cs ''\"action\":'' @ cl_escape_json env action @ optional_member env '',\"schema\":'' nspname @
     optional_member env '',\"table\":'' relname @ optional_member env '',\"origin\":'' origin_name @
     (if cl_session_ts env \<noteq> 0 then cs '',\"commit_ts\":\"'' @ cl_timestamp_str env (cl_session_ts env) @ cs ''\"'' else [])"

text \<open>The text of the record that is logged, if any.\<close>

definition spock_log_apply_change ::
    "'d change_log_env \<Rightarrow> bytes \<Rightarrow> SpockRelation option \<Rightarrow> 'd SpockTupleData option \<Rightarrow> 'd SpockTupleData option
     \<Rightarrow> bytes option \<Rightarrow> bytes option" where
  "spock_log_apply_change env action rel oldtup newtup origin_name =
     (if cl_logging env = SPOCK_APPLY_CHANGE_LOG_NONE then None
      else case rel of
             None \<Rightarrow> None
           | Some rel \<Rightarrow>
               (let row = (\<lambda>key tup pk_only. case tup of None \<Rightarrow> [] | Some t \<Rightarrow> cs key @ append_row_json env rel t pk_only);
                    pk_src = (case newtup of Some t \<Rightarrow> Some t | None \<Rightarrow> oldtup)
                in Some (cs ''{'' @
                     append_change_log_header env action (Some (sr_nspname rel)) (Some (sr_relname rel)) origin_name @
                     row '',\"pk\":'' pk_src True @
                     (if cl_logging env = SPOCK_APPLY_CHANGE_LOG_VERBOSE
                      then row '',\"old\":'' oldtup False @ row '',\"new\":'' newtup False else []) @
                     cs ''}'')))"

definition spock_log_apply_ddl :: "'d change_log_env \<Rightarrow> bytes option \<Rightarrow> bytes option \<Rightarrow> bytes option" where
  "spock_log_apply_ddl env sql origin_name =
     (if cl_logging env = SPOCK_APPLY_CHANGE_LOG_NONE then None
      else case sql of
             None \<Rightarrow> None
           | Some sql \<Rightarrow> Some (cs ''{'' @ append_change_log_header env (cs ''DDL'') None None origin_name @
               cs '',\"sql\":'' @ cl_escape_json env sql @ cs ''}''))"

text \<open>
  A received tuple has the value of remote column \<open>i\<close> at the local position \<open>sr_attmap rel ! i\<close>, but
  the log looks it up at position \<open>i\<close>.  When the local table has two columns in the other order, the
  log shows each name with the value of the other column.
\<close>

lemma change_log_swaps_columns:
  assumes "sr_natts rel = 2" "sr_attnames rel = [a, b]" "sr_attrtypes rel = [t, t]" "sr_attmap rel = [1, 0]"
    and "tup_values tup (sr_attmap rel ! 0) = va" "tup_values tup (sr_attmap rel ! 1) = vb"
    and "\<not> tup_nulls tup 0" "\<not> tup_nulls tup 1"
  shows "append_row_json env rel tup False =
    cs ''{'' @ cl_escape_json env a @ cs '':'' @ cl_escape_json env (cl_output env t vb) @ cs '','' @
    cl_escape_json env b @ cs '':'' @ cl_escape_json env (cl_output env t va) @ cs ''}''"
  using assms by (simp add: append_row_json_def row_columns_def row_member_def append_json_value_def
      upt_conv_Cons numeral_2_eq_2)

end
