(* ===== verification/Spock_Sync.thy ===== *)
theory Spock_Sync
  imports Spock_Worker Spock_Exception Spock_Queue
begin

text \<open>
  Initial synchronisation (\<open>src/spock_sync.c\<close>) and its part in the apply worker (\<open>src/spock_apply.c\<close>).
  The progress of a subscription and of each of its tables is a row of the catalog
  \<open>local_sync_status\<close>.  The apply worker walks over the tables that are not ready, shakes hands with
  the sync worker of a table, and skips the changes of a table until its synchronisation is done.
\<close>

section \<open>Status rows\<close>

definition SYNC_KIND_INIT :: byte where "SYNC_KIND_INIT = ch CHR ''i''"
definition SYNC_KIND_FULL :: byte where "SYNC_KIND_FULL = ch CHR ''f''"
definition SYNC_KIND_STRUCTURE :: byte where "SYNC_KIND_STRUCTURE = ch CHR ''s''"
definition SYNC_KIND_DATA :: byte where "SYNC_KIND_DATA = ch CHR ''d''"

definition SyncKindData :: "byte \<Rightarrow> bool" where
  "SyncKindData kind \<longleftrightarrow> kind = SYNC_KIND_FULL \<or> kind = SYNC_KIND_DATA"

definition SyncKindStructure :: "byte \<Rightarrow> bool" where
  "SyncKindStructure kind \<longleftrightarrow> kind = SYNC_KIND_FULL \<or> kind = SYNC_KIND_STRUCTURE"

definition SYNC_STATUS_INIT :: byte where "SYNC_STATUS_INIT = ch CHR ''i''"
definition SYNC_STATUS_STRUCTURE :: byte where "SYNC_STATUS_STRUCTURE = ch CHR ''s''"
definition SYNC_STATUS_DATA :: byte where "SYNC_STATUS_DATA = ch CHR ''d''"
definition SYNC_STATUS_CONSTRAINTS :: byte where "SYNC_STATUS_CONSTRAINTS = ch CHR ''c''"
definition SYNC_STATUS_SYNCWAIT :: byte where "SYNC_STATUS_SYNCWAIT = ch CHR ''w''"
definition SYNC_STATUS_STARTED :: byte where "SYNC_STATUS_STARTED = ch CHR ''p''"
definition SYNC_STATUS_CATCHUP :: byte where "SYNC_STATUS_CATCHUP = ch CHR ''u''"
definition SYNC_STATUS_SYNCDONE :: byte where "SYNC_STATUS_SYNCDONE = ch CHR ''y''"
definition SYNC_STATUS_READY :: byte where "SYNC_STATUS_READY = ch CHR ''r''"
definition SYNC_STATUS_FAILED :: byte where "SYNC_STATUS_FAILED = ch CHR ''f''"

text \<open>The letters as numbers, which are all different.\<close>

lemma sync_status_values [simp]:
  "SYNC_STATUS_INIT = 105" "SYNC_STATUS_STRUCTURE = 115" "SYNC_STATUS_DATA = 100"
  "SYNC_STATUS_CONSTRAINTS = 99" "SYNC_STATUS_SYNCWAIT = 119" "SYNC_STATUS_STARTED = 112"
  "SYNC_STATUS_CATCHUP = 117" "SYNC_STATUS_SYNCDONE = 121" "SYNC_STATUS_READY = 114"
  "SYNC_STATUS_FAILED = 102"
  by (simp_all add: SYNC_STATUS_INIT_def SYNC_STATUS_STRUCTURE_def SYNC_STATUS_DATA_def SYNC_STATUS_CONSTRAINTS_def
      SYNC_STATUS_SYNCWAIT_def SYNC_STATUS_STARTED_def SYNC_STATUS_CATCHUP_def SYNC_STATUS_SYNCDONE_def
      SYNC_STATUS_READY_def SYNC_STATUS_FAILED_def ch_def)

record SpockSyncStatus =
  sy_kind :: byte
  sy_stop_on_error :: bool
  sy_subid :: Oid
  sy_nspname :: bytes
  sy_relname :: bytes
  sy_status :: byte
  sy_statuslsn :: XLogRecPtr

text \<open>A row of the catalog; the names are null in the row of the subscription itself.\<close>

record sync_tuple =
  st_kind :: byte
  st_subid :: Oid
  st_nspname :: "bytes option"
  st_relname :: "bytes option"
  st_status :: byte
  st_statuslsn :: XLogRecPtr

datatype sync_error =
    Subscription_status_not_found Oid
  | Table_status_not_found Oid bytes bytes
  | Duplicate_sync_status
  | Table_synchronisation_failed
  | Wait_continues
  | Sync_worker_not_registered register_result
  | Subscription_not_ready
  | Sync_message queue_error

definition nullable_name :: "bytes \<Rightarrow> bytes option" where
  "nullable_name n = (if n = [] then None else Some n)"

definition row_of_status :: "SpockSyncStatus \<Rightarrow> sync_tuple" where
  "row_of_status sync = \<lparr>st_kind = sy_kind sync, st_subid = sy_subid sync, st_nspname = nullable_name (sy_nspname sync),
     st_relname = nullable_name (sy_relname sync), st_status = sy_status sync, st_statuslsn = sy_statuslsn sync\<rparr>"

text \<open>Two rows violate the unique constraint when all three columns are equal and none is null.\<close>

definition same_sync_key :: "sync_tuple \<Rightarrow> sync_tuple \<Rightarrow> bool" where
  "same_sync_key a b \<longleftrightarrow> st_subid a = st_subid b \<and> st_nspname a = st_nspname b \<and> st_relname a = st_relname b \<and>
     st_nspname a \<noteq> None \<and> st_relname a \<noteq> None"

definition create_local_sync_status :: "SpockSyncStatus \<Rightarrow> sync_tuple list \<Rightarrow> sync_error + sync_tuple list" where
  "create_local_sync_status sync rows =
     (let tup = row_of_status sync in
      if list_ex (same_sync_key tup) rows then Inl Duplicate_sync_status else Inr (rows @ [tup]))"

definition drop_subscription_sync_status :: "Oid \<Rightarrow> sync_tuple list \<Rightarrow> sync_tuple list" where
  "drop_subscription_sync_status subid rows = filter (\<lambda>r. st_subid r \<noteq> subid) rows"

definition syncstatus_fromtuple :: "sync_tuple \<Rightarrow> SpockSyncStatus" where
  "syncstatus_fromtuple tup =
     (let nspname = (case st_nspname tup of None \<Rightarrow> [] | Some n \<Rightarrow> namestrcpy n);
          relname = (case st_relname tup of None \<Rightarrow> [] | Some n \<Rightarrow> namestrcpy n)
      in \<lparr>sy_kind = st_kind tup, sy_stop_on_error = (nspname \<noteq> [] \<and> relname \<noteq> []), sy_subid = st_subid tup,
          sy_nspname = nspname, sy_relname = relname, sy_status = st_status tup, sy_statuslsn = st_statuslsn tup\<rparr>)"

definition subscription_row :: "Oid \<Rightarrow> sync_tuple \<Rightarrow> bool" where
  "subscription_row subid r \<longleftrightarrow> st_subid r = subid \<and> st_nspname r = None \<and> st_relname r = None"

definition table_row :: "Oid \<Rightarrow> bytes \<Rightarrow> bytes \<Rightarrow> sync_tuple \<Rightarrow> bool" where
  "table_row subid nspname relname r \<longleftrightarrow>
     st_subid r = subid \<and> st_nspname r = Some nspname \<and> st_relname r = Some relname"

definition get_subscription_sync_status ::
    "Oid \<Rightarrow> bool \<Rightarrow> sync_tuple list \<Rightarrow> sync_error + SpockSyncStatus option" where
  "get_subscription_sync_status subid missing_ok rows =
     (case find (subscription_row subid) rows of
        Some tuple \<Rightarrow> Inr (Some (syncstatus_fromtuple tuple))
      | None \<Rightarrow> if missing_ok then Inr None else Inl (Subscription_status_not_found subid))"

text \<open>The update of the row that a scan found first.\<close>

fun update_first :: "('a \<Rightarrow> bool) \<Rightarrow> ('a \<Rightarrow> 'a) \<Rightarrow> 'a list \<Rightarrow> 'a list option" where
  "update_first P f [] = None"
| "update_first P f (x # xs) = (if P x then Some (f x # xs) else map_option ((#) x) (update_first P f xs))"

definition set_subscription_sync_status :: "Oid \<Rightarrow> byte \<Rightarrow> sync_tuple list \<Rightarrow> sync_error + sync_tuple list" where
  "set_subscription_sync_status subid status rows =
     (case update_first (subscription_row subid)
             (\<lambda>r. r\<lparr>st_status := status, st_statuslsn := InvalidXLogRecPtr\<rparr>) rows of
        None \<Rightarrow> Inl (Subscription_status_not_found subid)
      | Some rows \<Rightarrow> Inr rows)"

definition drop_table_sync_status :: "bytes \<Rightarrow> bytes \<Rightarrow> sync_tuple list \<Rightarrow> sync_tuple list" where
  "drop_table_sync_status nspname relname rows =
     filter (\<lambda>r. \<not> (st_nspname r = Some nspname \<and> st_relname r = Some relname)) rows"

definition drop_table_sync_status_for_sub :: "Oid \<Rightarrow> bytes \<Rightarrow> bytes \<Rightarrow> sync_tuple list \<Rightarrow> sync_tuple list" where
  "drop_table_sync_status_for_sub subid nspname relname rows =
     filter (\<lambda>r. \<not> table_row subid nspname relname r) rows"

definition get_table_sync_status ::
    "Oid \<Rightarrow> bytes \<Rightarrow> bytes \<Rightarrow> bool \<Rightarrow> sync_tuple list \<Rightarrow> sync_error + SpockSyncStatus option" where
  "get_table_sync_status subid nspname relname missing_ok rows =
     (case find (table_row subid nspname relname) rows of
        Some tuple \<Rightarrow> Inr (Some (syncstatus_fromtuple tuple))
      | None \<Rightarrow> if missing_ok then Inr None else Inl (Table_status_not_found subid nspname relname))"

definition get_subscription_tables :: "Oid \<Rightarrow> sync_tuple list \<Rightarrow> SpockSyncStatus list" where
  "get_subscription_tables subid rows =
     map syncstatus_fromtuple (filter (\<lambda>r. st_subid r = subid \<and> \<not> subscription_row subid r) rows)"

definition get_unsynced_tables :: "Oid \<Rightarrow> sync_tuple list \<Rightarrow> SpockSyncStatus list" where
  "get_unsynced_tables subid rows =
     filter (\<lambda>sync. sy_status sync \<noteq> SYNC_STATUS_READY)
       (map syncstatus_fromtuple (filter (\<lambda>r. st_subid r = subid \<and> \<not> subscription_row subid r) rows))"

definition set_table_sync_status ::
    "Oid \<Rightarrow> bytes \<Rightarrow> bytes \<Rightarrow> byte \<Rightarrow> XLogRecPtr \<Rightarrow> sync_tuple list \<Rightarrow> sync_error + sync_tuple list" where
  "set_table_sync_status subid nspname relname status statuslsn rows =
     (case update_first (table_row subid nspname relname) (\<lambda>r. r\<lparr>st_status := status, st_statuslsn := statuslsn\<rparr>) rows of
        None \<Rightarrow> Inl (Table_status_not_found subid nspname relname)
      | Some rows \<Rightarrow> Inr rows)"

section \<open>Skipping the changes of a table\<close>

definition should_apply_changes_for_rel :: "SpockSyncStatus list \<Rightarrow> XLogRecPtr \<Rightarrow> bytes \<Rightarrow> bytes \<Rightarrow> bool" where
  "should_apply_changes_for_rel SyncingTables origin_lsn nspname relname =
     (\<not> list_ex (\<lambda>sync. sy_nspname sync = nspname \<and> sy_relname sync = relname \<and>
          sy_status sync \<noteq> SYNC_STATUS_READY \<and>
          \<not> (sy_status sync = SYNC_STATUS_SYNCDONE \<and> sy_statuslsn sync \<le> origin_lsn)) SyncingTables)"

section \<open>The walk over the tables\<close>

text \<open>What the processes share: the catalog and the registry of workers.\<close>

record sync_world =
  sw_rows :: "sync_tuple list"
  sw_ctx :: SpockContext

text \<open>
  The worker that walks: its database, subscription and slot, and what starting another worker
  meets (see the registration).
\<close>

record sync_env =
  se_dboid :: Oid
  se_subid :: Oid
  se_slot :: nat
  se_restart_delay_default :: uint32
  se_launched :: bool
  se_now :: TimestampTz
  se_polls :: "SpockContext \<Rightarrow> startup_poll list"

text \<open>
  One turn of the waiting loop sees whether SIGTERM arrived and the world as it is then.  No result
  means that the loop goes on.
\<close>

fun wait_for_sync_status_change ::
    "Oid \<Rightarrow> Oid \<Rightarrow> bytes \<Rightarrow> bytes \<Rightarrow> byte \<Rightarrow> (bool \<times> 'w sync_world_scheme) list \<Rightarrow> 'w sync_world_scheme
     \<Rightarrow> (bool \<times> XLogRecPtr) option \<times> 'w sync_world_scheme" where
  "wait_for_sync_status_change dboid subid nspname relname desired_state [] w = (None, w)"
| "wait_for_sync_status_change dboid subid nspname relname desired_state ((got_SIGTERM, w') # views) w =
     (if got_SIGTERM then (Some (False, InvalidXLogRecPtr), w')
      else case find (table_row subid nspname relname) (sw_rows w') of
             None \<Rightarrow> (Some (False, InvalidXLogRecPtr), w')
           | Some tuple \<Rightarrow>
               if st_status tuple = desired_state then (Some (True, st_statuslsn tuple), w')
               else if spock_sync_find dboid subid nspname relname (sw_ctx w') = None
               then (Some (False, InvalidXLogRecPtr), w')
               else wait_for_sync_status_change dboid subid nspname relname desired_state views w')"

text \<open>The entry after a look at the catalog.\<close>

definition refresh_sync :: "Oid \<Rightarrow> sync_tuple list \<Rightarrow> SpockSyncStatus \<Rightarrow> SpockSyncStatus" where
  "refresh_sync subid rows sync =
     (case find (table_row subid (sy_nspname sync) (sy_relname sync)) rows of
        None \<Rightarrow> sync\<lparr>sy_status := SYNC_STATUS_READY, sy_statuslsn := InvalidXLogRecPtr\<rparr>
      | Some tuple \<Rightarrow>
          if st_status tuple = SYNC_STATUS_FAILED
          then sync\<lparr>sy_status := SYNC_STATUS_FAILED, sy_statuslsn := InvalidXLogRecPtr\<rparr>
          else syncstatus_fromtuple tuple)"

text \<open>A committed change of the status of a table; the error leaves the world as it was.\<close>

definition store_sync :: "Oid \<Rightarrow> SpockSyncStatus \<Rightarrow> 'w sync_world_scheme \<Rightarrow> 'w sync_world_scheme \<times> sync_error option" where
  "store_sync subid sync w =
     (case set_table_sync_status subid (sy_nspname sync) (sy_relname sync) (sy_status sync) (sy_statuslsn sync) (sw_rows w) of
        Inl e \<Rightarrow> (w, Some e)
      | Inr rows \<Rightarrow> (w\<lparr>sw_rows := rows\<rparr>, None))"

text \<open>
  The handshake with a sync worker that has copied the table: it is told where to stop and the apply
  worker waits until it is there.  \<open>await\<close> gives what the turns of the wait see.
\<close>

definition sync_handshake ::
    "sync_env \<Rightarrow> ('w sync_world_scheme \<Rightarrow> (bool \<times> 'w sync_world_scheme) list) \<Rightarrow> XLogRecPtr \<Rightarrow> SpockSyncStatus
     \<Rightarrow> 'w sync_world_scheme \<Rightarrow> 'w sync_world_scheme \<times> SpockSyncStatus \<times> sync_error option" where
  "sync_handshake env await origin_lsn sync w =
     (let worker = spock_sync_find (se_dboid env) (se_subid env) (sy_nspname sync) (sy_relname sync) (sw_ctx w) in
      case worker of
        None \<Rightarrow> (w, sync, None)
      | Some i \<Rightarrow>
          if \<not> (spock_worker_running worker (sw_ctx w) \<and>
                origin_lsn \<ge> aw_replay_stop_lsn (w_apply (ctx_workers (sw_ctx w) ! i)))
          then (w, sync, None)
          else
            (let w1 = w\<lparr>sw_ctx := upd_slot i (\<lambda>v. v\<lparr>w_apply := (w_apply v)\<lparr>aw_replay_stop_lsn := origin_lsn\<rparr>\<rparr>) (sw_ctx w)\<rparr>;
                 sync1 = sync\<lparr>sy_status := SYNC_STATUS_CATCHUP\<rparr>
             in case store_sync (se_subid env) sync1 w1 of
                  (w2, Some e) \<Rightarrow> (w2, sync1, Some e)
                | (w2, None) \<Rightarrow>
                    (case wait_for_sync_status_change (se_dboid env) (se_subid env) (sy_nspname sync) (sy_relname sync)
                            SYNC_STATUS_SYNCDONE (await w2) w2 of
                       (None, w3) \<Rightarrow> (w3, sync1, Some Wait_continues)
                     | (Some (True, lsn), w3) \<Rightarrow> (w3, sync1\<lparr>sy_status := SYNC_STATUS_SYNCDONE, sy_statuslsn := lsn\<rparr>, None)
                     | (Some (False, lsn), w3) \<Rightarrow> (w3, sync1\<lparr>sy_statuslsn := lsn\<rparr>, Some Table_synchronisation_failed))))"

text \<open>A table whose synchronisation is done becomes ready when the apply worker has come so far.\<close>

definition finish_sync ::
    "Oid \<Rightarrow> XLogRecPtr \<Rightarrow> SpockSyncStatus \<Rightarrow> 'w sync_world_scheme
     \<Rightarrow> 'w sync_world_scheme \<times> SpockSyncStatus \<times> sync_error option" where
  "finish_sync subid end_lsn sync w =
     (if sy_status sync = SYNC_STATUS_SYNCDONE \<and> end_lsn \<ge> sy_statuslsn sync
      then let sync1 = sync\<lparr>sy_status := SYNC_STATUS_READY, sy_statuslsn := end_lsn\<rparr>;
               (w1, e) = store_sync subid sync1 w
           in (w1, sync1, e)
      else (w, sync, None))"

definition process_syncing_table ::
    "sync_env \<Rightarrow> ('w sync_world_scheme \<Rightarrow> (bool \<times> 'w sync_world_scheme) list) \<Rightarrow> XLogRecPtr \<Rightarrow> XLogRecPtr
     \<Rightarrow> SpockSyncStatus \<Rightarrow> 'w sync_world_scheme \<Rightarrow> 'w sync_world_scheme \<times> SpockSyncStatus \<times> sync_error option" where
  "process_syncing_table env await origin_lsn end_lsn sync w =
     (let sync1 = refresh_sync (se_subid env) (sw_rows w) sync in
      case (if sy_status sync1 = SYNC_STATUS_SYNCWAIT then sync_handshake env await origin_lsn sync1 w
            else (w, sync1, None)) of
        (w2, sync2, Some e) \<Rightarrow> (w2, sync2, Some e)
      | (w2, sync2, None) \<Rightarrow> finish_sync (se_subid env) end_lsn sync2 w2)"

fun process_pending_tables ::
    "sync_env \<Rightarrow> ('w sync_world_scheme \<Rightarrow> (bool \<times> 'w sync_world_scheme) list) \<Rightarrow> XLogRecPtr \<Rightarrow> XLogRecPtr
     \<Rightarrow> SpockSyncStatus list \<Rightarrow> 'w sync_world_scheme
     \<Rightarrow> 'w sync_world_scheme \<times> SpockSyncStatus list \<times> sync_error option" where
  "process_pending_tables env await origin_lsn end_lsn [] w = (w, [], None)"
| "process_pending_tables env await origin_lsn end_lsn (sync # syncs) w =
     (case process_syncing_table env await origin_lsn end_lsn sync w of
        (w1, sync1, Some e) \<Rightarrow> (w1, sync1 # syncs, Some e)
      | (w1, sync1, None) \<Rightarrow>
          (case process_pending_tables env await origin_lsn end_lsn syncs w1 of
             (w2, syncs2, e) \<Rightarrow>
               (w2, if sy_status sync1 = SYNC_STATUS_READY then syncs2 else sync1 # syncs2, e)))"

definition new_sync_worker :: "sync_env \<Rightarrow> XLogRecPtr \<Rightarrow> bytes \<Rightarrow> bytes \<Rightarrow> SpockContext \<Rightarrow> SpockWorker" where
  "new_sync_worker env origin_lsn nspname relname ctx = zero_worker
     \<lparr>w_worker_type := SPOCK_WORKER_SYNC, w_dboid := w_dboid (ctx_workers ctx ! se_slot env),
      w_apply := zero_apply_worker\<lparr>aw_subid := se_subid env, aw_replay_stop_lsn := origin_lsn\<rparr>,
      w_nspname := nspname, w_relname := relname\<rparr>"

definition start_sync_worker ::
    "sync_env \<Rightarrow> XLogRecPtr \<Rightarrow> bytes \<Rightarrow> bytes \<Rightarrow> SpockContext \<Rightarrow> register_result \<times> SpockContext" where
  "start_sync_worker env origin_lsn nspname relname ctx =
     spock_worker_register (se_restart_delay_default env) (se_launched env) (se_now env) (se_polls env ctx)
       (new_sync_worker env origin_lsn nspname relname ctx) ctx"

definition register_error :: "register_result \<Rightarrow> sync_error option" where
  "register_error r = (case r of Registered _ \<Rightarrow> None | _ \<Rightarrow> Some (Sync_worker_not_registered r))"

text \<open>At most one sync worker of a subscription runs at a time.\<close>

fun launch_sync_worker ::
    "sync_env \<Rightarrow> XLogRecPtr \<Rightarrow> SpockSyncStatus list \<Rightarrow> SpockContext \<Rightarrow> SpockContext \<times> sync_error option" where
  "launch_sync_worker env origin_lsn [] ctx = (ctx, None)"
| "launch_sync_worker env origin_lsn (sync # syncs) ctx =
     (if sy_status sync \<in> {SYNC_STATUS_SYNCDONE, SYNC_STATUS_READY, SYNC_STATUS_FAILED}
      then launch_sync_worker env origin_lsn syncs ctx
      else if filter (\<lambda>i. spock_worker_running (Some i) ctx) (spock_sync_find_all (se_dboid env) (se_subid env) ctx) = []
      then case start_sync_worker env origin_lsn (sy_nspname sync) (sy_relname sync) ctx of
             (r, ctx1) \<Rightarrow> (ctx1, register_error r)
      else launch_sync_worker env origin_lsn syncs ctx)"

definition process_syncing_tables ::
    "sync_env \<Rightarrow> ('w sync_world_scheme \<Rightarrow> (bool \<times> 'w sync_world_scheme) list) \<Rightarrow> XLogRecPtr \<Rightarrow> XLogRecPtr
     \<Rightarrow> SpockSyncStatus list \<Rightarrow> 'w sync_world_scheme
     \<Rightarrow> 'w sync_world_scheme \<times> SpockSyncStatus list \<times> sync_error option" where
  "process_syncing_tables env await origin_lsn end_lsn SyncingTables w =
     (let sync_pending = aw_sync_pending (w_apply (ctx_workers (sw_ctx w) ! se_slot env));
          tables = (if sync_pending then get_unsynced_tables (se_subid env) (sw_rows w) else SyncingTables);
          w0 = (if sync_pending
                then w\<lparr>sw_ctx := upd_slot (se_slot env) (\<lambda>v. v\<lparr>w_apply := (w_apply v)\<lparr>aw_sync_pending := False\<rparr>\<rparr>) (sw_ctx w)\<rparr>
                else w)
      in case process_pending_tables env await origin_lsn end_lsn tables w0 of
           (w1, tables1, Some e) \<Rightarrow> (w1, tables1, Some e)
         | (w1, tables1, None) \<Rightarrow>
             (case launch_sync_worker env origin_lsn tables1 (sw_ctx w1) of
                (ctx2, e) \<Rightarrow> (w1\<lparr>sw_ctx := ctx2\<rparr>, tables1, e)))"

text \<open>A request to synchronise a table that comes through the queue.\<close>

definition handle_table_sync ::
    "Oid \<Rightarrow> nat \<Rightarrow> Jsonb \<Rightarrow> 'w sync_world_scheme \<Rightarrow> sync_error + 'w sync_world_scheme" where
  "handle_table_sync subid slot message w =
     (case parse_relation_message message of
        Inl e \<Rightarrow> Inl (Sync_message e)
      | Inr (nspname, relname) \<Rightarrow>
          (case find (table_row subid nspname relname) (sw_rows w) of
             Some _ \<Rightarrow> Inr w
           | None \<Rightarrow>
               res_bind (create_local_sync_status \<lparr>sy_kind = SYNC_KIND_DATA, sy_stop_on_error = False, sy_subid = subid,
                           sy_nspname = namestrcpy nspname, sy_relname = namestrcpy relname,
                           sy_status = SYNC_STATUS_INIT, sy_statuslsn = InvalidXLogRecPtr\<rparr> (sw_rows w))
                 (\<lambda>rows. Inr (w\<lparr>sw_rows := rows,
                    sw_ctx := upd_slot slot (\<lambda>v. v\<lparr>w_apply := (w_apply v)\<lparr>aw_sync_pending := True\<rparr>\<rparr>) (sw_ctx w)\<rparr>))))"

section \<open>The sync worker\<close>

text \<open>
  The first transaction of \<open>spock_sync_table\<close>.  The result is the status with which the worker ends at
  once, or none when it goes on, and the position of the row.
\<close>

definition sync_table_begin ::
    "Oid \<Rightarrow> bytes \<Rightarrow> bytes \<Rightarrow> sync_tuple list \<Rightarrow> sync_error + (sync_tuple list \<times> byte option \<times> XLogRecPtr)" where
  "sync_table_begin subid nspname relname rows =
     (case find (subscription_row subid) rows of
        None \<Rightarrow> Inl (Subscription_status_not_found subid)
      | Some sub \<Rightarrow>
          if st_status sub \<noteq> SYNC_STATUS_READY then Inl Subscription_not_ready
          else case find (table_row subid nspname relname) rows of
                 None \<Rightarrow> Inl (Table_status_not_found subid nspname relname)
               | Some sync \<Rightarrow>
                   if st_status sync = SYNC_STATUS_READY \<or> st_status sync = SYNC_STATUS_SYNCDONE
                   then Inr (rows, Some (st_status sync), st_statuslsn sync)
                   else if st_status sync \<noteq> SYNC_STATUS_INIT
                   then map_sum id (\<lambda>rows. (rows, Some SYNC_STATUS_FAILED, st_statuslsn sync))
                          (set_table_sync_status subid nspname relname SYNC_STATUS_FAILED InvalidXLogRecPtr rows)
                   else map_sum id (\<lambda>rows. (rows, None, st_statuslsn sync))
                          (set_table_sync_status subid nspname relname SYNC_STATUS_STARTED InvalidXLogRecPtr rows))"

text \<open>After the apply worker's word: nothing to catch up, or a stream to read.\<close>

definition nothing_to_catch_up :: "XLogRecPtr \<Rightarrow> SpockWorker \<Rightarrow> bool" where
  "nothing_to_catch_up status_lsn me \<longleftrightarrow> status_lsn \<ge> aw_replay_stop_lsn (w_apply me)"

text \<open>The end of a limited replay in \<open>handle_commit\<close>.\<close>

definition replay_stops :: "XLogRecPtr \<Rightarrow> SpockWorker \<Rightarrow> bool" where
  "replay_stops end_lsn me \<longleftrightarrow>
     aw_replay_stop_lsn (w_apply me) \<noteq> InvalidXLogRecPtr \<and> aw_replay_stop_lsn (w_apply me) \<le> end_lsn"

text \<open>How a handshake that takes place ends.\<close>

lemma sync_handshake_waits:
  assumes "spock_sync_find (se_dboid env) (se_subid env) (sy_nspname sync) (sy_relname sync) (sw_ctx w) = Some i"
    and "spock_worker_running (Some i) (sw_ctx w)"
    and "aw_replay_stop_lsn (w_apply (ctx_workers (sw_ctx w) ! i)) \<le> origin_lsn"
    and "store_sync (se_subid env) (sync\<lparr>sy_status := SYNC_STATUS_CATCHUP\<rparr>)
      (w\<lparr>sw_ctx := upd_slot i (\<lambda>v. v\<lparr>w_apply := (w_apply v)\<lparr>aw_replay_stop_lsn := origin_lsn\<rparr>\<rparr>) (sw_ctx w)\<rparr>) = (w2, None)"
    and "wait_for_sync_status_change (se_dboid env) (se_subid env) (sy_nspname sync) (sy_relname sync)
      SYNC_STATUS_SYNCDONE (await w2) w2 = (res, w3)"
  shows "sync_handshake env await origin_lsn sync w = (w3,
    case res of Some (True, lsn) \<Rightarrow> sync\<lparr>sy_status := SYNC_STATUS_SYNCDONE, sy_statuslsn := lsn\<rparr>
      | Some (False, lsn) \<Rightarrow> sync\<lparr>sy_status := SYNC_STATUS_CATCHUP, sy_statuslsn := lsn\<rparr>
      | None \<Rightarrow> sync\<lparr>sy_status := SYNC_STATUS_CATCHUP\<rparr>,
    case res of Some (True, lsn) \<Rightarrow> None | Some (False, lsn) \<Rightarrow> Some Table_synchronisation_failed | None \<Rightarrow> Some Wait_continues)"
  using assms by (simp add: sync_handshake_def del: sync_status_values split: option.split bool.split)

section \<open>Looking up and changing one row\<close>

lemma update_first_find:
  "find P xs = Some x \<Longrightarrow> \<exists>ys zs. xs = ys @ x # zs \<and> update_first P f xs = Some (ys @ f x # zs) \<and> (\<forall>y\<in>set ys. \<not> P y) \<and> P x"
proof (induction xs)
  case (Cons a xs)
  show ?case
  proof (cases "P a")
    case True
    then show ?thesis using Cons.prems by (intro exI [of _ "[]"] exI [of _ xs]) simp
  next
    case False
    then obtain ys zs where "xs = ys @ x # zs" "update_first P f xs = Some (ys @ f x # zs)" "\<forall>y\<in>set ys. \<not> P y" "P x"
      using Cons by auto
    then show ?thesis using False by (intro exI [of _ "a # ys"] exI [of _ zs]) simp
  qed
qed simp

lemma update_first_None: "update_first P f xs = None \<longleftrightarrow> find P xs = None"
  by (induction xs) auto

end
