(* ===== verification/Spock_Table_Sync.thy ===== *)
theory Spock_Table_Sync
  imports Spock_Sync
begin

text \<open>
  The synchronisation of one table while its subscription is replicated: the apply worker of
  \<open>src/spock_apply.c\<close> and the sync worker of \<open>src/spock_sync.c\<close> work side by side and meet in the status
  row and in the stop position.  The steps below are the critical sections of the two, in any order;
  the theorem says that a table that became ready has every change of the provider exactly once.
\<close>

section \<open>The history of the provider\<close>

text \<open>
  A transaction of the stream: where its commit record starts and ends, whether it has any change
  that the subscription receives, and whether it changes the table.
\<close>

record sync_txn =
  tx_commit_lsn :: XLogRecPtr
  tx_end_lsn :: XLogRecPtr
  tx_local :: bool
  tx_changes :: bool

definition history_ok :: "sync_txn list \<Rightarrow> bool" where
  "history_ok h \<longleftrightarrow>
     (\<forall>i < length h. tx_commit_lsn (h ! i) < tx_end_lsn (h ! i) \<and> (tx_changes (h ! i) \<longrightarrow> tx_local (h ! i)) \<and>
       (Suc i < length h \<longrightarrow> tx_end_lsn (h ! i) \<le> tx_commit_lsn (h ! Suc i)))"

text \<open>The number of transactions that are complete at a position, and the changes of the first \<open>n\<close>.\<close>

definition txns_upto :: "sync_txn list \<Rightarrow> XLogRecPtr \<Rightarrow> nat" where
  "txns_upto h lsn = length (takeWhile (\<lambda>t. tx_end_lsn t \<le> lsn) h)"

definition changes :: "sync_txn list \<Rightarrow> nat \<Rightarrow> nat list" where
  "changes h n = filter (\<lambda>i. tx_changes (h ! i)) [0..<n]"

text \<open>A position that is not inside a commit record.\<close>

definition boundary :: "sync_txn list \<Rightarrow> XLogRecPtr \<Rightarrow> bool" where
  "boundary h lsn \<longleftrightarrow> (\<forall>t\<in>set h. \<not> (tx_commit_lsn t < lsn \<and> lsn < tx_end_lsn t))"

section \<open>The two workers\<close>

text \<open>
  The phases of the sync worker: attached; the row says started; the slot is made at a position;
  the table is copied; the wait for the apply worker; reading the stream.
\<close>

datatype sync_phase =
    Not_running
  | Running
  | Started
  | Copying XLogRecPtr
  | Copied XLogRecPtr
  | Waiting XLogRecPtr
  | Streaming nat

text \<open>
  The world with the private state of the workers: the tables that the apply worker knows to be
  synchronised, its position, the number of transactions it has read, whether it stands still, and
  the slot and the phase of the sync worker.  \<open>tb_table\<close> is the table, as the transactions whose
  changes are in it.
\<close>

record table_sync = sync_world +
  tb_cache :: "SpockSyncStatus list"
  tb_origin_lsn :: XLogRecPtr
  tb_done :: nat
  tb_stopped :: bool
  tb_slot :: nat
  tb_phase :: sync_phase
  tb_table :: "nat list"

text \<open>The table: database, subscription, name, the slot of the apply worker, the process id of a sync worker.\<close>

record sync_setup =
  su_dboid :: Oid
  su_subid :: Oid
  su_nspname :: bytes
  su_relname :: bytes
  su_slot :: nat
  su_pid :: PGPROC

text \<open>A sync worker that is started attaches to the slot reserved for it.\<close>

definition attach_polls :: "sync_setup \<Rightarrow> SpockContext \<Rightarrow> startup_poll list" where
  "attach_polls u ctx = (case find_empty_worker_slot (su_dboid u) ctx of
      None \<Rightarrow> []
    | Some i \<Rightarrow> [\<lparr>sp_world = (\<lambda>c. snd (spock_worker_attach i (su_pid u) c)), sp_sigterm = False,
                 sp_status = BGWH_STARTED, sp_now = 1\<rparr>])"

definition setup_env :: "sync_setup \<Rightarrow> sync_env" where
  "setup_env u = \<lparr>se_dboid = su_dboid u, se_subid = su_subid u, se_slot = su_slot u, se_restart_delay_default = 5000,
     se_launched = True, se_now = 1, se_polls = attach_polls u\<rparr>"

definition sync_exit :: "bool \<Rightarrow> table_sync \<Rightarrow> table_sync" where
  "sync_exit crash w = w\<lparr>sw_ctx := snd (spock_worker_detach crash 1 (Some (tb_slot w)) (sw_ctx w)), tb_phase := Not_running\<rparr>"

definition store_row :: "sync_setup \<Rightarrow> byte \<Rightarrow> XLogRecPtr \<Rightarrow> (table_sync \<Rightarrow> table_sync) \<Rightarrow> table_sync \<Rightarrow> table_sync" where
  "store_row u status lsn k w =
     (case set_table_sync_status (su_subid u) (su_nspname u) (su_relname u) status lsn (sw_rows w) of
        Inl _ \<Rightarrow> sync_exit True w
      | Inr rows \<Rightarrow> k (w\<lparr>sw_rows := rows\<rparr>))"

text \<open>
  What the sync worker does next.  The slot is created at a position that the provider chooses: not
  inside a commit record and after every transaction that a worker has received.  \<open>Look\<close> is a turn of
  the wait for the apply worker, with whether SIGTERM arrived.
\<close>

datatype worker_event = Begin | Create_slot XLogRecPtr | Copy_data | Announce | Look bool | Replay | Crash

definition own_worker :: "table_sync \<Rightarrow> SpockWorker" where
  "own_worker w = ctx_workers (sw_ctx w) ! tb_slot w"

definition after_wait :: "sync_setup \<Rightarrow> sync_txn list \<Rightarrow> XLogRecPtr \<Rightarrow> table_sync \<Rightarrow> table_sync" where
  "after_wait u h s w =
     (if nothing_to_catch_up s (own_worker w) then store_row u SYNC_STATUS_SYNCDONE s (sync_exit False) w
      else w\<lparr>tb_phase := Streaming (txns_upto h s)\<rparr>)"

definition replay_one :: "sync_setup \<Rightarrow> sync_txn list \<Rightarrow> nat \<Rightarrow> table_sync \<Rightarrow> table_sync" where
  "replay_one u h k w =
     (let w1 = w\<lparr>tb_table := tb_table w @ (if tx_changes (h ! k) then [k] else [])\<rparr> in
      if replay_stops (tx_end_lsn (h ! k)) (own_worker w)
      then store_row u SYNC_STATUS_SYNCDONE (tx_end_lsn (h ! k)) (sync_exit False) w1
      else w1\<lparr>tb_phase := Streaming (Suc k)\<rparr>)"

fun sync_worker_step :: "sync_setup \<Rightarrow> sync_txn list \<Rightarrow> worker_event \<Rightarrow> table_sync \<Rightarrow> table_sync" where
  "sync_worker_step u h Begin w =
     (if tb_phase w = Running then
        (case sync_table_begin (su_subid u) (su_nspname u) (su_relname u) (sw_rows w) of
           Inl _ \<Rightarrow> sync_exit True w
         | Inr (rows, Some _, _) \<Rightarrow> sync_exit False (w\<lparr>sw_rows := rows\<rparr>)
         | Inr (rows, None, _) \<Rightarrow> w\<lparr>sw_rows := rows, tb_phase := Started\<rparr>)
      else w)"
| "sync_worker_step u h (Create_slot s) w =
     (if tb_phase w = Started \<and> boundary h s \<and> tb_done w \<le> txns_upto h s
      then store_row u SYNC_STATUS_DATA s (\<lambda>w. w\<lparr>tb_phase := Copying s\<rparr>) w else w)"
| "sync_worker_step u h Copy_data w =
     (case tb_phase w of Copying s \<Rightarrow> w\<lparr>tb_table := changes h (txns_upto h s), tb_phase := Copied s\<rparr> | _ \<Rightarrow> w)"
| "sync_worker_step u h Announce w =
     (case tb_phase w of
        Copied s \<Rightarrow> store_row u SYNC_STATUS_SYNCWAIT s (\<lambda>w. w\<lparr>tb_phase := Waiting s\<rparr>) w
      | _ \<Rightarrow> w)"
| "sync_worker_step u h (Look got_SIGTERM) w =
     (case tb_phase w of
        Waiting s \<Rightarrow>
          (case wait_for_sync_status_change (su_dboid u) (su_subid u) (su_nspname u) (su_relname u) SYNC_STATUS_CATCHUP
                  [(got_SIGTERM, w)] w of
             (None, _) \<Rightarrow> w
           | (Some _, _) \<Rightarrow> after_wait u h s w)
      | _ \<Rightarrow> w)"
| "sync_worker_step u h Replay w =
     (case tb_phase w of Streaming k \<Rightarrow> if k < length h then replay_one u h k w else w | _ \<Rightarrow> w)"
| "sync_worker_step u h Crash w = (if tb_phase w = Not_running then w else sync_exit True w)"

text \<open>What the turns of a wait of the apply worker see while the sync worker takes its steps.\<close>

fun worker_views :: "sync_setup \<Rightarrow> sync_txn list \<Rightarrow> worker_event list \<Rightarrow> table_sync \<Rightarrow> (bool \<times> table_sync) list" where
  "worker_views u h [] w = []"
| "worker_views u h (e # es) w = (let w' = sync_worker_step u h e w in (False, w') # worker_views u h es w')"

text \<open>A sync worker that was started is noticed by its attached slot.\<close>

definition note_worker :: "sync_setup \<Rightarrow> table_sync \<Rightarrow> table_sync" where
  "note_worker u w =
     (if tb_phase w \<noteq> Not_running then w
      else case filter (\<lambda>i. spock_worker_running (Some i) (sw_ctx w)) (spock_sync_find_all (su_dboid u) (su_subid u) (sw_ctx w)) of
             [] \<Rightarrow> w
           | i # _ \<Rightarrow> w\<lparr>tb_slot := i, tb_phase := Running\<rparr>)"

definition sync_pass :: "sync_setup \<Rightarrow> sync_txn list \<Rightarrow> worker_event list \<Rightarrow> XLogRecPtr \<Rightarrow> table_sync \<Rightarrow> table_sync" where
  "sync_pass u h es end_lsn w =
     (case process_syncing_tables (setup_env u) (worker_views u h es) (tb_origin_lsn w) end_lsn (tb_cache w) w of
        (w', cache, e) \<Rightarrow> note_worker u (w'\<lparr>tb_cache := cache, tb_stopped := (e \<noteq> None)\<rparr>))"

text \<open>
  The apply worker reads the next transaction, or is idle at a position up to which it has read
  everything; both end with a walk over the tables.  It is signalled to read the catalog again.  It
  restarts: the lists in its memory are empty and it has no position until the next transaction.
\<close>

datatype sync_event =
    Apply_txn "worker_event list"
  | Idle XLogRecPtr "worker_event list"
  | Worker worker_event
  | Signal
  | Restart

definition set_pending :: "sync_setup \<Rightarrow> table_sync \<Rightarrow> table_sync" where
  "set_pending u w = w\<lparr>sw_ctx := upd_slot (su_slot u) (\<lambda>v. v\<lparr>w_apply := (w_apply v)\<lparr>aw_sync_pending := True\<rparr>\<rparr>) (sw_ctx w)\<rparr>"

definition apply_next :: "sync_setup \<Rightarrow> sync_txn list \<Rightarrow> table_sync \<Rightarrow> table_sync" where
  "apply_next u h w =
     (let t = h ! tb_done w;
          applied = tx_changes t \<and> should_apply_changes_for_rel (tb_cache w) (tx_commit_lsn t) (su_nspname u) (su_relname u)
      in w\<lparr>tb_origin_lsn := (if tx_local t then tx_end_lsn t else tx_commit_lsn t), tb_done := Suc (tb_done w),
           tb_table := tb_table w @ (if applied then [tb_done w] else [])\<rparr>)"

fun table_sync_step :: "sync_setup \<Rightarrow> sync_txn list \<Rightarrow> sync_event \<Rightarrow> table_sync \<Rightarrow> table_sync" where
  "table_sync_step u h (Apply_txn es) w =
     (if tb_stopped w \<or> length h \<le> tb_done w then w
      else sync_pass u h es (tx_end_lsn (h ! tb_done w)) (apply_next u h w))"
| "table_sync_step u h (Idle pos es) w =
     (if tb_stopped w \<or> \<not> txns_upto h pos \<le> tb_done w then w else sync_pass u h es pos w)"
| "table_sync_step u h (Worker e) w = sync_worker_step u h e w"
| "table_sync_step u h Signal w = set_pending u w"
| "table_sync_step u h Restart w = set_pending u (w\<lparr>tb_cache := [], tb_origin_lsn := InvalidXLogRecPtr, tb_stopped := False\<rparr>)"

definition table_sync_run :: "sync_setup \<Rightarrow> sync_txn list \<Rightarrow> sync_event list \<Rightarrow> table_sync \<Rightarrow> table_sync" where
  "table_sync_run u h es w = fold (table_sync_step u h) es w"

text \<open>The apply worker never restarts, and the sync worker is not told to stop while it waits.\<close>

fun undisturbed_worker :: "worker_event \<Rightarrow> bool" where
  "undisturbed_worker (Look got_SIGTERM) = (\<not> got_SIGTERM)"
| "undisturbed_worker e = True"

fun undisturbed :: "sync_event \<Rightarrow> bool" where
  "undisturbed (Apply_txn es) = list_all undisturbed_worker es"
| "undisturbed (Idle pos es) = list_all undisturbed_worker es"
| "undisturbed (Worker e) = undisturbed_worker e"
| "undisturbed Signal = True"
| "undisturbed Restart = False"

text \<open>The table is to be synchronised: the apply worker knows it, and no sync worker runs.\<close>

definition table_row_of :: "sync_setup \<Rightarrow> table_sync \<Rightarrow> sync_tuple option" where
  "table_row_of u w = find (table_row (su_subid u) (su_nspname u) (su_relname u)) (sw_rows w)"

definition sync_start :: "sync_setup \<Rightarrow> table_sync" where
  "sync_start u =
     (let row = \<lparr>st_kind = SYNC_KIND_DATA, st_subid = su_subid u, st_nspname = Some (su_nspname u),
                 st_relname = Some (su_relname u), st_status = SYNC_STATUS_INIT, st_statuslsn = 0\<rparr>;
          apply = zero_worker\<lparr>w_worker_type := SPOCK_WORKER_APPLY, w_dboid := su_dboid u, w_proc := Some 1,
                    w_apply := zero_apply_worker\<lparr>aw_subid := su_subid u\<rparr>\<rparr>
      in \<lparr>sw_rows = [row\<lparr>st_kind := SYNC_KIND_FULL, st_nspname := None, st_relname := None, st_status := SYNC_STATUS_READY\<rparr>, row],
          sw_ctx = \<lparr>ctx_supervisor = None, ctx_subscriptions_changed = False,
                    ctx_workers = (replicate 3 zero_worker)[su_slot u := apply]\<rparr>,
          tb_cache = [syncstatus_fromtuple row], tb_origin_lsn = 0, tb_done = 0, tb_stopped = False, tb_slot = 0,
          tb_phase = Not_running, tb_table = []\<rparr>)"

section \<open>Positions and transactions\<close>

lemma history_order:
  assumes h: "history_ok h" and i: "i < j" and j: "j < length h"
  shows "tx_end_lsn (h ! i) \<le> tx_commit_lsn (h ! j)"
  using i j
proof (induction j)
  case (Suc j)
  have n: "tx_end_lsn (h ! j) \<le> tx_commit_lsn (h ! Suc j)" "tx_commit_lsn (h ! j) < tx_end_lsn (h ! j)"
    using h Suc.prems by (auto simp: history_ok_def)
  show ?case
  proof (cases "i = j")
    case False
    then have "tx_end_lsn (h ! i) \<le> tx_commit_lsn (h ! j)" using Suc by simp
    then show ?thesis using n by order
  qed (use n in simp)
qed simp

lemma history_ends:
  assumes h: "history_ok h" and "i < j" "j < length h"
  shows "tx_end_lsn (h ! i) < tx_end_lsn (h ! j)"
proof -
  have "tx_commit_lsn (h ! j) < tx_end_lsn (h ! j)" using assms by (auto simp: history_ok_def)
  then show ?thesis using history_order [OF assms] by order
qed

lemma less_txns_upto:
  assumes h: "history_ok h"
  shows "i < txns_upto h l \<longleftrightarrow> i < length h \<and> tx_end_lsn (h ! i) \<le> l"
proof
  assume i: "i < txns_upto h l"
  have "txns_upto h l \<le> length h" by (simp add: txns_upto_def length_takeWhile_le)
  moreover have "tx_end_lsn (h ! i) \<le> l"
    using i nth_mem [of i "takeWhile (\<lambda>t. tx_end_lsn t \<le> l) h"] takeWhile_nth [of i _ h]
    by (auto simp: txns_upto_def dest: set_takeWhileD)
  ultimately show "i < length h \<and> tx_end_lsn (h ! i) \<le> l" using i by simp
next
  assume i: "i < length h \<and> tx_end_lsn (h ! i) \<le> l"
  show "i < txns_upto h l"
  proof (rule ccontr)
    assume n: "\<not> i < txns_upto h l"
    then have m: "txns_upto h l < length h" using i by simp
    then have "\<not> tx_end_lsn (h ! txns_upto h l) \<le> l"
      using nth_length_takeWhile [of "\<lambda>t. tx_end_lsn t \<le> l" h] by (simp add: txns_upto_def)
    moreover have "tx_end_lsn (h ! txns_upto h l) \<le> tx_end_lsn (h ! i)"
      using history_ends [OF h, of "txns_upto h l" i] n i by (cases "txns_upto h l = i") auto
    ultimately show False using i by (meson order_trans)
  qed
qed

lemma txns_upto_le_length: "txns_upto h l \<le> length h"
  by (simp add: txns_upto_def length_takeWhile_le)

lemma txns_upto_end:
  assumes h: "history_ok h" and i: "i < length h"
  shows "txns_upto h (tx_end_lsn (h ! i)) = Suc i"
proof (rule antisym)
  show "txns_upto h (tx_end_lsn (h ! i)) \<le> Suc i"
  proof (rule ccontr)
    assume "\<not> ?thesis"
    then have "Suc i < txns_upto h (tx_end_lsn (h ! i))" by simp
    then show False using less_txns_upto [OF h] history_ends [OF h, of i "Suc i"] by fastforce
  qed
  show "Suc i \<le> txns_upto h (tx_end_lsn (h ! i))" using less_txns_upto [OF h, of i] i by (simp add: Suc_le_eq)
qed

lemma txns_upto_mono: "history_ok h \<Longrightarrow> a \<le> b \<Longrightarrow> txns_upto h a \<le> txns_upto h b"
proof (rule ccontr)
  assume h: "history_ok h" and ab: "a \<le> b" and n: "\<not> txns_upto h a \<le> txns_upto h b"
  then have "txns_upto h b < txns_upto h a" by simp
  then have "tx_end_lsn (h ! txns_upto h b) \<le> a" "txns_upto h b < length h" by (simp_all add: less_txns_upto [OF h])
  then have "txns_upto h b < txns_upto h b" using ab less_txns_upto [OF h, of "txns_upto h b" b] by (simp add: order_trans)
  then show False by simp
qed

lemma boundary_end:
  assumes h: "history_ok h" and i: "i < length h"
  shows "boundary h (tx_end_lsn (h ! i))"
proof -
  have "\<not> (tx_commit_lsn (h ! j) < tx_end_lsn (h ! i) \<and> tx_end_lsn (h ! i) < tx_end_lsn (h ! j))" if j: "j < length h" for j
    using history_order [OF h _ j, of i] history_ends [OF h _ i, of j] by (cases "i < j"; cases "i = j") auto
  then show ?thesis by (auto simp: boundary_def in_set_conv_nth)
qed

lemma changes_Suc: "changes h (Suc n) = changes h n @ (if tx_changes (h ! n) then [n] else [])"
  by (simp add: changes_def)

lemma changes_skip: "n \<le> m \<Longrightarrow> (\<And>i. n \<le> i \<Longrightarrow> i < m \<Longrightarrow> \<not> tx_changes (h ! i)) \<Longrightarrow> changes h m = changes h n"
  by (induction rule: dec_induct) (simp_all add: changes_Suc)

text \<open>The apply worker has read a transaction and its position says so.\<close>

definition covered :: "sync_txn \<Rightarrow> XLogRecPtr \<Rightarrow> bool" where
  "covered t lsn \<longleftrightarrow> tx_end_lsn t \<le> lsn \<or> \<not> tx_local t \<and> tx_commit_lsn t \<le> lsn"

lemma settled:
  assumes h: "history_ok h" and d: "d \<le> length h" and s: "stop \<le> e"
    and c: "(\<forall>i<d. covered (h ! i) stop) \<or> d \<le> txns_upto h e"
  shows "changes h (max d (txns_upto h e)) = changes h (txns_upto h e)"
proof (cases "d \<le> txns_upto h e")
  case False
  have "\<not> tx_changes (h ! i)" if "txns_upto h e \<le> i" "i < d" for i
  proof -
    have "covered (h ! i) stop" using c False that by auto
    moreover have "\<not> tx_end_lsn (h ! i) \<le> e" using less_txns_upto [OF h, of i e] that d by auto
    ultimately have "\<not> tx_local (h ! i)" using s by (auto simp: covered_def dest: order_trans)
    then show ?thesis using h that d by (auto simp: history_ok_def)
  qed
  then show ?thesis using False changes_skip [of "txns_upto h e" d h] by (simp add: max_def)
qed (simp add: max_def)

section \<open>What holds at every moment\<close>

text \<open>The table is the only one of the subscription that has a row.\<close>

definition row_is :: "sync_setup \<Rightarrow> sync_tuple list \<Rightarrow> sync_tuple \<Rightarrow> bool" where
  "row_is u rows r \<longleftrightarrow> filter (\<lambda>x. st_subid x = su_subid u \<and> \<not> subscription_row (su_subid u) x) rows = [r] \<and>
     table_row (su_subid u) (su_nspname u) (su_relname u) r"

text \<open>Only the sync worker that the phase tells of runs.\<close>

definition sync_slot :: "sync_setup \<Rightarrow> SpockWorker \<Rightarrow> bool" where
  "sync_slot u v \<longleftrightarrow> w_worker_type v = SPOCK_WORKER_SYNC \<and> su_dboid u = w_dboid v \<and> su_subid u = aw_subid (w_apply v)"

definition only_worker :: "sync_setup \<Rightarrow> SpockWorker list \<Rightarrow> nat \<Rightarrow> bool \<Rightarrow> bool" where
  "only_worker u ws slot on \<longleftrightarrow>
     (\<forall>j < length ws. sync_slot u (ws ! j) \<and> w_proc (ws ! j) \<noteq> None \<longrightarrow> on \<and> j = slot)"

definition workers_ok :: "sync_setup \<Rightarrow> SpockWorker list \<Rightarrow> nat \<Rightarrow> bool \<Rightarrow> bool" where
  "workers_ok u ws slot on \<longleftrightarrow>
     su_slot u < length ws \<and> w_worker_type (ws ! su_slot u) = SPOCK_WORKER_APPLY \<and> w_terminated_at (ws ! su_slot u) = 0 \<and>
     w_dboid (ws ! su_slot u) = su_dboid u \<and>
     (on \<longrightarrow> slot < length ws \<and> sync_slot u (ws ! slot) \<and> w_nspname (ws ! slot) = su_nspname u \<and>
        w_relname (ws ! slot) = su_relname u \<and> w_proc (ws ! slot) \<noteq> None) \<and>
     only_worker u ws slot on"

text \<open>
  The phase of the sync worker and the status of the row fit, and the table has what they promise.
  \<open>d0\<close> is the number of transactions that the apply worker had read at the start.
\<close>

definition caught :: "sync_txn list \<Rightarrow> nat \<Rightarrow> nat \<Rightarrow> XLogRecPtr \<Rightarrow> bool" where
  "caught h d0 d lsn \<longleftrightarrow> d = d0 \<or> (\<forall>i<d. covered (h ! i) lsn)"

fun phase_ok :: "sync_txn list \<Rightarrow> nat \<Rightarrow> nat \<Rightarrow> nat list \<Rightarrow> XLogRecPtr \<Rightarrow> sync_tuple \<Rightarrow> sync_phase \<Rightarrow> bool" where
  "phase_ok h d0 d tab stop r Not_running = True"
| "phase_ok h d0 d tab stop r Running = True"
| "phase_ok h d0 d tab stop r Started = (st_status r = SYNC_STATUS_STARTED)"
| "phase_ok h d0 d tab stop r (Copying s) = (st_status r = SYNC_STATUS_DATA \<and> boundary h s \<and> d0 \<le> txns_upto h s)"
| "phase_ok h d0 d tab stop r (Copied s) =
     (st_status r = SYNC_STATUS_DATA \<and> boundary h s \<and> d0 \<le> txns_upto h s \<and> tab = changes h (txns_upto h s))"
| "phase_ok h d0 d tab stop r (Waiting s) =
     ((st_status r = SYNC_STATUS_SYNCWAIT \<or> st_status r = SYNC_STATUS_CATCHUP \<and> caught h d0 d stop) \<and>
      boundary h s \<and> d0 \<le> txns_upto h s \<and> tab = changes h (txns_upto h s))"
| "phase_ok h d0 d tab stop r (Streaming k) =
     (st_status r = SYNC_STATUS_CATCHUP \<and> caught h d0 d stop \<and> d0 \<le> k \<and> k \<le> length h \<and> tab = changes h k \<and>
      (\<forall>i<k. tx_end_lsn (h ! i) < stop) \<and> stop \<noteq> InvalidXLogRecPtr)"

definition content_ok :: "sync_txn list \<Rightarrow> nat \<Rightarrow> nat list \<Rightarrow> sync_tuple \<Rightarrow> sync_phase \<Rightarrow> bool" where
  "content_ok h d tab r phase \<longleftrightarrow>
     (st_status r = SYNC_STATUS_READY \<longrightarrow> tab = changes h d \<and> phase = Not_running) \<and>
     (st_status r = SYNC_STATUS_SYNCDONE \<longrightarrow> boundary h (st_statuslsn r) \<and>
        tab = changes h (max d (txns_upto h (st_statuslsn r))) \<and> phase = Not_running)"

definition core :: "sync_setup \<Rightarrow> sync_txn list \<Rightarrow> nat \<Rightarrow> table_sync \<Rightarrow> sync_tuple \<Rightarrow> bool" where
  "core u h d0 w r \<longleftrightarrow>
     row_is u (sw_rows w) r \<and> workers_ok u (ctx_workers (sw_ctx w)) (tb_slot w) (tb_phase w \<noteq> Not_running) \<and>
     phase_ok h d0 (tb_done w) (tb_table w) (aw_replay_stop_lsn (w_apply (own_worker w))) r (tb_phase w) \<and>
     content_ok h (tb_done w) (tb_table w) r (tb_phase w) \<and>
     caught h d0 (tb_done w) (tb_origin_lsn w) \<and> d0 \<le> tb_done w \<and> tb_done w \<le> length h"

lemma row_is_find:
  assumes "row_is u rows r"
  shows "find (table_row (su_subid u) (su_nspname u) (su_relname u)) rows = Some r"
proof -
  have "find P rows = Some x" if "filter Q rows = [x]" "P x" "\<And>y. P y \<Longrightarrow> Q y" for P Q x
    using that by (induction rows) (auto split: if_splits simp: find_None_iff filter_empty_conv)
  then show ?thesis using assms by (fastforce simp: row_is_def table_row_def subscription_row_def)
qed

lemma row_is_set:
  assumes r: "row_is u rows r"
  shows "\<exists>rows'. set_table_sync_status (su_subid u) (su_nspname u) (su_relname u) st l rows = Inr rows' \<and>
    row_is u rows' (r\<lparr>st_status := st, st_statuslsn := l\<rparr>)"
proof -
  let ?f = "\<lambda>r. r\<lparr>st_status := st, st_statuslsn := l\<rparr>"
  let ?P = "table_row (su_subid u) (su_nspname u) (su_relname u)"
  let ?Q = "\<lambda>x. st_subid x = su_subid u \<and> \<not> subscription_row (su_subid u) x"
  obtain ys zs where rows: "rows = ys @ r # zs" and upd: "update_first ?P ?f rows = Some (ys @ ?f r # zs)"
    using update_first_find [OF row_is_find [OF r], of ?f] by blast
  have q: "?Q r" "?Q (?f r)" "?P (?f r)"
    using r by (auto simp: row_is_def table_row_def subscription_row_def)
  have "filter ?Q ys @ r # filter ?Q zs = [r]" using r q by (simp add: row_is_def rows)
  then have "filter ?Q ys = []" "filter ?Q zs = []" by (auto simp: append_eq_Cons_conv)
  then have "row_is u (ys @ ?f r # zs) (?f r)" using q by (simp add: row_is_def)
  then show ?thesis using upd by (simp add: set_table_sync_status_def)
qed

text \<open>A detached worker does not run.\<close>

lemma workers_okD:
  assumes "workers_ok u ws slot True"
  shows "slot < length ws" "sync_slot u (ws ! slot)" "slot \<noteq> su_slot u" "w_worker_type (ws ! slot) = SPOCK_WORKER_SYNC"
    "w_nspname (ws ! slot) = su_nspname u" "w_relname (ws ! slot) = su_relname u" "w_proc (ws ! slot) \<noteq> None"
  using assms by (auto simp: workers_ok_def sync_slot_def)

lemma only_worker_stop:
  assumes "only_worker u ws slot on" and "w_proc v = None"
  shows "only_worker u (ws[slot := v]) slot' False"
  unfolding only_worker_def
proof (intro allI impI)
  fix j
  assume j: "j < length (ws[slot := v])" and run: "sync_slot u (ws[slot := v] ! j) \<and> w_proc (ws[slot := v] ! j) \<noteq> None"
  have "j \<noteq> slot" using j run assms(2) by auto
  then have "sync_slot u (ws ! j) \<and> w_proc (ws ! j) \<noteq> None" using run by simp
  then show "False \<and> j = slot'" using assms(1) j \<open>j \<noteq> slot\<close> unfolding only_worker_def by simp
qed

lemma workers_ok_stop:
  assumes ok: "workers_ok u ws slot True" and v: "w_proc v = None"
  shows "workers_ok u (ws[slot := v]) slot' False"
  using ok workers_okD(3) [OF ok] only_worker_stop [OF _ v, of u ws slot True slot'] by (simp add: workers_ok_def)

lemma detach_workers:
  assumes "workers_ok u (ctx_workers ctx) slot True"
  shows "workers_ok u (ctx_workers (snd (spock_worker_detach crash now (Some slot) ctx))) slot' False"
  using workers_okD [OF assms] workers_ok_stop [OF assms]
  by (cases crash) (simp_all add: spock_worker_detach_def Let_def mark_terminated_def)

text \<open>The apply worker is being waited for or has been heard: the sync worker may finish.\<close>

definition busy :: "table_sync \<Rightarrow> sync_tuple \<Rightarrow> bool" where
  "busy w r \<longleftrightarrow> st_status r = SYNC_STATUS_CATCHUP \<and> ((\<exists>s. tb_phase w = Waiting s) \<or> (\<exists>k. tb_phase w = Streaming k))"

text \<open>What a step of the sync worker leaves to the apply worker.\<close>

definition worker_rel :: "table_sync \<Rightarrow> sync_tuple \<Rightarrow> table_sync \<Rightarrow> sync_tuple \<Rightarrow> bool" where
  "worker_rel w r w' r' \<longleftrightarrow>
     tb_cache w' = tb_cache w \<and> tb_done w' = tb_done w \<and> tb_origin_lsn w' = tb_origin_lsn w \<and> tb_stopped w' = tb_stopped w \<and>
     (st_status r' = SYNC_STATUS_READY \<longleftrightarrow> st_status r = SYNC_STATUS_READY) \<and>
     (\<not> busy w r \<longrightarrow> \<not> busy w' r' \<and> (st_status r' = SYNC_STATUS_SYNCDONE \<longleftrightarrow> st_status r = SYNC_STATUS_SYNCDONE) \<and>
        (st_status r = SYNC_STATUS_SYNCDONE \<longrightarrow> st_statuslsn r' = st_statuslsn r))"

lemma worker_rel_refl [simp]: "worker_rel w r w r"
  by (simp add: worker_rel_def)

lemma worker_rel_trans: "worker_rel w r w1 r1 \<Longrightarrow> worker_rel w1 r1 w2 r2 \<Longrightarrow> worker_rel w r w2 r2"
  by (auto simp: worker_rel_def)

lemma core_on:
  assumes "core u h d0 w r" "tb_phase w \<noteq> Not_running"
  shows "workers_ok u (ctx_workers (sw_ctx w)) (tb_slot w) True"
    "st_status r \<noteq> SYNC_STATUS_READY" "st_status r \<noteq> SYNC_STATUS_SYNCDONE"
  using assms by (auto simp: core_def content_ok_def)

lemma sync_exit_core:
  assumes c: "core u h d0 w r" and on: "tb_phase w \<noteq> Not_running"
    and r': "row_is u rows r'" and ct: "content_ok h (tb_done w) tab r' Not_running"
  shows "core u h d0 (sync_exit crash (w\<lparr>sw_rows := rows, tb_table := tab\<rparr>)) r'"
  using c r' ct detach_workers [OF core_on(1) [OF c on]]
  by (simp add: core_def sync_exit_def)

lemma sync_exit_rel:
  "worker_rel w r (sync_exit crash (w\<lparr>sw_rows := rows, tb_table := tab\<rparr>)) r' \<longleftrightarrow>
     (st_status r' = SYNC_STATUS_READY \<longleftrightarrow> st_status r = SYNC_STATUS_READY) \<and>
     (\<not> busy w r \<longrightarrow> (st_status r' = SYNC_STATUS_SYNCDONE \<longleftrightarrow> st_status r = SYNC_STATUS_SYNCDONE) \<and>
        (st_status r = SYNC_STATUS_SYNCDONE \<longrightarrow> st_statuslsn r' = st_statuslsn r))"
  by (auto simp: worker_rel_def sync_exit_def busy_def)

lemma crash_core:
  assumes c: "core u h d0 w r" and on: "tb_phase w \<noteq> Not_running"
  shows "core u h d0 (sync_exit True w) r \<and> worker_rel w r (sync_exit True w) r"
proof -
  have ct: "content_ok h (tb_done w) (tb_table w) r Not_running"
    using core_on(2,3) [OF c on] by (simp add: content_ok_def)
  have w: "w\<lparr>sw_rows := sw_rows w, tb_table := tb_table w\<rparr> = w" by simp
  have "row_is u (sw_rows w) r" using c by (simp add: core_def)
  then show ?thesis
    using sync_exit_core [OF c on _ ct, where rows = "sw_rows w" and crash = True]
      sync_exit_rel [where w = w and r = r and crash = True and rows = "sw_rows w" and tab = "tb_table w" and r' = r]
    unfolding w by simp
qed

text \<open>A step that stores a new status and stays in the registry.\<close>

lemma store_row_core:
  assumes c: "core u h d0 w r" and on: "tb_phase w \<noteq> Not_running" "ph \<noteq> Not_running"
    and st: "st \<noteq> SYNC_STATUS_READY" "st \<noteq> SYNC_STATUS_SYNCDONE" "st \<noteq> SYNC_STATUS_CATCHUP"
    and ph: "\<And>r'. r' = r\<lparr>st_status := st, st_statuslsn := l\<rparr> \<Longrightarrow>
      phase_ok h d0 (tb_done w) (tb_table w) (aw_replay_stop_lsn (w_apply (own_worker w))) r' ph"
    and w': "w' = store_row u st l (\<lambda>w. w\<lparr>tb_phase := ph\<rparr>) w"
  shows "\<exists>r'. core u h d0 w' r' \<and> worker_rel w r w' r'"
proof -
  let ?r = "r\<lparr>st_status := st, st_statuslsn := l\<rparr>"
  have "row_is u (sw_rows w) r" using c by (simp add: core_def)
  then obtain rows where rows: "set_table_sync_status (su_subid u) (su_nspname u) (su_relname u) st l (sw_rows w) = Inr rows"
    "row_is u rows ?r" using row_is_set by blast
  have w2: "w' = w\<lparr>sw_rows := rows, tb_phase := ph\<rparr>" by (simp add: w' store_row_def rows)
  have "core u h d0 w' ?r"
    using c rows ph [OF refl] st on core_on(1) [OF c on(1)]
    by (simp add: core_def w2 content_ok_def own_worker_def)
  moreover have "worker_rel w r w' ?r"
    using core_on(2,3) [OF c on(1)] st by (simp add: worker_rel_def w2 busy_def)
  ultimately show ?thesis by blast
qed

text \<open>The sync worker is done at a position.\<close>

lemma store_done_core:
  assumes h: "history_ok h" and c: "core u h d0 w r" and b: "busy w r"
    and e: "boundary h e" "aw_replay_stop_lsn (w_apply (own_worker w)) \<le> e" "d0 \<le> txns_upto h e"
    and tab: "tab = changes h (txns_upto h e)"
    and w': "w' = store_row u SYNC_STATUS_SYNCDONE e (sync_exit False) (w\<lparr>tb_table := tab\<rparr>)"
  shows "\<exists>r'. core u h d0 w' r' \<and> worker_rel w r w' r'"
proof -
  let ?r = "r\<lparr>st_status := SYNC_STATUS_SYNCDONE, st_statuslsn := e\<rparr>"
  have on: "tb_phase w \<noteq> Not_running" using b by (auto simp: busy_def)
  have "row_is u (sw_rows w) r" and d: "tb_done w \<le> length h" "d0 \<le> tb_done w" using c by (simp_all add: core_def)
  then obtain rows where rows: "set_table_sync_status (su_subid u) (su_nspname u) (su_relname u) SYNC_STATUS_SYNCDONE e (sw_rows w) = Inr rows"
    "row_is u rows ?r" using row_is_set by blast
  have "caught h d0 (tb_done w) (aw_replay_stop_lsn (w_apply (own_worker w)))"
    using c b by (cases "tb_phase w") (auto simp: core_def busy_def)
  then have "(\<forall>i<tb_done w. covered (h ! i) (aw_replay_stop_lsn (w_apply (own_worker w)))) \<or> tb_done w \<le> txns_upto h e"
    using e(3) by (auto simp: caught_def)
  then have "content_ok h (tb_done w) tab ?r Not_running"
    using settled [OF h d(1) e(2)] e(1) by (simp add: content_ok_def tab)
  then have "core u h d0 (sync_exit False (w\<lparr>sw_rows := rows, tb_table := tab\<rparr>)) ?r"
    using sync_exit_core [OF c on rows(2)] by blast
  moreover have "worker_rel w r (sync_exit False (w\<lparr>sw_rows := rows, tb_table := tab\<rparr>)) ?r"
    using b core_on(2,3) [OF c on] by (simp add: sync_exit_rel)
  moreover have "w' = sync_exit False (w\<lparr>sw_rows := rows, tb_table := tab\<rparr>)"
    using rows(1) by (cases w) (simp add: w' store_row_def)
  ultimately show ?thesis by blast
qed

lemma begin_core:
  assumes c: "core u h d0 w r" and ph: "tb_phase w = Running" and w': "w' = sync_worker_step u h Begin w"
  shows "\<exists>r'. core u h d0 w' r' \<and> worker_rel w r w' r'"
proof -
  let ?b = "sync_table_begin (su_subid u) (su_nspname u) (su_relname u) (sw_rows w)"
  have on: "tb_phase w \<noteq> Not_running" and nb: "\<not> busy w r" using ph by (simp_all add: busy_def)
  have row: "row_is u (sw_rows w) r" using c by (simp add: core_def)
  note st = core_on(2,3) [OF c on]
  define f where "f st = r\<lparr>st_status := st, st_statuslsn := InvalidXLogRecPtr\<rparr>" for st
  obtain rf where rf: "set_table_sync_status (su_subid u) (su_nspname u) (su_relname u) SYNC_STATUS_FAILED InvalidXLogRecPtr (sw_rows w) = Inr rf"
    "row_is u rf (f SYNC_STATUS_FAILED)" using row_is_set [OF row] unfolding f_def by blast
  obtain rs where rs: "set_table_sync_status (su_subid u) (su_nspname u) (su_relname u) SYNC_STATUS_STARTED InvalidXLogRecPtr (sw_rows w) = Inr rs"
    "row_is u rs (f SYNC_STATUS_STARTED)" using row_is_set [OF row] unfolding f_def by blast
  have "(\<exists>e. ?b = Inl e) \<or> (\<exists>l. ?b = Inr (rf, Some SYNC_STATUS_FAILED, l)) \<or> (\<exists>l. ?b = Inr (rs, None, l))"
    unfolding sync_table_begin_def row_is_find [OF row] using st rf(1) rs(1)
    by (cases "find (subscription_row (su_subid u)) (sw_rows w)"; cases "st_status r = SYNC_STATUS_INIT") simp_all
  then consider e where "?b = Inl e" | l where "?b = Inr (rf, Some SYNC_STATUS_FAILED, l)" | l where "?b = Inr (rs, None, l)"
    by blast
  then show ?thesis
  proof cases
    case (1 e)
    then show ?thesis using crash_core [OF c on] by (intro exI [of _ r]) (simp add: w' ph)
  next
    case (2 l)
    have "content_ok h (tb_done w) (tb_table w) (f SYNC_STATUS_FAILED) Not_running"
      by (simp add: content_ok_def f_def)
    then show ?thesis
      using sync_exit_core [OF c on rf(2), of "tb_table w" False] st nb 2
        sync_exit_rel [where w = w and r = r and crash = False and rows = rf and tab = "tb_table w" and r' = "f SYNC_STATUS_FAILED"]
      by (intro exI [of _ "f SYNC_STATUS_FAILED"]) (simp add: w' ph f_def)
  next
    case (3 l)
    then have w2: "w' = w\<lparr>sw_rows := rs, tb_phase := Started\<rparr>" by (simp add: w' ph)
    have "core u h d0 w' (f SYNC_STATUS_STARTED)"
      using c rs(2) core_on(1) [OF c on] by (simp add: core_def w2 content_ok_def own_worker_def f_def)
    moreover have "worker_rel w r w' (f SYNC_STATUS_STARTED)"
      using st nb by (simp add: worker_rel_def w2 f_def busy_def)
    ultimately show ?thesis by blast
  qed
qed

lemma streaming_start:
  assumes h: "history_ok h" and s: "\<not> stop \<le> s"
  shows "\<forall>i<txns_upto h s. tx_end_lsn (h ! i) < stop"
  using less_txns_upto [OF h, of _ s] s by (meson leI order.strict_trans1 not_le)

lemma look_core:
  assumes h: "history_ok h" and c: "core u h d0 w r" and ph: "tb_phase w = Waiting s"
    and w': "w' = sync_worker_step u h (Look False) w"
  shows "\<exists>r'. core u h d0 w' r' \<and> worker_rel w r w' r'"
proof -
  have on: "tb_phase w \<noteq> Not_running" using ph by simp
  have row: "find (table_row (su_subid u) (su_nspname u) (su_relname u)) (sw_rows w) = Some r"
    using c by (intro row_is_find) (simp add: core_def)
  note wk = workers_okD [OF core_on(1) [OF c on]]
  have found: "spock_sync_find (su_dboid u) (su_subid u) (su_nspname u) (su_relname u) (sw_ctx w) \<noteq> None"
    using wk by (auto simp: spock_sync_find_def first_slot_None sync_slot_def intro!: bexI [OF _ nth_mem [OF wk(1)]])
  show ?thesis
  proof (cases "st_status r = SYNC_STATUS_CATCHUP")
    case False
    then show ?thesis using row found by (intro exI [of _ r]) (auto simp: w' ph c)
  next
    case True
    then have b: "busy w r" by (simp add: busy_def ph)
    have p: "caught h d0 (tb_done w) (aw_replay_stop_lsn (w_apply (own_worker w)))" "boundary h s" "d0 \<le> txns_upto h s"
      "tb_table w = changes h (txns_upto h s)"
      using c True by (simp_all add: core_def ph)
    have w2: "w' = after_wait u h s w" using row True by (simp add: w' ph)
    show ?thesis
    proof (cases "nothing_to_catch_up s (own_worker w)")
      case True
      have "w' = store_row u SYNC_STATUS_SYNCDONE s (sync_exit False) (w\<lparr>tb_table := tb_table w\<rparr>)"
        using True by (simp add: w2 after_wait_def)
      then show ?thesis using store_done_core [OF h c b p(2) _ p(3,4)] True by (simp add: nothing_to_catch_up_def)
    next
      case False
      then have w3: "w' = w\<lparr>tb_phase := Streaming (txns_upto h s)\<rparr>" by (simp add: w2 after_wait_def)
      have "core u h d0 w' r"
        using c p \<open>st_status r = SYNC_STATUS_CATCHUP\<close> streaming_start [OF h] False txns_upto_le_length [of h s]
        by (auto simp: core_def w3 ph own_worker_def nothing_to_catch_up_def content_ok_def)
      moreover have "worker_rel w r w' r" using b by (simp add: worker_rel_def w3)
      ultimately show ?thesis by blast
    qed
  qed
qed

lemma replay_core:
  assumes h: "history_ok h" and c: "core u h d0 w r" and ph: "tb_phase w = Streaming k" and k: "k < length h"
    and w': "w' = sync_worker_step u h Replay w"
  shows "\<exists>r'. core u h d0 w' r' \<and> worker_rel w r w' r'"
proof -
  let ?stop = "aw_replay_stop_lsn (w_apply (own_worker w))"
  have p: "st_status r = SYNC_STATUS_CATCHUP" "caught h d0 (tb_done w) ?stop" "d0 \<le> k" "tb_table w = changes h k"
    "\<forall>i<k. tx_end_lsn (h ! i) < ?stop" "?stop \<noteq> InvalidXLogRecPtr"
    using c by (simp_all add: core_def ph)
  then have b: "busy w r" by (simp add: busy_def ph)
  have tab: "tb_table w @ (if tx_changes (h ! k) then [k] else []) = changes h (Suc k)" by (simp add: changes_Suc p)
  have w2: "w' = replay_one u h k w" by (simp add: w' ph k)
  show ?thesis
  proof (cases "replay_stops (tx_end_lsn (h ! k)) (own_worker w)")
    case True
    then have "w' = store_row u SYNC_STATUS_SYNCDONE (tx_end_lsn (h ! k)) (sync_exit False) (w\<lparr>tb_table := changes h (Suc k)\<rparr>)"
      unfolding w2 replay_one_def Let_def tab by simp
    then show ?thesis
      using store_done_core [OF h c b boundary_end [OF h k], of "changes h (Suc k)"] True p(3) txns_upto_end [OF h k]
      by (simp add: replay_stops_def)
  next
    case False
    then have w3: "w' = w\<lparr>tb_table := changes h (Suc k), tb_phase := Streaming (Suc k)\<rparr>"
      unfolding w2 replay_one_def Let_def tab by simp
    have "\<forall>i<Suc k. tx_end_lsn (h ! i) < ?stop"
      using p(5,6) \<open>\<not> replay_stops _ _\<close> by (auto simp: replay_stops_def less_Suc_eq)
    then have "core u h d0 w' r"
      using c p(1-3,6) k by (simp add: core_def w3 ph own_worker_def content_ok_def)
    moreover have "worker_rel w r w' r" using b by (simp add: worker_rel_def w3)
    ultimately show ?thesis by blast
  qed
qed

lemma worker_step_core:
  assumes h: "history_ok h" and c: "core u h d0 w r" and e: "undisturbed_worker e"
  shows "\<exists>r'. core u h d0 (sync_worker_step u h e w) r' \<and> worker_rel w r (sync_worker_step u h e w) r'"
proof -
  have stay: ?thesis if "sync_worker_step u h e w = w" using that c by (auto intro: exI [of _ r])
  have d: "d0 \<le> tb_done w" using c by (simp add: core_def)
  show ?thesis
  proof (cases e)
    case Begin
    then show ?thesis using begin_core [OF c _ refl] stay by (cases "tb_phase w = Running") auto
  next
    case (Create_slot s)
    show ?thesis
    proof (cases "tb_phase w = Started \<and> boundary h s \<and> tb_done w \<le> txns_upto h s")
      case True
      have "sync_worker_step u h e w = store_row u SYNC_STATUS_DATA s (\<lambda>w. w\<lparr>tb_phase := Copying s\<rparr>) w"
        using True Create_slot by simp
      then show ?thesis using store_row_core [OF c, of "Copying s" SYNC_STATUS_DATA s] True d by simp
    qed (use stay Create_slot in auto)
  next
    case Copy_data
    show ?thesis
    proof (cases "\<exists>s. tb_phase w = Copying s")
      case True
      then obtain s where s: "tb_phase w = Copying s" by blast
      have "core u h d0 (w\<lparr>tb_table := changes h (txns_upto h s), tb_phase := Copied s\<rparr>) r"
        using c s by (simp add: core_def content_ok_def own_worker_def)
      moreover have "worker_rel w r (w\<lparr>tb_table := changes h (txns_upto h s), tb_phase := Copied s\<rparr>) r"
        by (simp add: worker_rel_def busy_def)
      ultimately show ?thesis using s Copy_data by auto
    qed (use stay Copy_data in \<open>auto split: sync_phase.splits\<close>)
  next
    case Announce
    show ?thesis
    proof (cases "\<exists>s. tb_phase w = Copied s")
      case True
      then obtain s where s: "tb_phase w = Copied s" by blast
      have "sync_worker_step u h e w = store_row u SYNC_STATUS_SYNCWAIT s (\<lambda>w. w\<lparr>tb_phase := Waiting s\<rparr>) w"
        using s Announce by simp
      then show ?thesis
        using store_row_core [OF c, of "Waiting s" SYNC_STATUS_SYNCWAIT s] s c by (simp add: core_def)
    qed (use stay Announce in \<open>auto split: sync_phase.splits\<close>)
  next
    case (Look sig)
    then show ?thesis using look_core [OF h c _ refl] stay e by (cases "tb_phase w") auto
  next
    case Replay
    show ?thesis
    proof (cases "\<exists>k. tb_phase w = Streaming k \<and> k < length h")
      case True
      then show ?thesis using replay_core [OF h c _ _ refl] Replay by blast
    qed (use stay Replay in \<open>auto split: sync_phase.splits\<close>)
  next
    case Crash
    then show ?thesis using crash_core [OF c] stay by (cases "tb_phase w = Not_running") auto
  qed
qed

section \<open>The apply worker\<close>

text \<open>A wait sees the steps of the sync worker.\<close>

lemma wait_core:
  assumes h: "history_ok h"
  shows "core u h d0 w r \<Longrightarrow> list_all undisturbed_worker es \<Longrightarrow>
    wait_for_sync_status_change (su_dboid u) (su_subid u) (su_nspname u) (su_relname u) SYNC_STATUS_SYNCDONE
      (worker_views u h es w) w = (res, w') \<Longrightarrow>
    \<exists>r'. core u h d0 w' r' \<and> worker_rel w r w' r' \<and>
      (\<forall>l. res = Some (True, l) \<longrightarrow> st_status r' = SYNC_STATUS_SYNCDONE \<and> st_statuslsn r' = l)"
proof (induction es arbitrary: w r)
  case Nil
  then show ?case by auto
next
  case (Cons e es)
  let ?v = "sync_worker_step u h e w"
  obtain r1 where r1: "core u h d0 ?v r1" "worker_rel w r ?v r1" using worker_step_core [OF h Cons.prems(1)] Cons.prems(2) by auto
  have row: "find (table_row (su_subid u) (su_nspname u) (su_relname u)) (sw_rows ?v) = Some r1"
    using r1(1) by (intro row_is_find) (simp add: core_def)
  consider "w' = ?v" "\<And>l. res = Some (True, l) \<Longrightarrow> st_status r1 = SYNC_STATUS_SYNCDONE \<and> st_statuslsn r1 = l"
    | "wait_for_sync_status_change (su_dboid u) (su_subid u) (su_nspname u) (su_relname u) SYNC_STATUS_SYNCDONE
        (worker_views u h es ?v) ?v = (res, w')"
    using Cons.prems(3) by (auto simp: row Let_def split: if_splits)
  then show ?case
  proof cases
    case 1
    then show ?thesis using r1 by blast
  next
    case 2
    then show ?thesis using Cons.IH [OF r1(1)] Cons.prems(2) worker_rel_trans [OF r1(2)] by auto
  qed
qed

text \<open>What the apply worker keeps in mind of the table.\<close>

definition entry_of :: "sync_setup \<Rightarrow> SpockSyncStatus \<Rightarrow> bool" where
  "entry_of u c \<longleftrightarrow> sy_nspname c = su_nspname u \<and> sy_relname c = su_relname u"

definition names_ok :: "sync_setup \<Rightarrow> bool" where
  "names_ok u \<longleftrightarrow> namestrcpy (su_nspname u) = su_nspname u \<and> namestrcpy (su_relname u) = su_relname u"

lemma entry_of_row:
  assumes "names_ok u" "row_is u rows r"
  shows "entry_of u (syncstatus_fromtuple r)"
  using assms by (simp add: entry_of_def names_ok_def row_is_def table_row_def syncstatus_fromtuple_def Let_def)

lemma status_of_row [simp]:
  "sy_status (syncstatus_fromtuple r) = st_status r" "sy_statuslsn (syncstatus_fromtuple r) = st_statuslsn r"
  by (simp_all add: syncstatus_fromtuple_def Let_def)

text \<open>The part of the state that a walk over the tables leaves alone.\<close>

definition same_apply :: "table_sync \<Rightarrow> table_sync \<Rightarrow> bool" where
  "same_apply w w' \<longleftrightarrow> tb_done w' = tb_done w \<and> tb_origin_lsn w' = tb_origin_lsn w"

lemma worker_rel_same: "worker_rel w r w' r' \<Longrightarrow> same_apply w w'"
  by (simp add: worker_rel_def same_apply_def)

lemma store_sync_row:
  assumes r: "row_is u (sw_rows w) r" and c: "entry_of u c"
  shows "\<exists>rows. store_sync (su_subid u) c w = (w\<lparr>sw_rows := rows\<rparr>, None) \<and>
    row_is u rows (r\<lparr>st_status := sy_status c, st_statuslsn := sy_statuslsn c\<rparr>)"
  using row_is_set [OF r, of "sy_status c" "sy_statuslsn c"] c by (auto simp: store_sync_def entry_of_def)

text \<open>The worker that is found and runs is the sync worker.\<close>

lemma found_worker:
  assumes ok: "workers_ok u (ctx_workers ctx) slot on"
    and i: "spock_sync_find (su_dboid u) (su_subid u) nsp rel ctx = Some i" and run: "spock_worker_running (Some i) ctx"
  shows "on \<and> i = slot"
proof -
  have "i < length (ctx_workers ctx)" "sync_slot u (ctx_workers ctx ! i)"
    using i by (auto simp: spock_sync_find_def first_slot_Some sync_slot_def)
  then show ?thesis using ok run by (auto simp: workers_ok_def only_worker_def spock_worker_running_def)
qed

lemma workers_ok_upd:
  assumes ok: "workers_ok u (ctx_workers ctx) slot on" and i: "i < length (ctx_workers ctx)"
    and f: "\<And>v. w_worker_type (f v) = w_worker_type v" "\<And>v. w_dboid (f v) = w_dboid v"
      "\<And>v. aw_subid (w_apply (f v)) = aw_subid (w_apply v)" "\<And>v. w_proc (f v) = w_proc v"
      "\<And>v. w_terminated_at (f v) = w_terminated_at v" "\<And>v. w_nspname (f v) = w_nspname v" "\<And>v. w_relname (f v) = w_relname v"
  shows "workers_ok u (ctx_workers (upd_slot i f ctx)) slot on"
proof -
  let ?ws = "ctx_workers ctx"
  have n: "(?ws[i := f (?ws ! i)]) ! j = (if j = i then f (?ws ! j) else ?ws ! j)" if "j < length ?ws" for j
    using that by (simp add: nth_list_update)
  have s: "sync_slot u (f v) = sync_slot u v" for v by (simp add: sync_slot_def f)
  have "only_worker u (?ws[i := f (?ws ! i)]) slot on = only_worker u ?ws slot on"
    unfolding only_worker_def length_list_update
  proof (intro iff_allI)
    fix j
    show "(j < length ?ws \<longrightarrow> sync_slot u (?ws[i := f (?ws ! i)] ! j) \<and> w_proc (?ws[i := f (?ws ! i)] ! j) \<noteq> None \<longrightarrow> on \<and> j = slot) =
        (j < length ?ws \<longrightarrow> sync_slot u (?ws ! j) \<and> w_proc (?ws ! j) \<noteq> None \<longrightarrow> on \<and> j = slot)"
      by (cases "j < length ?ws"; cases "j = i") (simp_all add: n s f)
  qed
  then show ?thesis using ok i by (cases on) (auto simp: workers_ok_def n s f)
qed

lemma handshake_core:
  assumes h: "history_ok h" and nm: "names_ok u" and c: "core u h d0 w r" and st: "st_status r = SYNC_STATUS_SYNCWAIT"
    and es: "list_all undisturbed_worker es"
    and eq: "sync_handshake (setup_env u) (worker_views u h es) (tb_origin_lsn w) (syncstatus_fromtuple r) w = (w', c', e)"
  shows "\<exists>r'. core u h d0 w' r' \<and> same_apply w w' \<and>
    (e = None \<longrightarrow> entry_of u c' \<and> sy_status c' = st_status r' \<and> sy_statuslsn c' = st_statuslsn r' \<and>
       st_status r' \<noteq> SYNC_STATUS_READY \<and> \<not> busy w' r')"
proof -
  let ?s = "syncstatus_fromtuple r"
  let ?env = "setup_env u"
  have row: "row_is u (sw_rows w) r" and ok: "workers_ok u (ctx_workers (sw_ctx w)) (tb_slot w) (tb_phase w \<noteq> Not_running)"
    using c by (simp_all add: core_def)
  have en: "entry_of u ?s" by (rule entry_of_row [OF nm row])
  have env: "se_dboid ?env = su_dboid u" "se_subid ?env = su_subid u" "sy_nspname ?s = su_nspname u" "sy_relname ?s = su_relname u"
    using en by (simp_all add: setup_env_def entry_of_def)
  let ?f = "spock_sync_find (su_dboid u) (su_subid u) (su_nspname u) (su_relname u) (sw_ctx w)"
  show ?thesis
  proof (cases "\<exists>i. ?f = Some i \<and> spock_worker_running ?f (sw_ctx w) \<and>
      tb_origin_lsn w \<ge> aw_replay_stop_lsn (w_apply (ctx_workers (sw_ctx w) ! i))")
    case False
    then have "w' = w \<and> c' = ?s \<and> e = None"
      using eq by (cases ?f) (auto simp: sync_handshake_def env Let_def split: if_splits)
    then show ?thesis using c st en by (intro exI [of _ r]) (simp add: same_apply_def busy_def)
  next
    case True
    then obtain i where i: "?f = Some i" "spock_worker_running (Some i) (sw_ctx w)"
      "tb_origin_lsn w \<ge> aw_replay_stop_lsn (w_apply (ctx_workers (sw_ctx w) ! i))" by auto
    have on: "tb_phase w \<noteq> Not_running" "i = tb_slot w" using found_worker [OF ok i(1,2)] by auto
    have len: "tb_slot w < length (ctx_workers (sw_ctx w))" using ok on by (simp add: workers_ok_def)
    define ctx1 where "ctx1 = upd_slot (tb_slot w) (\<lambda>v. v\<lparr>w_apply := (w_apply v)\<lparr>aw_replay_stop_lsn := tb_origin_lsn w\<rparr>\<rparr>) (sw_ctx w)"
    define r2 where "r2 = r\<lparr>st_status := SYNC_STATUS_CATCHUP\<rparr>"
    have ok1: "workers_ok u (ctx_workers ctx1) (tb_slot w) True"
      unfolding ctx1_def using on ok by (intro workers_ok_upd [OF _ len]) simp_all
    obtain rows where rows: "store_sync (su_subid u) (?s\<lparr>sy_status := SYNC_STATUS_CATCHUP\<rparr>) (w\<lparr>sw_ctx := ctx1\<rparr>) =
        (w\<lparr>sw_ctx := ctx1, sw_rows := rows\<rparr>, None)" "row_is u rows r2"
      using store_sync_row [of u "w\<lparr>sw_ctx := ctx1\<rparr>" r "?s\<lparr>sy_status := SYNC_STATUS_CATCHUP\<rparr>"] row en
      by (auto simp: entry_of_def r2_def)
    let ?w2 = "w\<lparr>sw_ctx := ctx1, sw_rows := rows\<rparr>"
    have stop: "aw_replay_stop_lsn (w_apply (own_worker ?w2)) = tb_origin_lsn w"
      using len by (simp add: own_worker_def ctx1_def)
    have c2: "core u h d0 ?w2 r2"
      using c rows(2) ok1 on st stop
      by (cases "tb_phase w") (simp_all add: core_def content_ok_def r2_def)
    obtain res w3 where wt: "wait_for_sync_status_change (su_dboid u) (su_subid u) (su_nspname u) (su_relname u)
        SYNC_STATUS_SYNCDONE (worker_views u h es ?w2) ?w2 = (res, w3)" by (rule prod.exhaust)
    obtain r3 where r3: "core u h d0 w3 r3" "worker_rel ?w2 r2 w3 r3"
      "\<And>l. res = Some (True, l) \<Longrightarrow> st_status r3 = SYNC_STATUS_SYNCDONE \<and> st_statuslsn r3 = l"
      using wait_core [OF h c2 es wt] by blast
    have same: "same_apply w w3" using worker_rel_same [OF r3(2)] by (simp add: same_apply_def)
    note eq' = eq [unfolded sync_handshake_waits [where env = ?env and sync = ?s and await = "worker_views u h es", unfolded env,
        OF i(1,2,3) rows(1) [unfolded ctx1_def on(2) [symmetric]]
        wt [unfolded ctx1_def on(2) [symmetric]]]]
    show ?thesis
    proof (cases "e = None")
      case True
      then obtain l where l: "res = Some (True, l)" "w' = w3" "c' = ?s\<lparr>sy_status := SYNC_STATUS_SYNCDONE, sy_statuslsn := l\<rparr>"
        using eq' by (cases res) (auto split: bool.splits)
      then show ?thesis
        using r3(1,3) en same by (intro exI [of _ r3]) (simp add: entry_of_def busy_def)
    next
      case False
      have "w' = w3" using eq' by simp
      then show ?thesis using r3(1) same False by blast
    qed
  qed
qed

lemma process_table_core:
  assumes h: "history_ok h" and nm: "names_ok u" and c: "core u h d0 w r" and st: "st_status r \<noteq> SYNC_STATUS_READY" "\<not> busy w r"
    and es: "list_all undisturbed_worker es" and en: "entry_of u s" and pos: "txns_upto h end_lsn \<le> tb_done w"
    and eq: "process_syncing_table (setup_env u) (worker_views u h es) (tb_origin_lsn w) end_lsn s w = (w', c', e)"
  shows "\<exists>r'. core u h d0 w' r' \<and> same_apply w w' \<and>
    (e = None \<longrightarrow> entry_of u c' \<and> sy_status c' = st_status r' \<and>
       (st_status r' = SYNC_STATUS_SYNCDONE \<longrightarrow> sy_statuslsn c' = st_statuslsn r') \<and> \<not> busy w' r')"
proof -
  let ?s1 = "refresh_sync (su_subid u) (sw_rows w) s"
  have row: "row_is u (sw_rows w) r" using c by (simp add: core_def)
  have env: "se_subid (setup_env u) = su_subid u" by (simp add: setup_env_def)
  have s1: "entry_of u ?s1" "sy_status ?s1 = st_status r"
      "st_status r \<noteq> SYNC_STATUS_FAILED \<Longrightarrow> ?s1 = syncstatus_fromtuple r"
    using en row_is_find [OF row] entry_of_row [OF nm row]
    by (auto simp: refresh_sync_def entry_of_def)
  obtain w2 c2 e2 where two: "(if sy_status ?s1 = SYNC_STATUS_SYNCWAIT
      then sync_handshake (setup_env u) (worker_views u h es) (tb_origin_lsn w) ?s1 w else (w, ?s1, None)) = (w2, c2, e2)"
    by (metis prod_cases3)
  have "\<exists>r2. core u h d0 w2 r2 \<and> same_apply w w2 \<and>
      (e2 = None \<longrightarrow> entry_of u c2 \<and> sy_status c2 = st_status r2 \<and>
        (st_status r2 = SYNC_STATUS_SYNCDONE \<longrightarrow> sy_statuslsn c2 = st_statuslsn r2) \<and>
        st_status r2 \<noteq> SYNC_STATUS_READY \<and> \<not> busy w2 r2)"
  proof (cases "st_status r = SYNC_STATUS_SYNCWAIT")
    case True
    then have "?s1 = syncstatus_fromtuple r" by (intro s1(3)) simp
    then show ?thesis using handshake_core [OF h nm c True es] two True s1(2) by auto
  next
    case False
    then have "w2 = w" "c2 = ?s1" using two s1(2) by auto
    moreover have "st_status r = SYNC_STATUS_SYNCDONE \<longrightarrow> sy_statuslsn ?s1 = st_statuslsn r" using s1(3) by auto
    ultimately show ?thesis using c s1(1,2) st by (intro exI [of _ r]) (simp add: same_apply_def)
  qed
  then obtain r2 where r2: "core u h d0 w2 r2" "same_apply w w2"
    "e2 = None \<Longrightarrow> entry_of u c2 \<and> sy_status c2 = st_status r2 \<and>
        (st_status r2 = SYNC_STATUS_SYNCDONE \<longrightarrow> sy_statuslsn c2 = st_statuslsn r2) \<and>
        st_status r2 \<noteq> SYNC_STATUS_READY \<and> \<not> busy w2 r2" by blast
  have eq2: "(w', c', e) = (case e2 of Some e \<Rightarrow> (w2, c2, Some e) | None \<Rightarrow> finish_sync (su_subid u) end_lsn c2 w2)"
    using eq unfolding process_syncing_table_def env Let_def two by (auto split: option.splits)
  show ?thesis
  proof (cases "e2 = None \<and> sy_status c2 = SYNC_STATUS_SYNCDONE \<and> end_lsn \<ge> sy_statuslsn c2")
    case False
    then have "w' = w2 \<and> (e = None \<longrightarrow> e2 = None \<and> c' = c2)"
      using eq2 by (cases e2) (auto simp: finish_sync_def)
    then show ?thesis using r2 by (intro exI [of _ r2]) auto
  next
    case True
    let ?c = "c2\<lparr>sy_status := SYNC_STATUS_READY, sy_statuslsn := end_lsn\<rparr>"
    let ?r = "r2\<lparr>st_status := SYNC_STATUS_READY, st_statuslsn := end_lsn\<rparr>"
    have n: "entry_of u ?c" "st_status r2 = SYNC_STATUS_SYNCDONE" "st_statuslsn r2 \<le> end_lsn"
      using r2(3) True by (auto simp: entry_of_def)
    obtain rows where rows: "store_sync (su_subid u) ?c w2 = (w2\<lparr>sw_rows := rows\<rparr>, None)" "row_is u rows ?r"
      using store_sync_row [OF _ n(1), of w2 r2] r2(1) by (auto simp: core_def)
    have fin: "w' = w2\<lparr>sw_rows := rows\<rparr>" "c' = ?c" "e = None"
      using eq2 True rows(1) by (auto simp: finish_sync_def)
    have "txns_upto h (st_statuslsn r2) \<le> tb_done w2"
      using txns_upto_mono [OF h n(3)] pos r2(2) by (simp add: same_apply_def)
    then have "core u h d0 w' ?r"
      using r2(1) n(2) rows(2) by (auto simp: core_def fin content_ok_def max_def own_worker_def)
    then show ?thesis
      using n(1) r2(2) by (intro exI [of _ ?r]) (simp add: fin same_apply_def busy_def)
  qed
qed

text \<open>Starting a sync worker.\<close>

lemma reserve_and_attach:
  assumes ok: "workers_ok u (ctx_workers ctx) slot False" and nm: "nsp = su_nspname u" "rel = su_relname u"
    and eq: "start_sync_worker (setup_env u) lsn nsp rel ctx = (res, ctx')"
  shows "register_error res \<noteq> None \<and> ctx' = ctx \<or>
    register_error res = None \<and> (\<exists>i. workers_ok u (ctx_workers ctx') i True)"
proof (cases "find_empty_worker_slot (su_dboid u) ctx")
  case None
  have "w_dboid (ctx_workers ctx ! su_slot u) = su_dboid u" using ok by (simp add: workers_ok_def)
  then show ?thesis
    using eq None by (auto simp: start_sync_worker_def spock_worker_register_def reserve_slot_def new_sync_worker_def
        setup_env_def register_error_def)
next
  case (Some i)
  let ?ws = "ctx_workers ctx"
  have db: "w_dboid (?ws ! su_slot u) = su_dboid u" using ok by (simp add: workers_ok_def)
  have i: "i < length ?ws" "slot_empty_for (su_dboid u) (?ws ! i)"
    using Some by (auto simp: find_empty_worker_slot_def first_slot_Some)
  have ne: "i \<noteq> su_slot u" using i(2) ok by (auto simp: workers_ok_def slot_empty_for_def)
  define v where "v = (new_sync_worker (setup_env u) lsn nsp rel ctx)\<lparr>w_generation := next_generation (w_generation (?ws ! i)),
      w_terminated_at := 0, w_restart_delay := 5000, w_proc := Some (su_pid u),
      w_apply := (w_apply (new_sync_worker (setup_env u) lsn nsp rel ctx))\<lparr>aw_apply_group := None\<rparr>\<rparr>"
  have res: "register_error res = None" and ws: "ctx_workers ctx' = ?ws[i := v]"
    using eq i(1) Some db
    by (auto simp: start_sync_worker_def spock_worker_register_def reserve_slot_def new_sync_worker_def setup_env_def
        attach_polls_def spock_worker_attach_def spock_worker_running_def register_error_def v_def upd_slot_def)
  have v: "sync_slot u v" "w_nspname v = su_nspname u" "w_relname v = su_relname u" "w_proc v \<noteq> None"
    using nm db by (simp_all add: v_def new_sync_worker_def sync_slot_def setup_env_def)
  have "only_worker u (?ws[i := v]) i True"
    unfolding only_worker_def
  proof (intro allI impI)
    fix j
    assume j: "j < length (?ws[i := v])" "sync_slot u (?ws[i := v] ! j) \<and> w_proc (?ws[i := v] ! j) \<noteq> None"
    have "only_worker u ?ws slot False" using ok by (simp add: workers_ok_def)
    then show "True \<and> j = i" using j unfolding only_worker_def by (cases "j = i") auto
  qed
  then have "workers_ok u (ctx_workers ctx') i True"
    using ok i(1) ne v by (simp add: workers_ok_def ws)
  then show ?thesis using res by blast
qed

lemma filter_upt_single:
  assumes "i < n" "P i" "\<And>j. j < n \<Longrightarrow> P j \<Longrightarrow> j = i"
  shows "filter P [0..<n] = [i]"
proof -
  have "[0..<n] = [0..<i] @ i # [Suc i..<n]" using assms(1) upt_add_eq_append [of 0 i "n - i"] upt_conv_Cons [OF assms(1)] by simp
  moreover have "filter P [0..<i] = []" "filter P [Suc i..<n] = []"
    using assms(1,3) unfolding filter_empty_conv by (metis atLeastLessThan_iff less_irrefl less_trans set_upt)
      (metis Suc_n_not_le_n assms(3) atLeastLessThan_iff set_upt)
  ultimately show ?thesis using assms(2) by simp
qed

lemma running_sync_workers:
  assumes ok: "workers_ok u (ctx_workers ctx) slot on"
  shows "filter (\<lambda>i. spock_worker_running (Some i) ctx) (spock_sync_find_all (su_dboid u) (su_subid u) ctx) = (if on then [slot] else [])"
proof -
  let ?P = "\<lambda>i. sync_slot u (ctx_workers ctx ! i) \<and> w_proc (ctx_workers ctx ! i) \<noteq> None"
  have eq: "filter (\<lambda>i. spock_worker_running (Some i) ctx) (spock_sync_find_all (su_dboid u) (su_subid u) ctx) =
      filter ?P [0..<length (ctx_workers ctx)]"
    unfolding spock_sync_find_all_def all_slots_def filter_filter
    by (rule filter_cong) (auto simp: spock_worker_running_def sync_slot_def)
  have only: "\<And>j. j < length (ctx_workers ctx) \<Longrightarrow> ?P j \<Longrightarrow> on \<and> j = slot"
  proof -
    fix j
    assume j: "j < length (ctx_workers ctx)" "?P j"
    have "only_worker u (ctx_workers ctx) slot on" using ok by (simp add: workers_ok_def)
    from this [unfolded only_worker_def, rule_format, OF j] show "on \<and> j = slot" .
  qed
  show ?thesis
  proof (cases on)
    case True
    then have "filter ?P [0..<length (ctx_workers ctx)] = [slot]"
      using workers_okD(1,2,7) [of u "ctx_workers ctx" slot] ok True only by (intro filter_upt_single) metis+
    then show ?thesis using True eq by simp
  next
    case False
    then have "filter ?P [0..<length (ctx_workers ctx)] = []" using only unfolding filter_empty_conv by fastforce
    then show ?thesis using False eq by simp
  qed
qed

text \<open>A change of the registry that keeps the sync worker.\<close>

lemma core_ctx:
  assumes c: "core u h d0 w r" and ok: "workers_ok u (ctx_workers ctx) (tb_slot w) (tb_phase w \<noteq> Not_running)"
    and stop: "tb_phase w \<noteq> Not_running \<Longrightarrow> w_apply (ctx_workers ctx ! tb_slot w) = w_apply (own_worker w)"
  shows "core u h d0 (w\<lparr>sw_ctx := ctx\<rparr>) r"
  using c ok stop by (cases "tb_phase w = Not_running") (simp_all add: core_def own_worker_def)

lemma core_private: "core u h d0 (w\<lparr>tb_cache := x, tb_stopped := y\<rparr>) r = core u h d0 w r"
  by (simp add: core_def own_worker_def)

lemma launch_core:
  assumes c: "core u h d0 w r" and nb: "\<not> busy w r"
    and tables: "tables = [] \<or> (\<exists>e. tables = [e] \<and> entry_of u e \<and> sy_status e = st_status r)"
    and eq: "launch_sync_worker (setup_env u) lsn tables (sw_ctx w) = (ctx', err)"
    and w': "w' = note_worker u (w\<lparr>sw_ctx := ctx', tb_cache := x, tb_stopped := y\<rparr>)"
  shows "core u h d0 w' r \<and> \<not> busy w' r \<and> same_apply w w' \<and> tb_cache w' = x \<and> tb_stopped w' = y"
proof -
  let ?on = "tb_phase w \<noteq> Not_running"
  let ?run = "\<lambda>ctx. filter (\<lambda>i. spock_worker_running (Some i) ctx) (spock_sync_find_all (su_dboid u) (su_subid u) ctx)"
  have ok: "workers_ok u (ctx_workers (sw_ctx w)) (tb_slot w) ?on" using c by (simp add: core_def)
  have env: "se_dboid (setup_env u) = su_dboid u" "se_subid (setup_env u) = su_subid u" by (simp_all add: setup_env_def)
  have "ctx' = sw_ctx w \<or> \<not> ?on \<and> st_status r \<notin> {SYNC_STATUS_SYNCDONE, SYNC_STATUS_READY} \<and>
      (\<exists>res. start_sync_worker (setup_env u) lsn (su_nspname u) (su_relname u) (sw_ctx w) = (res, ctx'))"
    using tables eq running_sync_workers [OF ok] by (auto simp: env entry_of_def split: if_splits prod.splits)
  then consider "ctx' = sw_ctx w"
    | i where "\<not> ?on" "st_status r \<notin> {SYNC_STATUS_SYNCDONE, SYNC_STATUS_READY}" "workers_ok u (ctx_workers ctx') i True"
  proof (elim disjE conjE exE)
    fix res
    assume off: "\<not> ?on" and st: "st_status r \<notin> {SYNC_STATUS_SYNCDONE, SYNC_STATUS_READY}"
      and start: "start_sync_worker (setup_env u) lsn (su_nspname u) (su_relname u) (sw_ctx w) = (res, ctx')"
    have "workers_ok u (ctx_workers (sw_ctx w)) (tb_slot w) False" using ok off by simp
    from reserve_and_attach [OF this refl refl start] show thesis using that off st by blast
  qed (use that in blast)
  then show ?thesis
  proof cases
    case 1
    then have "w' = w\<lparr>tb_cache := x, tb_stopped := y\<rparr>"
      using running_sync_workers [OF ok] by (simp add: w' note_worker_def)
    then show ?thesis using c nb by (simp add: core_private busy_def same_apply_def)
  next
    case (2 i)
    then have w'': "w' = w\<lparr>sw_ctx := ctx', tb_cache := x, tb_stopped := y, tb_slot := i, tb_phase := Running\<rparr>"
      using running_sync_workers [OF 2(3)] by (simp add: w' note_worker_def)
    show ?thesis using c 2 by (simp add: w'' core_def content_ok_def busy_def same_apply_def)
  qed
qed

section \<open>Every change exactly once\<close>

text \<open>What the apply worker knows while it is at work.\<close>

definition knows :: "sync_setup \<Rightarrow> table_sync \<Rightarrow> sync_tuple \<Rightarrow> bool" where
  "knows u w r \<longleftrightarrow> \<not> busy w r \<and>
     (tb_cache w = [] \<and> st_status r = SYNC_STATUS_READY \<or>
      (\<exists>c. tb_cache w = [c] \<and> entry_of u c \<and> st_status r \<noteq> SYNC_STATUS_READY \<and> sy_status c \<noteq> SYNC_STATUS_READY \<and>
         (sy_status c = SYNC_STATUS_SYNCDONE \<longleftrightarrow> st_status r = SYNC_STATUS_SYNCDONE) \<and>
         (st_status r = SYNC_STATUS_SYNCDONE \<longrightarrow> sy_statuslsn c = st_statuslsn r)))"

lemma knows_worker:
  assumes "knows u w r" "worker_rel w r w' r'"
  shows "knows u w' r'"
  using assms by (auto simp: knows_def worker_rel_def)

lemma pending_tables_core:
  assumes h: "history_ok h" and nm: "names_ok u" and c: "core u h d0 w r" and nb: "\<not> busy w r"
    and tables: "tables = [] \<and> st_status r = SYNC_STATUS_READY \<or> (\<exists>s. tables = [s] \<and> entry_of u s \<and> st_status r \<noteq> SYNC_STATUS_READY)"
    and es: "list_all undisturbed_worker es" and pos: "txns_upto h end_lsn \<le> tb_done w"
    and eq: "process_pending_tables (setup_env u) (worker_views u h es) (tb_origin_lsn w) end_lsn tables w = (w', tables', e)"
  shows "\<exists>r'. core u h d0 w' r' \<and> same_apply w w' \<and>
    (e = None \<longrightarrow> \<not> busy w' r' \<and>
      (tables' = [] \<and> st_status r' = SYNC_STATUS_READY \<or>
       (\<exists>s. tables' = [s] \<and> entry_of u s \<and> sy_status s = st_status r' \<and> st_status r' \<noteq> SYNC_STATUS_READY \<and>
         (st_status r' = SYNC_STATUS_SYNCDONE \<longrightarrow> sy_statuslsn s = st_statuslsn r'))))"
proof (cases "tables = []")
  case True
  then show ?thesis using eq c nb tables by (intro exI [of _ r]) (auto simp: same_apply_def)
next
  case False
  then obtain s where s: "tables = [s]" "entry_of u s" "st_status r \<noteq> SYNC_STATUS_READY" using tables by blast
  obtain w1 s1 e1 where one: "process_syncing_table (setup_env u) (worker_views u h es) (tb_origin_lsn w) end_lsn s w = (w1, s1, e1)"
    by (metis prod_cases3)
  obtain r1 where r1: "core u h d0 w1 r1" "same_apply w w1"
    "e1 = None \<Longrightarrow> entry_of u s1 \<and> sy_status s1 = st_status r1 \<and>
      (st_status r1 = SYNC_STATUS_SYNCDONE \<longrightarrow> sy_statuslsn s1 = st_statuslsn r1) \<and> \<not> busy w1 r1"
    using process_table_core [OF h nm c s(3) nb es s(2) pos one] by blast
  have "w' = w1 \<and> e = e1 \<and> (e1 = None \<longrightarrow> tables' = (if sy_status s1 = SYNC_STATUS_READY then [] else [s1]))"
    using eq one s(1) by (cases e1) (auto simp: one)
  then show ?thesis using r1 by (intro exI [of _ r1]) auto
qed

lemma unsynced_row:
  assumes "row_is u rows r"
  shows "get_unsynced_tables (su_subid u) rows = (if st_status r = SYNC_STATUS_READY then [] else [syncstatus_fromtuple r])"
  using assms by (simp add: row_is_def get_unsynced_tables_def)

lemma pending_flag_core:
  assumes c: "core u h d0 w r"
  shows "core u h d0 (w\<lparr>sw_ctx := upd_slot (su_slot u) (\<lambda>v. v\<lparr>w_apply := (w_apply v)\<lparr>aw_sync_pending := b\<rparr>\<rparr>) (sw_ctx w)\<rparr>) r"
proof -
  let ?f = "\<lambda>v. v\<lparr>w_apply := (w_apply v)\<lparr>aw_sync_pending := b\<rparr>\<rparr>"
  have ok: "workers_ok u (ctx_workers (sw_ctx w)) (tb_slot w) (tb_phase w \<noteq> Not_running)" using c by (simp add: core_def)
  have "su_slot u < length (ctx_workers (sw_ctx w))" using ok by (simp add: workers_ok_def)
  then have "workers_ok u (ctx_workers (upd_slot (su_slot u) ?f (sw_ctx w))) (tb_slot w) (tb_phase w \<noteq> Not_running)"
    by (intro workers_ok_upd [OF ok]) simp_all
  moreover have "tb_slot w \<noteq> su_slot u" if "tb_phase w \<noteq> Not_running" using workers_okD(3) ok that by simp
  ultimately show ?thesis by (intro core_ctx [OF c]) (auto simp: own_worker_def)
qed

lemma sync_pass_core:
  assumes h: "history_ok h" and nm: "names_ok u" and c: "core u h d0 w r" and k: "knows u w r"
    and es: "list_all undisturbed_worker es" and pos: "txns_upto h end_lsn \<le> tb_done w"
  shows "\<exists>r'. core u h d0 (sync_pass u h es end_lsn w) r' \<and>
    (\<not> tb_stopped (sync_pass u h es end_lsn w) \<longrightarrow> knows u (sync_pass u h es end_lsn w) r')"
proof -
  define pending where "pending = aw_sync_pending (w_apply (ctx_workers (sw_ctx w) ! su_slot u))"
  define w0 where "w0 = (if pending
      then w\<lparr>sw_ctx := upd_slot (su_slot u) (\<lambda>v. v\<lparr>w_apply := (w_apply v)\<lparr>aw_sync_pending := False\<rparr>\<rparr>) (sw_ctx w)\<rparr> else w)"
  define tables where "tables = (if pending then get_unsynced_tables (su_subid u) (sw_rows w) else tb_cache w)"
  have env: "se_slot (setup_env u) = su_slot u" "se_subid (setup_env u) = su_subid u" by (simp_all add: setup_env_def)
  have row: "row_is u (sw_rows w) r" using c by (simp add: core_def)
  have c0: "core u h d0 w0 r" using pending_flag_core [OF c, of False] c by (simp add: w0_def)
  have nb0: "\<not> busy w0 r" and same0: "tb_origin_lsn w0 = tb_origin_lsn w" "tb_done w0 = tb_done w"
    using k by (auto simp: knows_def w0_def busy_def)
  have tb: "tables = [] \<and> st_status r = SYNC_STATUS_READY \<or> (\<exists>s. tables = [s] \<and> entry_of u s \<and> st_status r \<noteq> SYNC_STATUS_READY)"
    using k unsynced_row [OF row] entry_of_row [OF nm row] by (auto simp: tables_def knows_def)
  obtain w1 tables1 e1 where one: "process_pending_tables (setup_env u) (worker_views u h es) (tb_origin_lsn w) end_lsn tables w0 = (w1, tables1, e1)"
    by (metis prod_cases3)
  obtain r1 where r1: "core u h d0 w1 r1" "same_apply w0 w1" "e1 = None \<Longrightarrow> \<not> busy w1 r1 \<and>
      (tables1 = [] \<and> st_status r1 = SYNC_STATUS_READY \<or>
       (\<exists>s. tables1 = [s] \<and> entry_of u s \<and> sy_status s = st_status r1 \<and> st_status r1 \<noteq> SYNC_STATUS_READY \<and>
         (st_status r1 = SYNC_STATUS_SYNCDONE \<longrightarrow> sy_statuslsn s = st_statuslsn r1)))"
    using pending_tables_core [OF h nm c0 nb0 tb es, of end_lsn w1 tables1 e1] one pos same0 by auto
  have pst: "process_syncing_tables (setup_env u) (worker_views u h es) (tb_origin_lsn w) end_lsn (tb_cache w) w =
      (case e1 of Some e \<Rightarrow> (w1, tables1, Some e)
       | None \<Rightarrow> (case launch_sync_worker (setup_env u) (tb_origin_lsn w) tables1 (sw_ctx w1) of
           (ctx2, e) \<Rightarrow> (w1\<lparr>sw_ctx := ctx2\<rparr>, tables1, e)))"
    unfolding process_syncing_tables_def env Let_def pending_def [symmetric] w0_def [symmetric] tables_def [symmetric] one
    by (simp split: option.split)
  show ?thesis
  proof (cases e1)
    case (Some e)
    have "sync_pass u h es end_lsn w = w1\<lparr>tb_cache := tables1, tb_stopped := True\<rparr>"
      using running_sync_workers [of u "sw_ctx w1" "tb_slot w1" "tb_phase w1 \<noteq> Not_running"] r1(1)
      by (simp add: sync_pass_def pst Some note_worker_def core_def)
    then show ?thesis using r1(1) by (auto simp: core_private)
  next
    case None
    obtain ctx2 e2 where l: "launch_sync_worker (setup_env u) (tb_origin_lsn w) tables1 (sw_ctx w1) = (ctx2, e2)"
      by (rule prod.exhaust)
    have sp: "sync_pass u h es end_lsn w = note_worker u (w1\<lparr>sw_ctx := ctx2, tb_cache := tables1, tb_stopped := (e2 \<noteq> None)\<rparr>)"
      by (simp add: sync_pass_def pst None l)
    have "tables1 = [] \<or> (\<exists>e. tables1 = [e] \<and> entry_of u e \<and> sy_status e = st_status r1)" using r1(3) [OF None] by blast
    then have "core u h d0 (sync_pass u h es end_lsn w) r1" "\<not> busy (sync_pass u h es end_lsn w) r1"
      "tb_cache (sync_pass u h es end_lsn w) = tables1"
      using launch_core [OF r1(1) _ _ l sp] r1(3) [OF None] by auto
    moreover have "knows u (sync_pass u h es end_lsn w) r1"
      using calculation r1(3) [OF None] by (auto simp: knows_def)
    ultimately show ?thesis by blast
  qed
qed

lemma apply_next_core:
  assumes h: "history_ok h" and c: "core u h d0 w r" and k: "knows u w r" and d: "tb_done w < length h"
  shows "core u h d0 (apply_next u h w) r" "knows u (apply_next u h w) r"
proof -
  let ?d = "tb_done w" let ?t = "h ! tb_done w"
  let ?o = "if tx_local ?t then tx_end_lsn ?t else tx_commit_lsn ?t"
  have ct: "tx_commit_lsn ?t < tx_end_lsn ?t" using h d by (simp add: history_ok_def)
  have cov: "covered (h ! i) ?o" if i: "i < Suc ?d" for i
  proof (cases "i = ?d")
    case True
    then show ?thesis using ct by (auto simp: covered_def)
  next
    case False
    then have "tx_end_lsn (h ! i) \<le> tx_commit_lsn ?t" using history_order [OF h _ d] i by simp
    moreover have "tx_commit_lsn ?t \<le> ?o" using ct by auto
    ultimately show ?thesis unfolding covered_def by (meson order_trans)
  qed
  let ?ap = "should_apply_changes_for_rel (tb_cache w) (tx_commit_lsn ?t) (su_nspname u) (su_relname u)"
  let ?tab = "tb_table w @ (if tx_changes ?t \<and> ?ap then [?d] else [])"
  have content: "content_ok h (Suc ?d) ?tab r (tb_phase w)"
  proof -
    have ready: "?tab = changes h (Suc ?d)" if "st_status r = SYNC_STATUS_READY"
      using k c that by (auto simp: knows_def core_def content_ok_def changes_Suc should_apply_changes_for_rel_def)
    have sdone: "?tab = changes h (max (Suc ?d) (txns_upto h (st_statuslsn r)))" if st: "st_status r = SYNC_STATUS_SYNCDONE"
    proof -
      let ?l = "st_statuslsn r"
      have b: "boundary h ?l" "tb_table w = changes h (max ?d (txns_upto h ?l))" using c st by (simp_all add: core_def content_ok_def)
      have ap: "?ap \<longleftrightarrow> ?l \<le> tx_commit_lsn ?t"
        using k st by (auto simp: knows_def should_apply_changes_for_rel_def entry_of_def)
      show ?thesis
      proof (cases "?d < txns_upto h ?l")
        case True
        then have "tx_end_lsn ?t \<le> ?l" using less_txns_upto [OF h] by blast
        then have "\<not> ?ap" unfolding ap using ct by (meson leD le_less_trans order_less_le_trans)
        then show ?thesis using b(2) True by (simp add: max_def)
      next
        case False
        then have "\<not> tx_end_lsn ?t \<le> ?l" using less_txns_upto [OF h] d by blast
        then have "?ap" unfolding ap using b(1) d by (auto simp: boundary_def not_le not_less dest!: bspec [OF _ nth_mem])
        then show ?thesis using b(2) False by (simp add: max_def changes_Suc)
      qed
    qed
    show ?thesis using ready sdone c by (simp add: content_ok_def core_def)
  qed
  have ph: "phase_ok h d0 (Suc ?d) ?tab (aw_replay_stop_lsn (w_apply (own_worker w))) r (tb_phase w)"
  proof -
    have "?tab = tb_table w" if "tb_phase w \<noteq> Not_running"
    proof -
      have "st_status r \<noteq> SYNC_STATUS_READY" "st_status r \<noteq> SYNC_STATUS_SYNCDONE" using core_on [OF c that] by auto
      then have "\<not> ?ap" using k by (auto simp: knows_def should_apply_changes_for_rel_def entry_of_def)
      then show ?thesis by simp
    qed
    then show ?thesis using c k by (cases "tb_phase w") (auto simp: core_def knows_def busy_def)
  qed
  show "core u h d0 (apply_next u h w) r"
    using c content ph cov d by (simp add: apply_next_def Let_def core_def own_worker_def caught_def)
  show "knows u (apply_next u h w) r"
    using k by (simp add: knows_def apply_next_def Let_def busy_def)
qed

definition sync_inv :: "sync_setup \<Rightarrow> sync_txn list \<Rightarrow> nat \<Rightarrow> table_sync \<Rightarrow> bool" where
  "sync_inv u h d0 w \<longleftrightarrow> (\<exists>r. core u h d0 w r \<and> (\<not> tb_stopped w \<longrightarrow> knows u w r))"

lemma sync_inv_step:
  assumes h: "history_ok h" and nm: "names_ok u" and i: "sync_inv u h d0 w" and e: "undisturbed e"
  shows "sync_inv u h d0 (table_sync_step u h e w)"
proof -
  obtain r where c: "core u h d0 w r" and k: "\<not> tb_stopped w \<Longrightarrow> knows u w r" using i by (auto simp: sync_inv_def)
  show ?thesis
  proof (cases e)
    case (Apply_txn es)
    show ?thesis
    proof (cases "tb_stopped w \<or> length h \<le> tb_done w")
      case False
      then have d: "tb_done w < length h" and kn: "knows u w r" using k by auto
      have "tb_done (apply_next u h w) = Suc (tb_done w)" by (simp add: apply_next_def Let_def)
      then show ?thesis
        using sync_pass_core [OF h nm apply_next_core [OF h c kn d], of es "tx_end_lsn (h ! tb_done w)"]
          e False txns_upto_end [OF h d] by (auto simp: Apply_txn sync_inv_def)
    qed (use i Apply_txn in simp)
  next
    case (Idle pos es)
    show ?thesis
    proof (cases "tb_stopped w \<or> \<not> txns_upto h pos \<le> tb_done w")
      case False
      then show ?thesis using sync_pass_core [OF h nm c k, of es pos] e by (auto simp: Idle sync_inv_def)
    qed (use i Idle in simp)
  next
    case (Worker x)
    then obtain r' where r': "core u h d0 (sync_worker_step u h x w) r'" "worker_rel w r (sync_worker_step u h x w) r'"
      using worker_step_core [OF h c] e by auto
    then have "\<not> tb_stopped (sync_worker_step u h x w) \<longrightarrow> knows u (sync_worker_step u h x w) r'"
      using knows_worker [OF k r'(2)] by (simp add: worker_rel_def)
    then show ?thesis using r'(1) by (auto simp: Worker sync_inv_def)
  next
    case Signal
    have "core u h d0 (set_pending u w) r" using pending_flag_core [OF c] by (simp add: set_pending_def)
    moreover have "\<not> tb_stopped (set_pending u w) \<longrightarrow> knows u (set_pending u w) r"
      using k by (simp add: set_pending_def knows_def busy_def)
    ultimately show ?thesis by (auto simp: Signal sync_inv_def)
  next
    case Restart
    then show ?thesis using e by simp
  qed
qed

lemma sync_inv_run:
  "history_ok h \<Longrightarrow> names_ok u \<Longrightarrow> sync_inv u h d0 w \<Longrightarrow> list_all undisturbed es \<Longrightarrow> sync_inv u h d0 (table_sync_run u h es w)"
  by (induction es arbitrary: w) (simp_all add: table_sync_run_def sync_inv_step)

lemma sync_inv_start:
  assumes nm: "names_ok u" and s: "su_slot u < 3"
  shows "sync_inv u h 0 (sync_start u)"
proof -
  define row where "row = \<lparr>st_kind = SYNC_KIND_DATA, st_subid = su_subid u, st_nspname = Some (su_nspname u),
    st_relname = Some (su_relname u), st_status = SYNC_STATUS_INIT, st_statuslsn = 0\<rparr>"
  have w: "only_worker u (ctx_workers (sw_ctx (sync_start u))) 0 False"
    using s by (auto simp: only_worker_def sync_start_def Let_def nth_list_update sync_slot_def zero_worker_def)
  have "core u h 0 (sync_start u) row"
    using s w by (simp add: core_def sync_start_def Let_def row_def row_is_def subscription_row_def table_row_def workers_ok_def
        content_ok_def caught_def zero_worker_def)
  moreover have "row_is u (sw_rows (sync_start u)) row" using calculation by (simp add: core_def)
  moreover have "tb_cache (sync_start u) = [syncstatus_fromtuple row]" "tb_phase (sync_start u) = Not_running"
    by (simp_all add: sync_start_def Let_def row_def)
  ultimately have "knows u (sync_start u) row"
    using entry_of_row [OF nm] by (auto simp: knows_def busy_def row_def)
  then show ?thesis using \<open>core u h 0 (sync_start u) row\<close> by (auto simp: sync_inv_def)
qed

text \<open>
  C4: A table is synchronised exactly.  Whatever the order in which the apply worker and the sync worker
  take their steps, with crashes of the sync worker and the provider committing on, a table whose
  status is ready has the changes of exactly the transactions that the apply worker has read, each
  once and in order; a table whose synchronisation is done has in addition those up to the position of
  its status row, which the apply worker will skip.  The apply worker is assumed not to restart and the
  sync worker not to receive SIGTERM while it waits.
\<close>

theorem table_sync_exact:
  assumes "history_ok h" "names_ok u" "su_slot u < 3" "list_all undisturbed es"
    and "table_row_of u (table_sync_run u h es (sync_start u)) = Some r"
  shows "(st_status r = SYNC_STATUS_READY \<longrightarrow>
      tb_table (table_sync_run u h es (sync_start u)) = changes h (tb_done (table_sync_run u h es (sync_start u)))) \<and>
    (st_status r = SYNC_STATUS_SYNCDONE \<longrightarrow> tb_table (table_sync_run u h es (sync_start u)) =
      changes h (max (tb_done (table_sync_run u h es (sync_start u))) (txns_upto h (st_statuslsn r))))"
proof -
  obtain r' where c: "core u h 0 (table_sync_run u h es (sync_start u)) r'"
    using sync_inv_run [OF assms(1,2) sync_inv_start [OF assms(2,3)] assms(4)] by (auto simp: sync_inv_def)
  have "r' = r" using row_is_find c assms(5) by (fastforce simp: core_def table_row_of_def)
  then show ?thesis using c by (auto simp: core_def content_ok_def)
qed

definition demo_setup :: sync_setup where
  "demo_setup = \<lparr>su_dboid = 5, su_subid = 7, su_nspname = cs ''s'', su_relname = cs ''t'', su_slot = 0, su_pid = 9\<rparr>"

definition demo_history :: "sync_txn list" where
  "demo_history = map (\<lambda>n. \<lparr>tx_commit_lsn = 20 * n + 10, tx_end_lsn = 20 * n + 20, tx_local = True, tx_changes = True\<rparr>) [0, 1, 2, 3]"

text \<open>The table is copied after the first transaction and caught up to the third.\<close>

definition demo_copy :: "sync_event list" where
  "demo_copy = [Apply_txn [], Worker Begin, Worker (Create_slot 20), Worker Copy_data, Apply_txn [], Worker Announce]"

definition demo_events :: "sync_event list" where
  "demo_events = demo_copy @ [Apply_txn [Look False, Replay, Replay], Apply_txn []]"

lemma demo_ok:
  "history_ok demo_history" "names_ok demo_setup" "su_slot demo_setup < 3" "list_all undisturbed demo_events"
  by code_simp+

lemma demo_run:
  "map_option st_status (table_row_of demo_setup (table_sync_run demo_setup demo_history demo_events (sync_start demo_setup))) =
     Some SYNC_STATUS_READY"
  "tb_done (table_sync_run demo_setup demo_history demo_events (sync_start demo_setup)) = 4"
  by code_simp+

theorem table_sync_exact_witness:
  "history_ok demo_history \<and> names_ok demo_setup \<and> list_all undisturbed demo_events \<and>
   (\<exists>r. table_row_of demo_setup (table_sync_run demo_setup demo_history demo_events (sync_start demo_setup)) = Some r \<and>
     st_status r = SYNC_STATUS_READY \<and>
     tb_table (table_sync_run demo_setup demo_history demo_events (sync_start demo_setup)) = changes demo_history 4)"
proof -
  obtain r where "table_row_of demo_setup (table_sync_run demo_setup demo_history demo_events (sync_start demo_setup)) = Some r"
      "st_status r = SYNC_STATUS_READY" using demo_run(1) by auto
  then show ?thesis using table_sync_exact [OF demo_ok, of r] demo_ok demo_run(2) by auto
qed


text \<open>
  A sync worker that crashes while the apply worker waits for it keeps its slot, so that the apply
  worker goes on waiting.
\<close>

lemma wait_after_crash:
  assumes "find (table_row subid nspname relname) (sw_rows w) = Some r" "st_status r \<noteq> desired_state"
    and "i < length (ctx_workers (sw_ctx w))" "w_worker_type (ctx_workers (sw_ctx w) ! i) = SPOCK_WORKER_SYNC"
      "w_dboid (ctx_workers (sw_ctx w) ! i) = dboid" "aw_subid (w_apply (ctx_workers (sw_ctx w) ! i)) = subid"
      "w_nspname (ctx_workers (sw_ctx w) ! i) = nspname" "w_relname (ctx_workers (sw_ctx w) ! i) = relname"
    and "w1 = w\<lparr>sw_ctx := snd (spock_worker_detach True now (Some i) (sw_ctx w))\<rparr>"
  shows "wait_for_sync_status_change dboid subid nspname relname desired_state (replicate n (False, w1)) w0 =
    (None, if n = 0 then w0 else w1)"
proof -
  have ws: "ctx_workers (sw_ctx w1) = (ctx_workers (sw_ctx w))[i := (ctx_workers (sw_ctx w) ! i)\<lparr>w_proc := None, w_terminated_at := now\<rparr>]"
    using assms(3,4) by (simp add: assms(9) spock_worker_detach_def Let_def mark_terminated_def)
  have "spock_sync_find dboid subid nspname relname (sw_ctx w1) \<noteq> None"
    using assms(3-8) by (auto simp: spock_sync_find_def first_slot_None ws intro!: bexI [OF _ set_update_memI])
  then show ?thesis
    using assms(1,2) by (induction n arbitrary: w0) (auto simp: assms(9))
qed

end
