(* ===== verification/Spock_Dependency.thy ===== *)
theory Spock_Dependency
  imports Spock_Prelude "HOL-Library.Product_Lexorder"
begin

text \<open>
  Dependencies of Spock's own objects on objects of the database (\<open>src/spock_dependency.c\<close>): the
  rows of the catalog \<open>spock.depend\<close>, the recursive search for everything that depends on an object
  that is being dropped, the report that refuses a drop, and the removal of duplicate references.
  What is deleted then is in the theory of the replication sets.
\<close>

unbundle bit_operations_syntax

section \<open>Objects and rows\<close>

record ObjectAddress =
  classId :: Oid
  objectId :: Oid
  objectSubId :: uint32

text \<open>A row of \<open>spock.depend\<close>: who depends, on what, and the kind of the dependency.\<close>

record spock_depend =
  dep_obj :: ObjectAddress
  dep_ref :: ObjectAddress
  dep_type :: byte

definition DEPENDENCY_NORMAL :: byte where "DEPENDENCY_NORMAL = ch CHR ''n''"
definition DEPENDENCY_AUTO :: byte where "DEPENDENCY_AUTO = ch CHR ''a''"
definition DEPENDENCY_INTERNAL :: byte where "DEPENDENCY_INTERNAL = ch CHR ''i''"
definition DEPENDENCY_EXTENSION :: byte where "DEPENDENCY_EXTENSION = ch CHR ''e''"
definition DEPENDENCY_AUTO_EXTENSION :: byte where "DEPENDENCY_AUTO_EXTENSION = ch CHR ''x''"

definition DEPFLAG_ORIGINAL :: uint32 where "DEPFLAG_ORIGINAL = 0x0001"
definition DEPFLAG_NORMAL :: uint32 where "DEPFLAG_NORMAL = 0x0002"
definition DEPFLAG_AUTO :: uint32 where "DEPFLAG_AUTO = 0x0004"
definition DEPFLAG_INTERNAL :: uint32 where "DEPFLAG_INTERNAL = 0x0008"
definition DEPFLAG_EXTENSION :: uint32 where "DEPFLAG_EXTENSION = 0x0010"
definition DEPFLAG_REVERSE :: uint32 where "DEPFLAG_REVERSE = 0x0020"

record ObjectAddressExtra =
  ex_flags :: uint32
  ex_dependee :: ObjectAddress

text \<open>
  \<open>targetObjects\<close> with its extra data, in the order of the array; the stack of the objects that are
  being visited, the innermost first, each with the flags its level has so far.
\<close>

type_synonym targets = "(ObjectAddress \<times> ObjectAddressExtra) list"
type_synonym address_stack = "(ObjectAddress \<times> uint32) list"

datatype DropBehavior = DROP_RESTRICT | DROP_CASCADE

datatype catalog_error =
    Required_by_system ObjectAddress
  | Required_by_object ObjectAddress ObjectAddress
  | Unrecognized_dependency byte
  | Other_objects_depend ObjectAddress
  | Unrecognized_object_class Oid
  | Set_not_found Oid
  | Set_name_not_found bytes
  | Set_name_empty
  | Set_exists bytes
  | Not_replicable
  | Table_without_key Oid
  | Relation_ignored Oid
  | Mapping_not_found Oid Oid
  | Unique_violation
  | Generated_column bytes
  | No_such_relation Oid
  | Unhandled_change

text \<open>
  The server's part: \<open>IsPinnedObject\<close>, \<open>creating_extension\<close>, whether the row of \<open>spock.depend\<close> is
  still live once the object is locked (\<open>systable_recheck_tuple\<close>), the class oids, and the settings.
\<close>

record depend_env =
  IsPinnedObject :: "Oid \<Rightarrow> Oid \<Rightarrow> bool"
  creating_extension :: bool
  recheck_tuple :: "spock_depend \<Rightarrow> bool"
  ExtensionRelationId :: Oid
  RelationRelationId :: Oid
  client_min_messages :: bytes
  log_min_messages :: bytes
  enable_quiet_mode :: bool

section \<open>Recording\<close>

definition spock_recordMultipleDependencies ::
    "ObjectAddress \<Rightarrow> ObjectAddress list \<Rightarrow> byte \<Rightarrow> spock_depend list \<Rightarrow> spock_depend list" where
  "spock_recordMultipleDependencies depender referenced behavior rows =
     rows @ map (\<lambda>r. \<lparr>dep_obj = depender, dep_ref = r, dep_type = behavior\<rparr>) referenced"

definition spock_recordDependencyOn ::
    "ObjectAddress \<Rightarrow> ObjectAddress \<Rightarrow> byte \<Rightarrow> spock_depend list \<Rightarrow> spock_depend list" where
  "spock_recordDependencyOn depender referenced behavior rows =
     spock_recordMultipleDependencies depender [referenced] behavior rows"

text \<open>The order of \<open>object_address_comparator\<close>; the sub-id is compared as an unsigned number.\<close>

definition address_key :: "ObjectAddress \<Rightarrow> Oid \<times> Oid \<times> uint32" where
  "address_key a = (classId a, objectId a, objectSubId a)"

text \<open>The loop over the sorted array; \<open>prior\<close> is \<open>*priorobj\<close>, the last entry of the output.\<close>

fun dedup_loop :: "ObjectAddress \<Rightarrow> ObjectAddress list \<Rightarrow> ObjectAddress list" where
  "dedup_loop prior [] = [prior]"
| "dedup_loop prior (this # rest) =
     (if classId prior = classId this \<and> objectId prior = objectId this \<and> objectSubId prior = objectSubId this
      then dedup_loop prior rest
      else if classId prior = classId this \<and> objectId prior = objectId this \<and> objectSubId prior = 0
      then dedup_loop (prior\<lparr>objectSubId := objectSubId this\<rparr>) rest
      else prior # dedup_loop this rest)"

definition eliminate_duplicate_dependencies :: "ObjectAddress list \<Rightarrow> ObjectAddress list" where
  "eliminate_duplicate_dependencies addrs =
     (if length addrs \<le> 1 then addrs
      else case sort_key address_key addrs of [] \<Rightarrow> [] | a # rest \<Rightarrow> dedup_loop a rest)"

text \<open>\<open>found\<close> is what \<open>find_expr_references_walker\<close> collects from the expression.\<close>

definition spock_recordDependencyOnSingleRelExpr ::
    "'m depend_env_scheme \<Rightarrow> ObjectAddress \<Rightarrow> ObjectAddress list \<Rightarrow> Oid \<Rightarrow> byte \<Rightarrow> byte
     \<Rightarrow> spock_depend list \<Rightarrow> spock_depend list" where
  "spock_recordDependencyOnSingleRelExpr env depender found relId behavior self_behavior rows =
     (let addrs = eliminate_duplicate_dependencies found;
          is_self = (\<lambda>a. classId a = RelationRelationId env \<and> objectId a = relId)
      in if behavior \<noteq> self_behavior \<and> addrs \<noteq> []
         then spock_recordMultipleDependencies depender (filter (\<lambda>a. \<not> is_self a) addrs) behavior
                (spock_recordMultipleDependencies depender (filter is_self addrs) self_behavior rows)
         else spock_recordMultipleDependencies depender addrs behavior rows)"

section \<open>Looking for dependent objects\<close>

text \<open>
  One entry of \<open>targetObjects\<close> or of the stack against an object: whether the entry accounts for the
  object (it is the same, or the whole of which the object is a part), and the entry's new flags.
\<close>

definition address_visit :: "ObjectAddress \<Rightarrow> uint32 \<Rightarrow> ObjectAddress \<Rightarrow> uint32 \<Rightarrow> bool \<times> uint32" where
  "address_visit object flags thisobj thisflags =
     (if classId object = classId thisobj \<and> objectId object = objectId thisobj then
        if objectSubId object = objectSubId thisobj then (True, thisflags OR flags)
        else if objectSubId thisobj = 0 then (True, thisflags)
        else if objectSubId object = 0 then (False, thisflags OR flags)
        else (False, thisflags)
      else (False, thisflags))"

definition object_address_present_add_flags ::
    "ObjectAddress \<Rightarrow> uint32 \<Rightarrow> targets \<Rightarrow> bool \<times> targets" where
  "object_address_present_add_flags object flags addrs =
     (list_ex (\<lambda>(o', x). fst (address_visit object flags o' (ex_flags x))) addrs,
      map (\<lambda>(o', x). (o', x\<lparr>ex_flags := snd (address_visit object flags o' (ex_flags x))\<rparr>)) addrs)"

definition stack_address_present_add_flags ::
    "ObjectAddress \<Rightarrow> uint32 \<Rightarrow> address_stack \<Rightarrow> bool \<times> address_stack" where
  "stack_address_present_add_flags object flags stack =
     (list_ex (\<lambda>(o', f). fst (address_visit object flags o' f)) stack,
      map (\<lambda>(o', f). (o', snd (address_visit object flags o' f))) stack)"

text \<open>The two scans of \<open>spock.depend\<close>; a whole object stands for its parts as well.\<close>

definition row_of_object :: "ObjectAddress \<Rightarrow> spock_depend \<Rightarrow> bool" where
  "row_of_object object dep \<longleftrightarrow>
     classId (dep_obj dep) = classId object \<and> objectId (dep_obj dep) = objectId object \<and>
     (objectSubId object \<noteq> 0 \<longrightarrow> objectSubId (dep_obj dep) = objectSubId object)"

definition row_on_object :: "ObjectAddress \<Rightarrow> spock_depend \<Rightarrow> bool" where
  "row_on_object object dep \<longleftrightarrow>
     classId (dep_ref dep) = classId object \<and> objectId (dep_ref dep) = objectId object \<and>
     (objectSubId object \<noteq> 0 \<longrightarrow> objectSubId (dep_ref dep) = objectSubId object)"

text \<open>
  What the first scan finds: nothing in the way, an owning object that must be dropped instead, or
  that the owning object is gone.  The only caller passes no pending objects.
\<close>

datatype owner_result = Proceed | Owner_gone | Owner ObjectAddress

fun owner_scan ::
    "'m depend_env_scheme \<Rightarrow> ObjectAddress \<Rightarrow> address_stack \<Rightarrow> spock_depend list \<Rightarrow> catalog_error + owner_result" where
  "owner_scan env object stack [] = Inr Proceed"
| "owner_scan env object stack (dep # deps) =
     (if dep_type dep \<in> {DEPENDENCY_NORMAL, DEPENDENCY_AUTO, DEPENDENCY_AUTO_EXTENSION}
      then owner_scan env object stack deps
      else if dep_type dep \<in> {DEPENDENCY_INTERNAL, DEPENDENCY_EXTENSION} then
        if stack = [] then
          if creating_extension env \<and> classId (dep_ref dep) = ExtensionRelationId env
          then owner_scan env object stack deps
          else Inl (Required_by_object object (dep_ref dep))
        else if fst (stack_address_present_add_flags (dep_ref dep) 0 stack)
        then owner_scan env object stack deps
        else if \<not> recheck_tuple env dep then Inr Owner_gone
        else Inr (Owner (dep_ref dep))
      else Inl (Unrecognized_dependency (dep_type dep)))"

definition dependency_flags :: "byte \<Rightarrow> catalog_error + uint32" where
  "dependency_flags t =
     (if t = DEPENDENCY_NORMAL then Inr DEPFLAG_NORMAL
      else if t = DEPENDENCY_AUTO \<or> t = DEPENDENCY_AUTO_EXTENSION then Inr DEPFLAG_AUTO
      else if t = DEPENDENCY_INTERNAL then Inr DEPFLAG_INTERNAL
      else if t = DEPENDENCY_EXTENSION then Inr DEPFLAG_EXTENSION
      else Inl (Unrecognized_dependency t))"

type_synonym find_result = "(catalog_error + (address_stack \<times> targets)) option"

text \<open>The second scan; \<open>visit\<close> is the recursive call.\<close>

fun dependents_loop ::
    "(ObjectAddress \<Rightarrow> uint32 \<Rightarrow> address_stack \<Rightarrow> targets \<Rightarrow> find_result) \<Rightarrow> 'm depend_env_scheme
     \<Rightarrow> spock_depend list \<Rightarrow> address_stack \<Rightarrow> targets \<Rightarrow> find_result" where
  "dependents_loop visit env [] stack targets = Some (Inr (stack, targets))"
| "dependents_loop visit env (dep # deps) stack targets =
     (if \<not> recheck_tuple env dep then dependents_loop visit env deps stack targets
      else case dependency_flags (dep_type dep) of
        Inl e \<Rightarrow> Some (Inl e)
      | Inr subflags \<Rightarrow>
          (case visit (dep_obj dep) subflags stack targets of
             None \<Rightarrow> None
           | Some (Inl e) \<Rightarrow> Some (Inl e)
           | Some (Inr (stack, targets)) \<Rightarrow> dependents_loop visit env deps stack targets))"

definition no_object :: ObjectAddress where
  "no_object = \<lparr>classId = 0, objectId = 0, objectSubId = 0\<rparr>"

text \<open>
  \<open>findDependentObjects\<close>; the first argument bounds the depth of the recursion, and
  \<^const>\<open>None\<close> means that it did not return within that depth.
\<close>

primrec findDependentObjects ::
    "nat \<Rightarrow> 'm depend_env_scheme \<Rightarrow> spock_depend list \<Rightarrow> ObjectAddress \<Rightarrow> uint32 \<Rightarrow> address_stack \<Rightarrow> targets
     \<Rightarrow> find_result" where
  "findDependentObjects 0 env rows object flags stack targets = None"
| "findDependentObjects (Suc n) env rows object flags stack targets =
     (let (on_stack, stack) = stack_address_present_add_flags object flags stack
      in if on_stack then Some (Inr (stack, targets))
         else let (present, targets) = object_address_present_add_flags object flags targets
      in if present then Some (Inr (stack, targets))
         else if IsPinnedObject env (classId object) (objectId object)
         then Some (Inl (Required_by_system object))
         else case owner_scan env object stack (filter (row_of_object object) rows) of
           Inl e \<Rightarrow> Some (Inl e)
         | Inr Owner_gone \<Rightarrow> Some (Inr (stack, targets))
         | Inr (Owner other) \<Rightarrow> findDependentObjects n env rows other DEPFLAG_REVERSE stack targets
         | Inr Proceed \<Rightarrow>
             (case dependents_loop (findDependentObjects n env rows) env (filter (row_on_object object) rows)
                     ((object, flags) # stack) targets of
                None \<Rightarrow> None
              | Some (Inl e) \<Rightarrow> Some (Inl e)
              | Some (Inr (mystack, targets)) \<Rightarrow>
                  Some (Inr (tl mystack, targets @
                    [(object, \<lparr>ex_flags = snd (hd mystack),
                               ex_dependee = (case stack of [] \<Rightarrow> no_object | (o', _) # _ \<Rightarrow> o')\<rparr>)]))))"

section \<open>Reporting\<close>

text \<open>\<open>atoi\<close>: white space, a sign, decimal digits; anything else gives 0.\<close>

fun digits_value :: "int \<Rightarrow> bytes \<Rightarrow> int" where
  "digits_value acc [] = acc"
| "digits_value acc (c # s) = (if 48 \<le> c \<and> c \<le> 57 then digits_value (10 * acc + uint c - 48) s else acc)"

definition atoi :: "bytes \<Rightarrow> int" where
  "atoi s = (case dropWhile (\<lambda>c. c = 32 \<or> (9 \<le> c \<and> c \<le> 13)) s of
     [] \<Rightarrow> 0
   | c # r \<Rightarrow> if c = ch CHR ''-'' then - digits_value 0 r
              else if c = ch CHR ''+'' then digits_value 0 r
              else digits_value 0 (c # r))"

definition LOG :: int where "LOG = 15"
definition NOTICE :: int where "NOTICE = 18"
definition MAX_REPORTED_DEPS :: nat where "MAX_REPORTED_DEPS = 100"

record dep_report =
  rp_ok :: bool
  rp_client :: "bytes list"
  rp_not_reported :: nat
  rp_log :: "bytes list"

definition report_line :: "bytes \<Rightarrow> dep_report \<Rightarrow> dep_report" where
  "report_line line rp =
     rp\<lparr>rp_client := (if length (rp_client rp) < MAX_REPORTED_DEPS then rp_client rp @ [line] else rp_client rp),
        rp_not_reported := (if length (rp_client rp) < MAX_REPORTED_DEPS then rp_not_reported rp
                            else rp_not_reported rp + 1),
        rp_log := rp_log rp @ [line]\<rparr>"

text \<open>\<open>describe\<close> is \<open>spock_getObjectDescription\<close>, which can raise or find the object gone.\<close>

fun report_loop ::
    "(ObjectAddress \<Rightarrow> catalog_error + bytes option) \<Rightarrow> DropBehavior \<Rightarrow> targets \<Rightarrow> dep_report
     \<Rightarrow> catalog_error + dep_report" where
  "report_loop describe behavior [] rp = Inr rp"
| "report_loop describe behavior ((obj, extra) # rest) rp =
     (if ex_flags extra AND DEPFLAG_ORIGINAL \<noteq> 0 then report_loop describe behavior rest rp
      else res_bind (describe obj) (\<lambda>objDesc. case objDesc of
          None \<Rightarrow> report_loop describe behavior rest rp
        | Some objDesc \<Rightarrow>
            if ex_flags extra AND (DEPFLAG_AUTO OR DEPFLAG_INTERNAL OR DEPFLAG_EXTENSION) \<noteq> 0
            then report_loop describe behavior rest rp
            else if behavior = DROP_RESTRICT then
              res_bind (describe (ex_dependee extra)) (\<lambda>otherDesc.
                report_loop describe behavior rest
                  ((case otherDesc of
                      Some otherDesc \<Rightarrow> report_line (objDesc @ cs '' depends on '' @ otherDesc) rp
                    | None \<Rightarrow> rp\<lparr>rp_not_reported := rp_not_reported rp + 1\<rparr>)\<lparr>rp_ok := False\<rparr>))
            else report_loop describe behavior rest (report_line (cs ''drop cascades to '' @ objDesc) rp)))"

definition empty_report :: dep_report where
  "empty_report = \<lparr>rp_ok = True, rp_client = [], rp_not_reported = 0, rp_log = []\<rparr>"

text \<open>The result is the notice for the client, if any.\<close>

definition reportDependentObjects ::
    "'m depend_env_scheme \<Rightarrow> (ObjectAddress \<Rightarrow> catalog_error + bytes option) \<Rightarrow> targets \<Rightarrow> DropBehavior \<Rightarrow> int
     \<Rightarrow> ObjectAddress \<Rightarrow> catalog_error + dep_report" where
  "reportDependentObjects env describe targetObjects behavior msglevel origObject =
     (let my_client_min_messages = atoi (client_min_messages env);
          my_log_min_messages = atoi (log_min_messages env)
      in if enable_quiet_mode env \<or>
            (behavior = DROP_CASCADE \<and> msglevel < my_client_min_messages \<and>
             (msglevel < my_log_min_messages \<or> my_log_min_messages = LOG))
         then Inr empty_report
         else res_bind (report_loop describe behavior (rev targetObjects) empty_report) (\<lambda>rp.
           if rp_ok rp then Inr rp else Inl (Other_objects_depend origObject)))"

section \<open>What the search finds\<close>

text \<open>
  The specification: \<open>d\<close> depends directly on \<open>x\<close> when a live row says so; \<open>d\<close> is a part of \<open>x\<close>
  when it is \<open>x\<close> or a sub-object of the whole object \<open>x\<close>.
\<close>

definition depends_on :: "'m depend_env_scheme \<Rightarrow> spock_depend list \<Rightarrow> ObjectAddress \<Rightarrow> ObjectAddress \<Rightarrow> bool" where
  "depends_on env rows x d \<longleftrightarrow> (\<exists>r \<in> set rows. recheck_tuple env r \<and> row_on_object x r \<and> dep_obj r = d)"

definition part_of :: "ObjectAddress \<Rightarrow> ObjectAddress \<Rightarrow> bool" where
  "part_of d x \<longleftrightarrow> classId d = classId x \<and> objectId d = objectId x \<and>
     (objectSubId x = objectSubId d \<or> objectSubId x = 0)"

definition covered :: "ObjectAddress \<Rightarrow> ObjectAddress list \<Rightarrow> bool" where
  "covered d xs \<longleftrightarrow> (\<exists>x \<in> set xs. part_of d x)"

text \<open>All that Spock itself records: normal dependencies of objects that are not pinned.\<close>

definition plain_rows :: "'m depend_env_scheme \<Rightarrow> spock_depend list \<Rightarrow> bool" where
  "plain_rows env rows \<longleftrightarrow>
     (\<forall>r \<in> set rows. dep_type r = DEPENDENCY_NORMAL \<and>
        \<not> IsPinnedObject env (classId (dep_obj r)) (objectId (dep_obj r)))"

lemma part_of_refl [simp]: "part_of x x"
  by (simp add: part_of_def)

lemma part_of_row: "part_of x y \<Longrightarrow> row_on_object x r \<Longrightarrow> row_on_object y r"
  by (auto simp: part_of_def row_on_object_def)

lemma depends_on_part: "part_of x y \<Longrightarrow> depends_on env rows x d \<Longrightarrow> depends_on env rows y d"
  unfolding depends_on_def by (blast intro: part_of_row)

lemma covered_append [simp]: "covered d (xs @ ys) \<longleftrightarrow> covered d xs \<or> covered d ys"
  by (auto simp: covered_def)

lemma covered_Cons [simp]: "covered d (x # xs) \<longleftrightarrow> part_of d x \<or> covered d xs"
  by (auto simp: covered_def)

lemma covered_Nil [simp]: "\<not> covered d []"
  by (simp add: covered_def)

lemma visit_covers [simp]: "fst (address_visit d fl x g) \<longleftrightarrow> part_of d x"
  by (auto simp: address_visit_def part_of_def)

lemma stack_present_covered [simp]:
  "fst (stack_address_present_add_flags d fl stack) \<longleftrightarrow> covered d (map fst stack)"
  by (simp add: stack_address_present_add_flags_def list_ex_iff covered_def case_prod_unfold)

lemma stack_present_objects [simp]:
  "map fst (snd (stack_address_present_add_flags d fl stack)) = map fst stack"
  by (simp add: stack_address_present_add_flags_def case_prod_unfold comp_def)

lemma target_present_covered [simp]:
  "fst (object_address_present_add_flags d fl ts) \<longleftrightarrow> covered d (map fst ts)"
  by (simp add: object_address_present_add_flags_def list_ex_iff covered_def case_prod_unfold)

lemma target_present_objects [simp]:
  "map fst (snd (object_address_present_add_flags d fl ts)) = map fst ts"
  by (simp add: object_address_present_add_flags_def case_prod_unfold comp_def)

lemma plain_owner_scan:
  "\<forall>r \<in> set deps. dep_type r = DEPENDENCY_NORMAL \<Longrightarrow> owner_scan env object stack deps = Inr Proceed"
  by (induction deps) auto

text \<open>The step of the search on plain rows.\<close>

lemma find_plain_step:
  assumes "plain_rows env rows" "\<not> IsPinnedObject env (classId object) (objectId object)"
  shows "findDependentObjects (Suc n) env rows object flags stack targets =
    (let stack' = snd (stack_address_present_add_flags object flags stack);
         targets' = snd (object_address_present_add_flags object flags targets)
     in if covered object (map fst stack) then Some (Inr (stack', targets))
        else if covered object (map fst targets) then Some (Inr (stack', targets'))
        else case dependents_loop (findDependentObjects n env rows) env (filter (row_on_object object) rows)
                     ((object, flags) # stack') targets' of
                None \<Rightarrow> None
              | Some (Inl e) \<Rightarrow> Some (Inl e)
              | Some (Inr (mystack, targets)) \<Rightarrow>
                  Some (Inr (tl mystack, targets @
                    [(object, \<lparr>ex_flags = snd (hd mystack),
                               ex_dependee = (case stack' of [] \<Rightarrow> no_object | (o', _) # _ \<Rightarrow> o')\<rparr>)])))"
proof -
  have "owner_scan env object st (filter (row_of_object object) rows) = Inr Proceed" for st
    using assms(1) by (intro plain_owner_scan) (auto simp: plain_rows_def)
  then show ?thesis
    using assms(2) by (simp add: Let_def case_prod_unfold)
qed

declare findDependentObjects.simps(2) [simp del]

text \<open>
  An object that depends on a whole of which it is a part, or on itself, is on a loop.  In the list
  \<open>xs\<close>, put behind \<open>base\<close>, everything that depends on an object comes before it or is on a loop.
\<close>

definition on_loop :: "'m depend_env_scheme \<Rightarrow> spock_depend list \<Rightarrow> ObjectAddress \<Rightarrow> bool" where
  "on_loop env rows d \<longleftrightarrow> (\<exists>y. (depends_on env rows)\<^sup>+\<^sup>+ y d \<and> part_of d y)"

fun dependents_first ::
    "'m depend_env_scheme \<Rightarrow> spock_depend list \<Rightarrow> ObjectAddress list \<Rightarrow> ObjectAddress list \<Rightarrow> bool" where
  "dependents_first env rows base [] \<longleftrightarrow> True"
| "dependents_first env rows base (x # xs) \<longleftrightarrow>
     (\<forall>d. depends_on env rows x d \<longrightarrow> covered d base \<or> on_loop env rows d) \<and>
     dependents_first env rows (base @ [x]) xs"

lemma dependents_first_append:
  "dependents_first env rows base (xs @ ys) \<longleftrightarrow>
     dependents_first env rows base xs \<and> dependents_first env rows (base @ xs) ys"
  by (induction xs arbitrary: base) auto

text \<open>What a visit of the objects \<open>roots\<close> adds to the targets, with \<open>S\<close> on the stack.\<close>

definition search_adds ::
    "'m depend_env_scheme \<Rightarrow> spock_depend list \<Rightarrow> ObjectAddress set \<Rightarrow> ObjectAddress list \<Rightarrow> ObjectAddress list
     \<Rightarrow> ObjectAddress list \<Rightarrow> bool" where
  "search_adds env rows roots S T new \<longleftrightarrow>
     (\<forall>x \<in> set new. \<exists>r \<in> roots. (depends_on env rows)\<^sup>*\<^sup>* r x) \<and>
     (\<forall>x \<in> set new. \<forall>d. depends_on env rows x d \<longrightarrow> covered d (T @ new @ S)) \<and>
     dependents_first env rows T new \<and>
     (\<forall>r \<in> roots. covered r (T @ new @ S))"

lemma search_adds_nothing: "covered r (T @ S) \<Longrightarrow> search_adds env rows {r} S T []"
  by (simp add: search_adds_def)

lemma search_adds_more:
  assumes "search_adds env rows A S T new" "search_adds env rows B S (T @ new) new2"
  shows "search_adds env rows (A \<union> B) S T (new @ new2)"
  using assms unfolding search_adds_def dependents_first_append by auto

lemma search_adds_object:
  assumes adds: "search_adds env rows {d. depends_on env rows x d} (x # S) T new"
    and stack: "\<forall>y \<in> set S. (depends_on env rows)\<^sup>*\<^sup>* y x"
  shows "search_adds env rows {x} S T (new @ [x])"
proof -
  have "on_loop env rows d" if "depends_on env rows x d" "covered d (x # S)" for d
    using that stack unfolding on_loop_def covered_def
    by (auto intro: rtranclp_into_tranclp1)
  with adds show ?thesis
    unfolding search_adds_def dependents_first_append
    by (auto intro: converse_rtranclp_into_rtranclp)
qed

definition uncovered :: "ObjectAddress set \<Rightarrow> ObjectAddress list \<Rightarrow> nat" where
  "uncovered U S = card {a \<in> U. \<not> covered a S}"

lemma uncovered_push:
  assumes "finite U" "x \<in> U" "\<not> covered x S"
  shows "uncovered U (x # S) < uncovered U S"
proof -
  have "x \<in> {a \<in> U. \<not> covered a S}" "x \<notin> {a \<in> U. \<not> covered a (x # S)}"
    using assms by auto
  moreover have "{a \<in> U. \<not> covered a (x # S)} \<subseteq> {a \<in> U. \<not> covered a S}" by auto
  ultimately have "{a \<in> U. \<not> covered a (x # S)} \<subset> {a \<in> U. \<not> covered a S}" by blast
  then show ?thesis
    unfolding uncovered_def using assms(1) by (intro psubset_card_mono) simp
qed

definition visit_found ::
    "'m depend_env_scheme \<Rightarrow> spock_depend list \<Rightarrow> ObjectAddress set \<Rightarrow> address_stack \<Rightarrow> targets \<Rightarrow> find_result \<Rightarrow> bool" where
  "visit_found env rows roots stack targets res \<longleftrightarrow>
     (\<exists>stack' targets' new. res = Some (Inr (stack', targets')) \<and> map fst stack' = map fst stack \<and>
        map fst targets' = map fst targets @ new \<and>
        search_adds env rows roots (map fst stack) (map fst targets) new)"

lemma found_nothing:
  assumes "map fst st = map fst stack" "map fst ts = map fst targets"
    "covered r (map fst targets) \<or> covered r (map fst stack)"
  shows "visit_found env rows {r} stack targets (Some (Inr (st, ts)))"
  unfolding visit_found_def using assms search_adds_nothing [of r "map fst targets" "map fst stack"] by auto

lemma dependents_loop_found:
  assumes "\<And>r stack' targets'. r \<in> set deps \<Longrightarrow> recheck_tuple env r \<Longrightarrow>
      map fst stack' = map fst stack \<Longrightarrow>
      visit_found env rows {dep_obj r} stack' targets' (visit (dep_obj r) DEPFLAG_NORMAL stack' targets')"
    and "\<forall>r \<in> set deps. dep_type r = DEPENDENCY_NORMAL"
  shows "visit_found env rows (dep_obj ` {r \<in> set deps. recheck_tuple env r}) stack targets
    (dependents_loop visit env deps stack targets)"
  using assms
proof (induction deps arbitrary: stack targets)
  case Nil
  then show ?case by (simp add: visit_found_def search_adds_def)
next
  case (Cons r deps)
  show ?case
  proof (cases "recheck_tuple env r")
    case False
    with Cons.IH [of stack targets] Cons.prems have
      "visit_found env rows (dep_obj ` {r \<in> set deps. recheck_tuple env r}) stack targets
        (dependents_loop visit env deps stack targets)" by simp
    moreover have "{r' \<in> set (r # deps). recheck_tuple env r'} = {r \<in> set deps. recheck_tuple env r}"
      using False by auto
    ultimately show ?thesis using False by simp
  next
    case True
    from True Cons.prems(1) [of r stack targets] obtain st ts new where
      v: "visit (dep_obj r) DEPFLAG_NORMAL stack targets = Some (Inr (st, ts))"
        "map fst st = map fst stack" "map fst ts = map fst targets @ new"
        "search_adds env rows {dep_obj r} (map fst stack) (map fst targets) new"
      unfolding visit_found_def by auto
    have "visit_found env rows (dep_obj ` {r \<in> set deps. recheck_tuple env r}) st ts
        (dependents_loop visit env deps st ts)"
      using Cons.prems v(2) by (intro Cons.IH) simp_all
    then obtain st' ts' new2 where
      l: "dependents_loop visit env deps st ts = Some (Inr (st', ts'))"
        "map fst st' = map fst stack" "map fst ts' = map fst targets @ new @ new2"
        "search_adds env rows (dep_obj ` {r \<in> set deps. recheck_tuple env r}) (map fst stack)
           (map fst targets @ new) new2"
      unfolding visit_found_def v(2,3) append_assoc by blast
    have "dependents_loop visit env (r # deps) stack targets = Some (Inr (st', ts'))"
      using True Cons.prems(2) v(1) l(1) by (simp add: dependency_flags_def)
    moreover have "dep_obj ` {r' \<in> set (r # deps). recheck_tuple env r'} =
        {dep_obj r} \<union> dep_obj ` {r \<in> set deps. recheck_tuple env r}"
      using True by auto
    ultimately show ?thesis
      using l(2,3) search_adds_more [OF v(4) l(4)] by (simp add: visit_found_def)
  qed
qed

lemma find_found:
  assumes plain: "plain_rows env rows" and U: "finite U" "dep_obj ` set rows \<subseteq> U" "object \<in> U"
    and pin: "\<forall>x \<in> U. \<not> IsPinnedObject env (classId x) (objectId x)"
    and n: "uncovered U (map fst stack) < n"
    and stack: "\<forall>y \<in> set (map fst stack). (depends_on env rows)\<^sup>*\<^sup>* y object"
  shows "visit_found env rows {object} stack targets (findDependentObjects n env rows object flags stack targets)"
  using U(3) n stack
proof (induction n arbitrary: object flags stack targets)
  case 0
  then show ?case by simp
next
  case (Suc n)
  let ?S = "snd (stack_address_present_add_flags object flags stack)"
  let ?T = "snd (object_address_present_add_flags object flags targets)"
  have step: "\<not> IsPinnedObject env (classId object) (objectId object)"
    using pin Suc.prems(1) by blast
  show ?case
  proof (cases "covered object (map fst stack) \<or> covered object (map fst targets)")
    case True
    then have "findDependentObjects (Suc n) env rows object flags stack targets =
        Some (Inr (?S, if covered object (map fst stack) then targets else ?T))"
      by (subst find_plain_step [OF plain step]) (auto simp: Let_def)
    moreover have "visit_found env rows {object} stack targets
        (Some (Inr (?S, if covered object (map fst stack) then targets else ?T)))"
      using True by (intro found_nothing) auto
    ultimately show ?thesis by simp
  next
    case False
    let ?deps = "filter (row_on_object object) rows"
    have roots: "dep_obj ` {r \<in> set ?deps. recheck_tuple env r} = {d. depends_on env rows object d}"
      by (auto simp: depends_on_def)
    have less: "uncovered U (map fst ((object, flags) # ?S)) < n"
      using uncovered_push [OF U(1) Suc.prems(1), of "map fst stack"] False Suc.prems(2) by simp
    have "visit_found env rows (dep_obj ` {r \<in> set ?deps. recheck_tuple env r}) ((object, flags) # ?S) ?T
        (dependents_loop (findDependentObjects n env rows) env ?deps ((object, flags) # ?S) ?T)"
    proof (rule dependents_loop_found)
      fix r and st :: address_stack and ts
      assume r: "r \<in> set ?deps" "recheck_tuple env r" "map fst st = map fst ((object, flags) # ?S)"
      then have "depends_on env rows object (dep_obj r)" by (auto simp: depends_on_def)
      moreover have "\<forall>y \<in> set (map fst st). (depends_on env rows)\<^sup>*\<^sup>* y object"
        using Suc.prems(3) unfolding r(3) by simp
      ultimately have "\<forall>y \<in> set (map fst st). (depends_on env rows)\<^sup>*\<^sup>* y (dep_obj r)"
        by (meson rtranclp.rtrancl_into_rtrancl)
      moreover have "dep_obj r \<in> U" using r(1) U(2) by auto
      ultimately show "visit_found env rows {dep_obj r} st ts
          (findDependentObjects n env rows (dep_obj r) DEPFLAG_NORMAL st ts)"
        using less unfolding r(3) [symmetric] by (intro Suc.IH)
    qed (use plain in \<open>auto simp: plain_rows_def\<close>)
    then have "visit_found env rows {d. depends_on env rows object d} ((object, flags) # ?S) ?T
        (dependents_loop (findDependentObjects n env rows) env ?deps ((object, flags) # ?S) ?T)"
      unfolding roots .
    then obtain st ts new where
      l: "dependents_loop (findDependentObjects n env rows) env ?deps ((object, flags) # ?S) ?T = Some (Inr (st, ts))"
        "map fst st = object # map fst stack" "map fst ts = map fst targets @ new"
        "search_adds env rows {d. depends_on env rows object d} (object # map fst stack) (map fst targets) new"
      unfolding visit_found_def by auto
    from l(2) have "map fst (tl st) = map fst stack" by (cases st) auto
    moreover have "findDependentObjects (Suc n) env rows object flags stack targets =
        Some (Inr (tl st, ts @ [(object, \<lparr>ex_flags = snd (hd st),
           ex_dependee = (case ?S of [] \<Rightarrow> no_object | (o', _) # _ \<Rightarrow> o')\<rparr>)]))"
      using False by (subst find_plain_step [OF plain step]) (simp add: Let_def l(1))
    ultimately show ?thesis
      using l(3) search_adds_object [OF l(4) Suc.prems(3)] by (simp add: visit_found_def)
  qed
qed


definition demo_depend_env :: depend_env where
  "demo_depend_env = \<lparr>IsPinnedObject = (\<lambda>c i. c = 1259 \<and> i < 16384), creating_extension = False,
     recheck_tuple = (\<lambda>_. True), ExtensionRelationId = 3079, RelationRelationId = 1259,
     client_min_messages = cs ''notice'', log_min_messages = cs ''warning'', enable_quiet_mode = False\<rparr>"

definition demo_object :: "Oid \<Rightarrow> Oid \<Rightarrow> uint32 \<Rightarrow> ObjectAddress" where
  "demo_object c i s = \<lparr>classId = c, objectId = i, objectSubId = s\<rparr>"

text \<open>Table 16500 in the sets 7 and 8, with a row filter on its second column in set 8.\<close>

definition demo_depend_rows :: "spock_depend list" where
  "demo_depend_rows =
     [\<lparr>dep_obj = demo_object 16420 7 16500, dep_ref = demo_object 1259 16500 0, dep_type = DEPENDENCY_NORMAL\<rparr>,
      \<lparr>dep_obj = demo_object 16420 8 16500, dep_ref = demo_object 1259 16500 0, dep_type = DEPENDENCY_NORMAL\<rparr>,
      \<lparr>dep_obj = demo_object 16420 8 16500, dep_ref = demo_object 1259 16500 2, dep_type = DEPENDENCY_NORMAL\<rparr>]"


end
