(* ===== verification/Spock_Repset.thy ===== *)
theory Spock_Repset
  imports Spock_Dependency Spock_Sequences Spock_Sync Spock_Proto_Native
begin

text \<open>
  Replication sets (\<open>src/spock_repset.c\<close>): the catalogs of the sets, of their tables and of their
  sequences, every operation on them, the removal of what depends on a dropped object (the rest of
  \<open>src/spock_dependency.c\<close>), and the cached answer to how the changes of a table are replicated.
\<close>

section \<open>Catalogs\<close>

record SpockRepSet =
  rs_id :: Oid
  rs_nodeid :: Oid
  rs_name :: bytes
  rs_replicate_insert :: bool
  rs_replicate_update :: bool
  rs_replicate_delete :: bool
  rs_replicate_truncate :: bool

text \<open>
  A row of \<open>replication_set_table\<close>: the column list and the row filter are null or set; \<open>'f\<close> is the
  type of the node trees.
\<close>

record 'f RepSetTableTuple =
  rt_setid :: Oid
  rt_reloid :: Oid
  rt_att_list :: "bytes list option"
  rt_row_filter :: "'f option"

record RepSetSeqTuple =
  rq_setid :: Oid
  rq_seqoid :: Oid

text \<open>
  The catalogs, with the relcache invalidations sent so far, the newest last.
\<close>

record 'f repset_db =
  db_sets :: "SpockRepSet list"
  db_tables :: "'f RepSetTableTuple list"
  db_seqs :: "RepSetSeqTuple list"
  db_depend :: "spock_depend list"
  db_seq_state :: "SeqStateTuple list"
  db_inval :: "Oid list"

text \<open>
  What is asked of the server about a relation: \<open>RelationNeedsWAL\<close>, \<open>rd_replidindex\<close>, whether it is
  a plain table (\<open>RELKIND_RELATION\<close>), its schema and the extension it belongs to.
\<close>

record target_rel =
  tr_needs_wal :: bool
  tr_replidindex :: Oid
  tr_plain_table :: bool
  tr_nspname :: bytes
  tr_relname :: bytes
  tr_extension :: Oid

record 'f repset_env = depend_env +
  replication_set_rel_oid :: Oid
  replication_set_table_rel_oid :: Oid
  replication_set_seq_rel_oid :: Oid
  hash_any :: "bytes \<Rightarrow> uint32"
  hash_pair :: "uint32 \<Rightarrow> uint32 \<Rightarrow> uint32"
  open_rel :: "Oid \<Rightarrow> target_rel option"
  extension_oid :: "bytes \<Rightarrow> Oid"
  object_description :: "ObjectAddress \<Rightarrow> bytes option"
  filter_references :: "'f \<Rightarrow> ObjectAddress list"
  seq_values :: seq_server

section \<open>Reading\<close>

definition get_replication_set :: "'f repset_db \<Rightarrow> Oid \<Rightarrow> catalog_error + SpockRepSet" where
  "get_replication_set db setid =
     (case find (\<lambda>s. rs_id s = setid) (db_sets db) of None \<Rightarrow> Inl (Set_not_found setid) | Some s \<Rightarrow> Inr s)"

definition set_named :: "Oid \<Rightarrow> bytes \<Rightarrow> SpockRepSet \<Rightarrow> bool" where
  "set_named nodeid setname s \<longleftrightarrow> rs_nodeid s = nodeid \<and> rs_name s = setname"

definition get_replication_set_by_name ::
    "'f repset_db \<Rightarrow> Oid \<Rightarrow> bytes \<Rightarrow> bool \<Rightarrow> catalog_error + SpockRepSet option" where
  "get_replication_set_by_name db nodeid setname missing_ok =
     (case find (set_named nodeid setname) (db_sets db) of
        Some s \<Rightarrow> Inr (Some s)
      | None \<Rightarrow> if missing_ok then Inr None else Inl (Set_name_not_found setname))"

definition get_node_replication_sets :: "'f repset_db \<Rightarrow> Oid \<Rightarrow> catalog_error + SpockRepSet list" where
  "get_node_replication_sets db nodeid =
     res_map (\<lambda>t. get_replication_set db (rs_id t)) (filter (\<lambda>s. rs_nodeid s = nodeid) (db_sets db))"

fun get_replication_sets ::
    "'f repset_db \<Rightarrow> Oid \<Rightarrow> bytes list \<Rightarrow> bool \<Rightarrow> catalog_error + SpockRepSet list" where
  "get_replication_sets db nodeid [] missing_ok = Inr []"
| "get_replication_sets db nodeid (setname # names) missing_ok =
     (case find (set_named nodeid setname) (db_sets db) of
        None \<Rightarrow> if missing_ok then get_replication_sets db nodeid names missing_ok
                else Inl (Set_name_not_found setname)
      | Some s \<Rightarrow> res_bind (get_replication_sets db nodeid names missing_ok) (\<lambda>sets. Inr (s # sets)))"

text \<open>The sets of a node among the sets with the given ids.\<close>

definition sets_of_node :: "'f repset_db \<Rightarrow> Oid \<Rightarrow> Oid list \<Rightarrow> catalog_error + SpockRepSet list" where
  "sets_of_node db nodeid ids =
     res_bind (res_map (get_replication_set db) ids) (\<lambda>sets. Inr (filter (\<lambda>s. rs_nodeid s = nodeid) sets))"

definition get_table_replication_sets :: "'f repset_db \<Rightarrow> Oid \<Rightarrow> Oid \<Rightarrow> catalog_error + SpockRepSet list" where
  "get_table_replication_sets db nodeid reloid =
     sets_of_node db nodeid (map rt_setid (filter (\<lambda>t. rt_reloid t = reloid) (db_tables db)))"

definition get_seq_replication_sets :: "'f repset_db \<Rightarrow> Oid \<Rightarrow> Oid \<Rightarrow> catalog_error + SpockRepSet list" where
  "get_seq_replication_sets db nodeid seqoid =
     sets_of_node db nodeid (map rq_setid (filter (\<lambda>t. rq_seqoid t = seqoid) (db_seqs db)))"

text \<open>The node is an argument of this function, and not looked at.\<close>

definition sequence_has_replication_sets :: "'f repset_db \<Rightarrow> Oid \<Rightarrow> Oid \<Rightarrow> bool" where
  "sequence_has_replication_sets db nodeid seqoid = list_ex (\<lambda>t. rq_seqoid t = seqoid) (db_seqs db)"

definition get_table_replication_row ::
    "'f repset_db \<Rightarrow> Oid \<Rightarrow> Oid \<Rightarrow> 'f RepSetTableTuple option" where
  "get_table_replication_row db repsetid reloid =
     find (\<lambda>t. rt_setid t = repsetid \<and> rt_reloid t = reloid) (db_tables db)"

definition replication_set_get_tables :: "'f repset_db \<Rightarrow> Oid \<Rightarrow> Oid list" where
  "replication_set_get_tables db setid = map rt_reloid (filter (\<lambda>t. rt_setid t = setid) (db_tables db))"

definition replication_set_get_seqs :: "'f repset_db \<Rightarrow> Oid \<Rightarrow> Oid list" where
  "replication_set_get_seqs db setid = map rq_seqoid (filter (\<lambda>t. rq_setid t = setid) (db_seqs db))"

text \<open>\<open>quote_identifier\<close> is the server's; the two functions of the source that join names with commas.\<close>

fun join_commas :: "bytes list \<Rightarrow> bytes" where
  "join_commas [] = []"
| "join_commas [s] = s"
| "join_commas (s # t # r) = s @ cs '','' @ join_commas (t # r)"

definition stringlist_to_identifierstr :: "(bytes \<Rightarrow> bytes) \<Rightarrow> bytes list \<Rightarrow> bytes" where
  "stringlist_to_identifierstr quote_identifier strings = join_commas (map quote_identifier strings)"

definition repsetslist_to_identifierstr :: "(bytes \<Rightarrow> bytes) \<Rightarrow> SpockRepSet list \<Rightarrow> bytes" where
  "repsetslist_to_identifierstr quote_identifier repsets =
     join_commas (map (\<lambda>s. quote_identifier (rs_name s)) repsets)"

section \<open>Creating and altering\<close>

definition create_replication_set ::
    "('f, 'm) repset_env_scheme \<Rightarrow> SpockRepSet \<Rightarrow> 'f repset_db \<Rightarrow> catalog_error + 'f repset_db" where
  "create_replication_set env repset db =
     (if rs_name repset = [] then Inl Set_name_empty
      else res_bind (get_replication_set_by_name db (rs_nodeid repset) (rs_name repset) True) (\<lambda>found.
        if found \<noteq> None then Inl (Set_exists (rs_name repset))
        else
          let setid = (if rs_id repset = InvalidOid
                       then hash_pair env (rs_nodeid repset) (hash_any env (rs_name repset))
                       else rs_id repset);
              tup = repset\<lparr>rs_id := setid, rs_name := namestrcpy (rs_name repset)\<rparr>
          in if list_ex (\<lambda>s. rs_id s = setid) (db_sets db) \<or>
                list_ex (set_named (rs_nodeid tup) (rs_name tup)) (db_sets db)
             then Inl Unique_violation
             else Inr (db\<lparr>db_sets := db_sets db @ [tup]\<rparr>)))"

text \<open>The check of every table of the set.\<close>

fun alter_check ::
    "('f, 'm) repset_env_scheme \<Rightarrow> SpockRepSet \<Rightarrow> 'f RepSetTableTuple list \<Rightarrow> catalog_error + bool" where
  "alter_check env repset [] = Inr True"
| "alter_check env repset (t # ts) =
     (case open_rel env (rt_reloid t) of
        None \<Rightarrow> Inl (No_such_relation (rt_reloid t))
      | Some targetrel \<Rightarrow>
          if tr_plain_table targetrel \<and> tr_replidindex targetrel = InvalidOid \<and>
             (rs_replicate_update repset \<or> rs_replicate_delete repset)
          then Inl (Table_without_key (rt_reloid t))
          else alter_check env repset ts)"

definition alter_replication_set ::
    "('f, 'm) repset_env_scheme \<Rightarrow> SpockRepSet \<Rightarrow> 'f repset_db \<Rightarrow> catalog_error + 'f repset_db" where
  "alter_replication_set env repset db =
     res_bind (get_replication_set db (rs_id repset)) (\<lambda>oldtup.
     res_bind (if rs_replicate_update repset \<or> rs_replicate_delete repset
               then alter_check env repset (filter (\<lambda>t. rt_setid t = rs_id repset) (db_tables db))
               else Inr True) (\<lambda>_.
       let newtup = oldtup\<lparr>rs_replicate_insert := rs_replicate_insert repset,
             rs_replicate_update := rs_replicate_update repset,
             rs_replicate_delete := rs_replicate_delete repset,
             rs_replicate_truncate := rs_replicate_truncate repset\<rparr>
       in Inr (db\<lparr>db_sets := map (\<lambda>s. if s = oldtup then newtup else s) (db_sets db)\<rparr>)))"

text \<open>Relations that may not be in a set (\<open>src/spock_node.c\<close>).\<close>

definition norepset_schema :: "bytes list" where "norepset_schema = [cs ''snowflake'', cs ''spock'']"
definition norepset_extension :: "bytes list" where "norepset_extension = [cs ''snowflake'', cs ''spock'']"

definition EnsureRelationNotIgnored ::
    "('f, 'm) repset_env_scheme \<Rightarrow> Oid \<Rightarrow> target_rel \<Rightarrow> catalog_error + bool" where
  "EnsureRelationNotIgnored env reloid rel =
     (if tr_nspname rel \<in> set norepset_schema then Inl (Relation_ignored reloid)
      else if tr_extension rel = InvalidOid then Inr True
      else if tr_extension rel \<in> extension_oid env ` set norepset_extension then Inl (Relation_ignored reloid)
      else Inr True)"

text \<open>The address of a membership, and of the relation it depends on.\<close>

definition table_member :: "('f, 'm) repset_env_scheme \<Rightarrow> Oid \<Rightarrow> Oid \<Rightarrow> ObjectAddress" where
  "table_member env setid reloid =
     \<lparr>classId = replication_set_table_rel_oid env, objectId = setid, objectSubId = reloid\<rparr>"

definition seq_member :: "('f, 'm) repset_env_scheme \<Rightarrow> Oid \<Rightarrow> Oid \<Rightarrow> ObjectAddress" where
  "seq_member env setid seqoid =
     \<lparr>classId = replication_set_seq_rel_oid env, objectId = setid, objectSubId = seqoid\<rparr>"

definition whole_relation :: "('f, 'm) repset_env_scheme \<Rightarrow> Oid \<Rightarrow> ObjectAddress" where
  "whole_relation env reloid = \<lparr>classId = RelationRelationId env, objectId = reloid, objectSubId = 0\<rparr>"

definition replication_set_add_table ::
    "('f, 'm) repset_env_scheme \<Rightarrow> Oid \<Rightarrow> Oid \<Rightarrow> bytes list \<Rightarrow> 'f option \<Rightarrow> 'f repset_db
     \<Rightarrow> catalog_error + 'f repset_db" where
  "replication_set_add_table env setid reloid att_list row_filter db =
     res_bind (get_replication_set db setid) (\<lambda>repset.
     case open_rel env reloid of
       None \<Rightarrow> Inl (No_such_relation reloid)
     | Some targetrel \<Rightarrow>
         if \<not> tr_needs_wal targetrel then Inl Not_replicable
         else if tr_replidindex targetrel = InvalidOid \<and> (rs_replicate_update repset \<or> rs_replicate_delete repset)
         then Inl (Table_without_key reloid)
         else res_bind (EnsureRelationNotIgnored env reloid targetrel) (\<lambda>_.
           if list_ex (\<lambda>t. rt_setid t = rs_id repset \<and> rt_reloid t = reloid) (db_tables db)
           then Inl Unique_violation
           else
             let tup = \<lparr>rt_setid = rs_id repset, rt_reloid = reloid,
                        rt_att_list = (if att_list = [] then None else Some att_list),
                        rt_row_filter = row_filter\<rparr>;
                 myself = table_member env setid reloid;
                 depend = spock_recordDependencyOn myself (whole_relation env reloid) DEPENDENCY_NORMAL (db_depend db);
                 depend = (case row_filter of
                     None \<Rightarrow> depend
                   | Some f \<Rightarrow> spock_recordDependencyOnSingleRelExpr env myself
                       (filter_references env f) reloid DEPENDENCY_NORMAL DEPENDENCY_NORMAL depend)
             in Inr (db\<lparr>db_tables := db_tables db @ [tup], db_inval := db_inval db @ [reloid],
                        db_depend := depend\<rparr>)))"

definition replication_set_add_seq ::
    "('f, 'm) repset_env_scheme \<Rightarrow> Oid \<Rightarrow> Oid \<Rightarrow> 'f repset_db \<Rightarrow> catalog_error + 'f repset_db" where
  "replication_set_add_seq env setid seqoid db =
     res_bind (get_replication_set db setid) (\<lambda>repset.
     case open_rel env seqoid of
       None \<Rightarrow> Inl (No_such_relation seqoid)
     | Some targetrel \<Rightarrow>
         if \<not> tr_needs_wal targetrel then Inl Not_replicable
         else res_bind (EnsureRelationNotIgnored env seqoid targetrel) (\<lambda>_.
           if list_ex (\<lambda>t. rq_setid t = rs_id repset \<and> rq_seqoid t = seqoid) (db_seqs db)
           then Inl Unique_violation
           else Inr (db\<lparr>db_seq_state := spock_create_sequence_state_record (seq_values env) seqoid (db_seq_state db),
                  db_seqs := db_seqs db @ [\<lparr>rq_setid = rs_id repset, rq_seqoid = seqoid\<rparr>],
                  db_inval := db_inval db @ [seqoid],
                  db_depend := spock_recordDependencyOn (seq_member env setid seqoid)
                    (whole_relation env seqoid) DEPENDENCY_NORMAL (db_depend db)\<rparr>)))"

section \<open>Removing\<close>

text \<open>
  A removal can raise an error or, given by \<^const>\<open>None\<close>, not return within the depth that is
  allowed for it.
\<close>

definition er_bind :: "('e + 'a) option \<Rightarrow> ('a \<Rightarrow> ('e + 'b) option) \<Rightarrow> ('e + 'b) option" where
  "er_bind m f = (case m of None \<Rightarrow> None | Some (Inl e) \<Rightarrow> Some (Inl e) | Some (Inr a) \<Rightarrow> f a)"

lemma er_bind_simps [simp]:
  "er_bind None f = None" "er_bind (Some (Inl e)) f = Some (Inl e)" "er_bind (Some (Inr a)) f = f a"
  by (simp_all add: er_bind_def)

fun er_fold :: "('a \<Rightarrow> 's \<Rightarrow> ('e + 's) option) \<Rightarrow> 'a list \<Rightarrow> 's \<Rightarrow> ('e + 's) option" where
  "er_fold f [] s = Some (Inr s)"
| "er_fold f (x # xs) s = er_bind (f x s) (er_fold f xs)"

type_synonym 'f drop_deps =
  "ObjectAddress \<Rightarrow> DropBehavior \<Rightarrow> 'f repset_db \<Rightarrow> (catalog_error + 'f repset_db) option"

text \<open>In each of the following, \<open>try_drop\<close> is \<open>spock_tryDropDependencies\<close>.\<close>

definition replication_set_remove_tables ::
    "('f, 'm) repset_env_scheme \<Rightarrow> 'f drop_deps \<Rightarrow> Oid \<Rightarrow> Oid \<Rightarrow> 'f repset_db
     \<Rightarrow> (catalog_error + 'f repset_db) option" where
  "replication_set_remove_tables env try_drop setid nodeid db =
     er_fold (\<lambda>t db.
         try_drop (table_member env setid (rt_reloid t)) DROP_CASCADE
           (db\<lparr>db_tables := remove1 t (db_tables db), db_inval := db_inval db @ [rt_reloid t]\<rparr>))
       (filter (\<lambda>t. rt_setid t = setid) (db_tables db)) db"

definition drop_state_of :: "Oid \<Rightarrow> 'f repset_db \<Rightarrow> 'f repset_db" where
  "drop_state_of seqoid db = db\<lparr>db_seq_state := spock_drop_sequence_state_record seqoid (db_seq_state db)\<rparr>"

definition replication_set_remove_seqs ::
    "('f, 'm) repset_env_scheme \<Rightarrow> 'f drop_deps \<Rightarrow> Oid \<Rightarrow> Oid \<Rightarrow> 'f repset_db
     \<Rightarrow> (catalog_error + 'f repset_db) option" where
  "replication_set_remove_seqs env try_drop setid nodeid db =
     er_fold (\<lambda>t db.
         let seqoid = rq_seqoid t;
             db = db\<lparr>db_seqs := remove1 t (db_seqs db)\<rparr>;
             db = (if sequence_has_replication_sets db nodeid seqoid then db else drop_state_of seqoid db)
         in try_drop (seq_member env setid seqoid) DROP_CASCADE (db\<lparr>db_inval := db_inval db @ [seqoid]\<rparr>))
       (filter (\<lambda>t. rq_setid t = setid) (db_seqs db)) db"

text \<open>The invalidation is of the catalog \<open>replication_set\<close> itself.\<close>

definition drop_replication_set ::
    "('f, 'm) repset_env_scheme \<Rightarrow> 'f drop_deps \<Rightarrow> Oid \<Rightarrow> 'f repset_db
     \<Rightarrow> (catalog_error + 'f repset_db) option" where
  "drop_replication_set env try_drop setid db =
     er_bind (Some (get_replication_set db setid)) (\<lambda>repset.
     er_bind (replication_set_remove_tables env try_drop setid (rs_nodeid repset) db) (\<lambda>db.
     er_bind (replication_set_remove_seqs env try_drop setid (rs_nodeid repset) db) (\<lambda>db.
       Some (Inr (db\<lparr>db_sets := remove1 repset (db_sets db),
                     db_inval := db_inval db @ [replication_set_rel_oid env]\<rparr>)))))"

definition drop_node_replication_sets ::
    "('f, 'm) repset_env_scheme \<Rightarrow> 'f drop_deps \<Rightarrow> Oid \<Rightarrow> 'f repset_db
     \<Rightarrow> (catalog_error + 'f repset_db) option" where
  "drop_node_replication_sets env try_drop nodeid db =
     er_bind (er_fold (\<lambda>repset db.
         er_bind (replication_set_remove_tables env try_drop (rs_id repset) (rs_nodeid repset) db) (\<lambda>db.
         er_bind (replication_set_remove_seqs env try_drop (rs_id repset) (rs_nodeid repset) db) (\<lambda>db.
           Some (Inr (db\<lparr>db_sets := remove1 repset (db_sets db)\<rparr>)))))
       (filter (\<lambda>s. rs_nodeid s = nodeid) (db_sets db)) db)
     (\<lambda>db. Some (Inr (db\<lparr>db_inval := db_inval db @ [replication_set_rel_oid env]\<rparr>)))"

definition replication_set_remove_table ::
    "('f, 'm) repset_env_scheme \<Rightarrow> 'f drop_deps \<Rightarrow> Oid \<Rightarrow> Oid \<Rightarrow> bool \<Rightarrow> 'f repset_db
     \<Rightarrow> (catalog_error + 'f repset_db) option" where
  "replication_set_remove_table env try_drop setid reloid from_drop db =
     er_bind (case get_table_replication_row db setid reloid of
                Some t \<Rightarrow> Some (Inr (db\<lparr>db_tables := remove1 t (db_tables db)\<rparr>))
              | None \<Rightarrow>
                  if from_drop then Some (Inr db)
                  else er_bind (Some (get_replication_set db setid)) (\<lambda>_. Some (Inl (Mapping_not_found setid reloid))))
     (\<lambda>db.
       try_drop (table_member env setid reloid) DROP_CASCADE
         (if from_drop then db else db\<lparr>db_inval := db_inval db @ [reloid]\<rparr>))"

definition replication_set_remove_seq ::
    "('f, 'm) repset_env_scheme \<Rightarrow> 'f drop_deps \<Rightarrow> Oid \<Rightarrow> Oid \<Rightarrow> bool \<Rightarrow> 'f repset_db
     \<Rightarrow> (catalog_error + 'f repset_db) option" where
  "replication_set_remove_seq env try_drop setid seqoid from_drop db =
     er_bind (Some (get_replication_set db setid)) (\<lambda>repset.
     er_bind (case find (\<lambda>t. rq_setid t = setid \<and> rq_seqoid t = seqoid) (db_seqs db) of
                Some t \<Rightarrow> Some (Inr (db\<lparr>db_seqs := remove1 t (db_seqs db)\<rparr>))
              | None \<Rightarrow> if from_drop then Some (Inr db) else Some (Inl (Mapping_not_found setid seqoid)))
     (\<lambda>db.
     er_bind (try_drop (seq_member env setid seqoid) DROP_CASCADE
                (if from_drop then db else db\<lparr>db_inval := db_inval db @ [seqoid]\<rparr>))
     (\<lambda>db.
       if from_drop \<or> \<not> sequence_has_replication_sets db (rs_nodeid repset) seqoid
       then Some (Inr (drop_state_of seqoid db)) else Some (Inr db))))"

section \<open>Removing what depends on an object\<close>

definition doDeletion ::
    "('f, 'm) repset_env_scheme \<Rightarrow> 'f drop_deps \<Rightarrow> ObjectAddress \<Rightarrow> 'f repset_db
     \<Rightarrow> (catalog_error + 'f repset_db) option" where
  "doDeletion env try_drop object db =
     (if classId object = replication_set_rel_oid env
      then drop_replication_set env try_drop (objectId object) db
      else if classId object = replication_set_table_rel_oid env
      then replication_set_remove_table env try_drop (objectId object) (objectSubId object) True db
      else if classId object = replication_set_seq_rel_oid env
      then replication_set_remove_seq env try_drop (objectId object) (objectSubId object) True db
      else Some (Inl (Unrecognized_object_class (classId object))))"

definition deleteOneObjectDepencencyRecord :: "ObjectAddress \<Rightarrow> 'f repset_db \<Rightarrow> 'f repset_db" where
  "deleteOneObjectDepencencyRecord object db =
     db\<lparr>db_depend := filter (\<lambda>r. \<not> row_of_object object r) (db_depend db)\<rparr>"

definition deleteOneObject ::
    "('f, 'm) repset_env_scheme \<Rightarrow> 'f drop_deps \<Rightarrow> ObjectAddress \<Rightarrow> 'f repset_db
     \<Rightarrow> (catalog_error + 'f repset_db) option" where
  "deleteOneObject env try_drop object db =
     er_bind (doDeletion env try_drop object db) (\<lambda>db. Some (Inr (deleteOneObjectDepencencyRecord object db)))"

definition deleteObjectsInList ::
    "('f, 'm) repset_env_scheme \<Rightarrow> 'f drop_deps \<Rightarrow> targets \<Rightarrow> 'f repset_db
     \<Rightarrow> (catalog_error + 'f repset_db) option" where
  "deleteObjectsInList env try_drop targetObjects db =
     er_fold (deleteOneObject env try_drop) (map fst targetObjects) db"

definition spock_getObjectDescription ::
    "('f, 'm) repset_env_scheme \<Rightarrow> 'f repset_db \<Rightarrow> ObjectAddress \<Rightarrow> catalog_error + bytes option" where
  "spock_getObjectDescription env db object =
     (if classId object = replication_set_rel_oid env
      then res_bind (get_replication_set db (objectId object)) (\<lambda>repset.
             Inr (Some (cs ''replication set '' @ rs_name repset)))
      else if classId object = replication_set_table_rel_oid env \<or> classId object = replication_set_seq_rel_oid env
      then res_bind (get_replication_set db (objectId object)) (\<lambda>repset.
             Inr (Some ((case object_description env (whole_relation env (objectSubId object)) of
                           Some d \<Rightarrow> d | None \<Rightarrow> cs ''(null)'') @
                        cs '' membership in replication set '' @ rs_name repset)))
      else Inr (object_description env object))"

text \<open>The first argument bounds the depth of the recursion, here and in the search.\<close>

primrec spock_tryDropDependencies :: "nat \<Rightarrow> ('f, 'm) repset_env_scheme \<Rightarrow> 'f drop_deps" where
  "spock_tryDropDependencies 0 env object behavior db = None"
| "spock_tryDropDependencies (Suc n) env object behavior db =
     er_bind (findDependentObjects n env (db_depend db) object DEPFLAG_ORIGINAL [] []) (\<lambda>(_, targetObjects).
     er_bind (Some (reportDependentObjects env (spock_getObjectDescription env db) targetObjects behavior
                      NOTICE object)) (\<lambda>_.
     er_bind (deleteObjectsInList env (spock_tryDropDependencies n env) (butlast targetObjects) db) (\<lambda>db.
       Some (Inr (deleteOneObjectDepencencyRecord object db)))))"

text \<open>
  The drop of an object of the database, with the rows of \<open>local_sync_status\<close>.  \<open>relation_exists\<close> is
  the lookup of the relation in the system cache.
\<close>

definition spock_checkDependency ::
    "nat \<Rightarrow> ('f, 'm) repset_env_scheme \<Rightarrow> ObjectAddress \<Rightarrow> DropBehavior \<Rightarrow> 'f repset_db \<times> sync_tuple list
     \<Rightarrow> (catalog_error + ('f repset_db \<times> sync_tuple list)) option" where
  "spock_checkDependency n env object behavior = (\<lambda>(db, rows).
     if classId object \<noteq> RelationRelationId env then Some (Inr (db, rows))
     else er_bind (spock_tryDropDependencies n env object behavior db) (\<lambda>db.
       case open_rel env (objectId object) of
         None \<Rightarrow> Some (Inr (db, rows))
       | Some rel \<Rightarrow>
           if tr_plain_table rel
           then Some (Inr (db, drop_table_sync_status (tr_nspname rel) (tr_relname rel) rows))
           else Some (Inr (db, rows))))"

section \<open>How a table is replicated\<close>

text \<open>
  The cached answer.  A column list is \<^const>\<open>None\<close> when every column is replicated, otherwise the
  attribute numbers; the source keeps their distance to \<open>FirstLowInvalidHeapAttributeNumber\<close>.
\<close>

record 'f SpockTableRepInfo =
  ti_isvalid :: bool
  ti_replicate_insert :: bool
  ti_replicate_update :: bool
  ti_replicate_delete :: bool
  ti_replicate_truncate :: bool
  ti_att_list :: att_list
  ti_row_filter :: "'f list"

type_synonym 'f repset_cache = "(Oid, 'f SpockTableRepInfo) htab"

definition FirstLowInvalidHeapAttributeNumber :: int where "FirstLowInvalidHeapAttributeNumber = - 7"

fun get_att_num_by_name :: "pg_attribute list \<Rightarrow> bytes \<Rightarrow> catalog_error + int" where
  "get_att_num_by_name [] name = Inr FirstLowInvalidHeapAttributeNumber"
| "get_att_num_by_name (att # atts) name =
     (if attisdropped att then get_att_num_by_name atts name
      else if attname att = name then
        (if attgenerated att then Inl (Generated_column name) else Inr (attnum att))
      else get_att_num_by_name atts name)"

definition bms_add_member :: "att_list \<Rightarrow> int \<Rightarrow> att_list" where
  "bms_add_member a x = (case a of None \<Rightarrow> Some [x] | Some xs \<Rightarrow> Some (if x \<in> set xs then xs else xs @ [x]))"

fun add_columns :: "pg_attribute list \<Rightarrow> bytes list \<Rightarrow> att_list \<Rightarrow> catalog_error + att_list" where
  "add_columns desc [] acc = Inr acc"
| "add_columns desc (n # ns) acc =
     res_bind (get_att_num_by_name desc n) (\<lambda>k. add_columns desc ns (bms_add_member acc k))"

text \<open>One membership of the table against one set of the subscription.\<close>

definition add_membership ::
    "pg_attribute list \<Rightarrow> 'f RepSetTableTuple \<Rightarrow> SpockRepSet \<Rightarrow> 'f SpockTableRepInfo
     \<Rightarrow> catalog_error + 'f SpockTableRepInfo" where
  "add_membership desc t repset entry =
     (if rt_setid t \<noteq> rs_id repset then Inr entry
      else
        let entry = entry\<lparr>ti_replicate_insert := ti_replicate_insert entry \<or> rs_replicate_insert repset,
              ti_replicate_update := ti_replicate_update entry \<or> rs_replicate_update repset,
              ti_replicate_delete := ti_replicate_delete entry \<or> rs_replicate_delete repset,
              ti_replicate_truncate := ti_replicate_truncate entry \<or> rs_replicate_truncate repset\<rparr>
        in res_bind (case rt_att_list t of None \<Rightarrow> Inr (ti_att_list entry)
                     | Some names \<Rightarrow> add_columns desc names (ti_att_list entry)) (\<lambda>att_list.
          Inr (entry\<lparr>ti_att_list := att_list,
                     ti_row_filter := (case rt_row_filter t of None \<Rightarrow> ti_row_filter entry
                       | Some f \<Rightarrow> ti_row_filter entry @ [f])\<rparr>)))"

fun res_fold :: "('a \<Rightarrow> 's \<Rightarrow> 'e + 's) \<Rightarrow> 'a list \<Rightarrow> 's \<Rightarrow> 'e + 's" where
  "res_fold f [] s = Inr s"
| "res_fold f (x # xs) s = res_bind (f x s) (res_fold f xs)"

definition empty_info :: "'f SpockTableRepInfo" where
  "empty_info = \<lparr>ti_isvalid = False, ti_replicate_insert = False, ti_replicate_update = False,
     ti_replicate_delete = False, ti_replicate_truncate = False, ti_att_list = None, ti_row_filter = []\<rparr>"

definition fill_table_info ::
    "'f repset_db \<Rightarrow> Relation \<Rightarrow> SpockRepSet list \<Rightarrow> catalog_error + 'f SpockTableRepInfo" where
  "fill_table_info db table subs_replication_sets =
     res_bind (res_fold (\<lambda>t. res_fold (add_membership (rd_att table) t) subs_replication_sets)
                 (filter (\<lambda>t. rt_reloid t = rd_id table) (db_tables db)) empty_info)
       (\<lambda>entry. Inr (entry\<lparr>ti_isvalid := True\<rparr>))"

definition get_table_replication_info ::
    "'f repset_db \<Rightarrow> Relation \<Rightarrow> SpockRepSet list \<Rightarrow> 'f repset_cache
     \<Rightarrow> catalog_error + ('f SpockTableRepInfo \<times> 'f repset_cache)" where
  "get_table_replication_info db table subs_replication_sets cache =
     (case hash_find cache (rd_id table) of
        Some entry \<Rightarrow>
          if ti_isvalid entry then Inr (entry, cache)
          else res_bind (fill_table_info db table subs_replication_sets) (\<lambda>entry.
            Inr (entry, hash_put (rd_id table) entry cache))
      | None \<Rightarrow> res_bind (fill_table_info db table subs_replication_sets) (\<lambda>entry.
            Inr (entry, hash_put (rd_id table) entry cache)))"

definition invalidate_info :: "'f SpockTableRepInfo \<Rightarrow> 'f SpockTableRepInfo" where
  "invalidate_info entry = entry\<lparr>ti_isvalid := False, ti_att_list := None, ti_row_filter := []\<rparr>"

definition repset_relcache_invalidate_callback :: "Oid \<Rightarrow> 'f repset_cache \<Rightarrow> 'f repset_cache" where
  "repset_relcache_invalidate_callback reloid cache =
     (if reloid = InvalidOid then map (\<lambda>(k, v). (k, invalidate_info v)) cache
      else case hash_find cache reloid of
             None \<Rightarrow> cache
           | Some entry \<Rightarrow> hash_put reloid (invalidate_info entry) cache)"

end
