(* ===== verification/Spock_Node.thy ===== *)
theory Spock_Node
  imports Spock_Worker Spock_Repset
begin

text \<open>
  The catalogs of nodes, of their interfaces, of the local node and of subscriptions
  (\<open>src/spock_node.c\<close>), with the keys of the tables from \<open>sql/spock--6.0.0.sql\<close>.
\<close>

section \<open>Catalogs\<close>

record SpockInterface =
  if_id :: Oid
  if_name :: bytes
  if_nodeid :: Oid
  if_dsn :: bytes

text \<open>A row of \<open>spock.node\<close>; \<open>'j\<close> is the type of \<open>jsonb\<close> values.\<close>

record 'j node_tuple =
  nt_id :: Oid
  nt_name :: bytes
  nt_location :: "bytes option"
  nt_country :: "bytes option"
  nt_info :: "'j option"

record 'j SpockNode =
  node_id :: Oid
  node_name :: bytes
  node_location :: "bytes option"
  node_country :: "bytes option"
  node_jsonb :: "'j option"
  node_tiebreaker :: uint32

text \<open>A row of \<open>spock.subscription\<close>; \<open>'i\<close> is the type of intervals.\<close>

record 'i subscription_tuple =
  su_id :: Oid
  su_name :: bytes
  su_origin :: Oid
  su_target :: Oid
  su_origin_if :: Oid
  su_target_if :: Oid
  su_enabled :: bool
  su_slot_name :: bytes
  su_replication_sets :: "bytes list option"
  su_forward_origins :: "bytes list option"
  su_apply_delay :: "'i option"
  su_force_text_transfer :: bool
  su_skip_lsn :: XLogRecPtr
  su_skip_schema :: "bytes list option"
  su_created_at :: "TimestampTz option"

record ('j, 'i) SpockSubscription =
  sub_id :: Oid
  sub_name :: bytes
  sub_origin :: "'j SpockNode"
  sub_target :: "'j SpockNode"
  sub_origin_if :: SpockInterface
  sub_target_if :: SpockInterface
  sub_enabled :: bool
  sub_apply_delay :: "'i option"
  sub_slot_name :: bytes
  sub_replication_sets :: "bytes list"
  sub_forward_origins :: "bytes list"
  sub_force_text_transfer :: bool
  sub_skiplsn :: XLogRecPtr
  sub_skip_schema :: "bytes list"
  sub_created_at :: TimestampTz

text \<open>
  The catalogs, the sequence \<open>sub_id_generator\<close> (its next value) and the workers to be signalled at
  commit.
\<close>

record ('j, 'i) node_db =
  nd_nodes :: "'j node_tuple list"
  nd_ifs :: "SpockInterface list"
  nd_local :: "(Oid \<times> Oid) list"
  nd_subs :: "'i subscription_tuple list"
  nd_next_subid :: uint32
  nd_signals :: "signal_worker_item list"

text \<open>
  The server's part: the hashes, the text of the field \<open>tiebreaker\<close> of a \<open>jsonb\<close> object, and
  \<open>pg_strtoint32\<close>, \<^const>\<open>None\<close> where that raises.
\<close>

record 'j node_env =
  ne_hash_any :: "bytes \<Rightarrow> uint32"
  ne_hash_pair :: "uint32 \<Rightarrow> uint32 \<Rightarrow> uint32"
  ne_tiebreaker_field :: "'j \<Rightarrow> bytes option"
  ne_strtoint32 :: "bytes \<Rightarrow> uint32 option"
  ne_now :: TimestampTz

datatype node_error =
    Node_exists bytes
  | Node_id_collides Oid bytes
  | Node_not_found Oid
  | Node_name_not_found bytes
  | Tiebreaker_invalid bytes
  | Local_node_not_found
  | Local_node_exists
  | Interface_not_found Oid
  | Interface_name_not_found bytes Oid
  | Sub_name_too_short
  | Sub_name_too_long bytes
  | Sub_name_invalid bytes
  | Sub_exists bytes
  | Sub_not_found Oid
  | Sub_name_not_found bytes
  | Key_violation

section \<open>Nodes\<close>

definition node_fromtuple :: "'j node_env \<Rightarrow> 'j node_tuple \<Rightarrow> node_error + 'j SpockNode" where
  "node_fromtuple env t =
     (let node = \<lparr>node_id = nt_id t, node_name = nt_name t, node_location = nt_location t,
                  node_country = nt_country t, node_jsonb = nt_info t, node_tiebreaker = nt_id t\<rparr>
      in case nt_info t of
           None \<Rightarrow> Inr node
         | Some info \<Rightarrow>
             (case ne_tiebreaker_field env info of
                None \<Rightarrow> Inr node
              | Some text \<Rightarrow>
                  (case ne_strtoint32 env text of
                     None \<Rightarrow> Inl (Tiebreaker_invalid text)
                   | Some intval \<Rightarrow> Inr (node\<lparr>node_tiebreaker := intval\<rparr>))))"

text \<open>A node that may be missing, from the first row a scan finds.\<close>

definition node_of_row ::
    "'j node_env \<Rightarrow> 'j node_tuple option \<Rightarrow> bool \<Rightarrow> node_error \<Rightarrow> node_error + 'j SpockNode option" where
  "node_of_row env row missing_ok err =
     (case row of
        None \<Rightarrow> if missing_ok then Inr None else Inl err
      | Some t \<Rightarrow> res_bind (node_fromtuple env t) (\<lambda>n. Inr (Some n)))"

definition get_node :: "'j node_env \<Rightarrow> ('j, 'i) node_db \<Rightarrow> Oid \<Rightarrow> bool \<Rightarrow> node_error + 'j SpockNode option" where
  "get_node env db nodeid missing_ok =
     node_of_row env (find (\<lambda>t. nt_id t = nodeid) (nd_nodes db)) missing_ok (Node_not_found nodeid)"

definition get_node_by_name ::
    "'j node_env \<Rightarrow> ('j, 'i) node_db \<Rightarrow> bytes \<Rightarrow> bool \<Rightarrow> node_error + 'j SpockNode option" where
  "get_node_by_name env db name missing_ok =
     node_of_row env (find (\<lambda>t. nt_name t = name) (nd_nodes db)) missing_ok (Node_name_not_found name)"

text \<open>\<open>CatalogTupleInsert\<close> into a table with the given keys.\<close>

definition insert_row :: "('r \<Rightarrow> 'r \<Rightarrow> bool) \<Rightarrow> 'r \<Rightarrow> 'r list \<Rightarrow> node_error + 'r list" where
  "insert_row clash row rows = (if list_ex (clash row) rows then Inl Key_violation else Inr (rows @ [row]))"

definition node_clash :: "'j node_tuple \<Rightarrow> 'j node_tuple \<Rightarrow> bool" where
  "node_clash a b \<longleftrightarrow> nt_id a = nt_id b \<or> nt_name a = nt_name b"

definition if_clash :: "SpockInterface \<Rightarrow> SpockInterface \<Rightarrow> bool" where
  "if_clash a b \<longleftrightarrow> if_id a = if_id b \<or> if_nodeid a = if_nodeid b \<and> if_name a = if_name b"

definition sub_clash :: "'i subscription_tuple \<Rightarrow> 'i subscription_tuple \<Rightarrow> bool" where
  "sub_clash a b \<longleftrightarrow> su_id a = su_id b \<or> su_name a = su_name b"

text \<open>The result is the id of the node, which the source stores in its argument.\<close>

definition create_node ::
    "'j node_env \<Rightarrow> 'j node_tuple \<Rightarrow> ('j, 'i) node_db \<Rightarrow> node_error + Oid \<times> ('j, 'i) node_db" where
  "create_node env node db =
     res_bind (get_node_by_name env db (nt_name node) True) (\<lambda>same_name.
       if same_name \<noteq> None then Inl (Node_exists (nt_name node))
       else
         let id = (if nt_id node = InvalidOid then ne_hash_any env (nt_name node) AND 0xffff else nt_id node)
         in res_bind (get_node env db id True) (\<lambda>existing.
              case existing of
                Some other \<Rightarrow> Inl (Node_id_collides id (node_name other))
              | None \<Rightarrow>
                  res_bind (insert_row node_clash
                              (node\<lparr>nt_id := id, nt_name := namestrcpy (nt_name node)\<rparr>) (nd_nodes db)) (\<lambda>rows.
                    Inr (id, db\<lparr>nd_nodes := rows,
                                nd_signals := spock_subscription_changed InvalidOid False (nd_signals db)\<rparr>))))"

text \<open>Deleting the first row a scan by key finds.\<close>

fun delete_first :: "('r \<Rightarrow> bool) \<Rightarrow> 'r list \<Rightarrow> 'r list option" where
  "delete_first p [] = None"
| "delete_first p (r # rows) = (if p r then Some rows else map_option ((#) r) (delete_first p rows))"

definition drop_node :: "Oid \<Rightarrow> ('j, 'i) node_db \<Rightarrow> node_error + ('j, 'i) node_db" where
  "drop_node nodeid db =
     (case delete_first (\<lambda>t. nt_id t = nodeid) (nd_nodes db) of
        None \<Rightarrow> Inl (Node_not_found nodeid)
      | Some rows \<Rightarrow> Inr (db\<lparr>nd_nodes := rows,
          nd_signals := spock_subscription_changed InvalidOid False (nd_signals db)\<rparr>))"

section \<open>Interfaces\<close>

definition create_node_interface ::
    "'j node_env \<Rightarrow> SpockInterface \<Rightarrow> ('j, 'i) node_db \<Rightarrow> node_error + Oid \<times> ('j, 'i) node_db" where
  "create_node_interface env nodeif db =
     (let id = (if if_id nodeif = InvalidOid
                then ne_hash_pair env (if_nodeid nodeif) (ne_hash_any env (if_name nodeif))
                else if_id nodeif)
      in res_bind (insert_row if_clash (nodeif\<lparr>if_id := id, if_name := namestrcpy (if_name nodeif)\<rparr>) (nd_ifs db))
           (\<lambda>rows. Inr (id, db\<lparr>nd_ifs := rows\<rparr>)))"

definition drop_node_interface :: "Oid \<Rightarrow> ('j, 'i) node_db \<Rightarrow> node_error + ('j, 'i) node_db" where
  "drop_node_interface ifid db =
     (case delete_first (\<lambda>t. if_id t = ifid) (nd_ifs db) of
        None \<Rightarrow> Inl (Interface_not_found ifid)
      | Some rows \<Rightarrow> Inr (db\<lparr>nd_ifs := rows\<rparr>))"

definition drop_node_interfaces :: "Oid \<Rightarrow> ('j, 'i) node_db \<Rightarrow> ('j, 'i) node_db" where
  "drop_node_interfaces nodeid db = db\<lparr>nd_ifs := filter (\<lambda>t. if_nodeid t \<noteq> nodeid) (nd_ifs db)\<rparr>"

definition get_node_interface :: "('j, 'i) node_db \<Rightarrow> Oid \<Rightarrow> node_error + SpockInterface" where
  "get_node_interface db ifid =
     (case find (\<lambda>t. if_id t = ifid) (nd_ifs db) of None \<Rightarrow> Inl (Interface_not_found ifid) | Some t \<Rightarrow> Inr t)"

definition get_node_interface_by_name ::
    "('j, 'i) node_db \<Rightarrow> Oid \<Rightarrow> bytes \<Rightarrow> bool \<Rightarrow> node_error + SpockInterface option" where
  "get_node_interface_by_name db nodeid name missing_ok =
     (case find (\<lambda>t. if_nodeid t = nodeid \<and> if_name t = name) (nd_ifs db) of
        Some t \<Rightarrow> Inr (Some t)
      | None \<Rightarrow> if missing_ok then Inr None else Inl (Interface_name_not_found name nodeid))"

section \<open>The local node\<close>

text \<open>\<open>get_local_node\<close>; the row is the first of \<open>spock.local_node\<close>.\<close>

definition get_local_node ::
    "'j node_env \<Rightarrow> ('j, 'i) node_db \<Rightarrow> bool \<Rightarrow> node_error + ('j SpockNode \<times> SpockInterface) option" where
  "get_local_node env db missing_ok =
     (case nd_local db of
        [] \<Rightarrow> if missing_ok then Inr None else Inl Local_node_not_found
      | (nodeid, ifid) # _ \<Rightarrow>
          res_bind (get_node env db nodeid False) (\<lambda>node.
            case node of None \<Rightarrow> Inl (Node_not_found nodeid)
            | Some node \<Rightarrow> res_bind (get_node_interface db ifid) (\<lambda>node_if. Inr (Some (node, node_if)))))"

definition create_local_node ::
    "'j node_env \<Rightarrow> Oid \<Rightarrow> Oid \<Rightarrow> ('j, 'i) node_db \<Rightarrow> node_error + ('j, 'i) node_db" where
  "create_local_node env nodeid ifid db =
     res_bind (get_local_node env db True) (\<lambda>local.
       if local \<noteq> None then Inl Local_node_exists
       else res_bind (insert_row (\<lambda>a b. fst a = fst b) (nodeid, ifid) (nd_local db)) (\<lambda>rows.
              Inr (db\<lparr>nd_local := rows\<rparr>)))"

definition drop_local_node :: "('j, 'i) node_db \<Rightarrow> node_error + ('j, 'i) node_db" where
  "drop_local_node db =
     (case nd_local db of [] \<Rightarrow> Inl Local_node_not_found | _ # rows \<Rightarrow> Inr (db\<lparr>nd_local := rows\<rparr>))"

section \<open>Subscriptions\<close>

definition name_char :: "byte \<Rightarrow> bool" where
  "name_char c \<longleftrightarrow> (ch CHR ''a'' \<le> c \<and> c \<le> ch CHR ''z'') \<or> (ch CHR ''0'' \<le> c \<and> c \<le> ch CHR ''9'') \<or> c = ch CHR ''_''"

definition validate_subscription_name :: "bytes \<Rightarrow> node_error + unit" where
  "validate_subscription_name name =
     (if length name = 0 then Inl Sub_name_too_short
      else if length name \<ge> NAMEDATALEN then Inl (Sub_name_too_long name)
      else if \<not> list_all name_char name then Inl (Sub_name_invalid name)
      else Inr ())"

text \<open>
  \<open>nextval\<close> of \<open>sub_id_generator\<close>, an integer sequence from 1 that cycles.
\<close>

definition generate_subscription_id :: "('j, 'i) node_db \<Rightarrow> Oid \<times> ('j, 'i) node_db" where
  "generate_subscription_id db =
     (let val = nd_next_subid db
      in (val, db\<lparr>nd_next_subid := (if val = 0x7fffffff then 1 else val + 1)\<rparr>))"

definition null_if_empty :: "bytes list \<Rightarrow> bytes list option" where
  "null_if_empty l = (if l = [] then None else Some l)"

definition list_of_null :: "bytes list option \<Rightarrow> bytes list" where
  "list_of_null a = (case a of None \<Rightarrow> [] | Some l \<Rightarrow> l)"

text \<open>Reading the rows it refers to, with \<open>missing_ok\<close> false.\<close>

definition need_node :: "'j node_env \<Rightarrow> ('j, 'i) node_db \<Rightarrow> Oid \<Rightarrow> node_error + 'j SpockNode" where
  "need_node env db nodeid = res_bind (get_node env db nodeid False) (\<lambda>n.
     case n of None \<Rightarrow> Inl (Node_not_found nodeid) | Some n \<Rightarrow> Inr n)"

definition subscription_fromtuple ::
    "'j node_env \<Rightarrow> ('j, 'i) node_db \<Rightarrow> 'i subscription_tuple \<Rightarrow> node_error + ('j, 'i) SpockSubscription" where
  "subscription_fromtuple env db t =
     res_bind (need_node env db (su_origin t)) (\<lambda>origin.
     res_bind (need_node env db (su_target t)) (\<lambda>target.
     res_bind (get_node_interface db (su_origin_if t)) (\<lambda>origin_if.
     res_bind (get_node_interface db (su_target_if t)) (\<lambda>target_if.
       Inr \<lparr>sub_id = su_id t, sub_name = su_name t, sub_origin = origin, sub_target = target,
            sub_origin_if = origin_if, sub_target_if = target_if, sub_enabled = su_enabled t,
            sub_apply_delay = su_apply_delay t, sub_slot_name = su_slot_name t,
            sub_replication_sets = list_of_null (su_replication_sets t),
            sub_forward_origins = list_of_null (su_forward_origins t),
            sub_force_text_transfer = su_force_text_transfer t, sub_skiplsn = su_skip_lsn t,
            sub_skip_schema = list_of_null (su_skip_schema t),
            sub_created_at = (case su_created_at t of None \<Rightarrow> 0 | Some ts \<Rightarrow> ts)\<rparr>))))"

definition get_subscription ::
    "'j node_env \<Rightarrow> ('j, 'i) node_db \<Rightarrow> Oid \<Rightarrow> node_error + ('j, 'i) SpockSubscription" where
  "get_subscription env db subid =
     (case find (\<lambda>t. su_id t = subid) (nd_subs db) of
        None \<Rightarrow> Inl (Sub_not_found subid)
      | Some t \<Rightarrow> subscription_fromtuple env db t)"

definition get_subscription_by_name ::
    "'j node_env \<Rightarrow> ('j, 'i) node_db \<Rightarrow> bytes \<Rightarrow> bool \<Rightarrow> node_error + ('j, 'i) SpockSubscription option" where
  "get_subscription_by_name env db name missing_ok =
     (case find (\<lambda>t. su_name t = name) (nd_subs db) of
        None \<Rightarrow> if missing_ok then Inr None else Inl (Sub_name_not_found name)
      | Some t \<Rightarrow> res_bind (subscription_fromtuple env db t) (\<lambda>sub. Inr (Some sub)))"

definition get_node_subscriptions ::
    "'j node_env \<Rightarrow> ('j, 'i) node_db \<Rightarrow> Oid \<Rightarrow> bool \<Rightarrow> node_error + ('j, 'i) SpockSubscription list" where
  "get_node_subscriptions env db nodeid origin =
     res_map (subscription_fromtuple env db)
       (filter (\<lambda>t. (if origin then su_origin t else su_target t) = nodeid) (nd_subs db))"

text \<open>The row that \<open>create_subscription\<close> and \<open>alter_subscription\<close> form from a subscription.\<close>

definition sub_row :: "('j, 'i) SpockSubscription \<Rightarrow> Oid \<Rightarrow> bytes \<Rightarrow> TimestampTz option \<Rightarrow> 'i subscription_tuple" where
  "sub_row sub newid name created_at =
     \<lparr>su_id = newid, su_name = name, su_origin = if_nodeid (sub_origin_if sub),
      su_target = if_nodeid (sub_target_if sub), su_origin_if = if_id (sub_origin_if sub),
      su_target_if = if_id (sub_target_if sub), su_enabled = sub_enabled sub,
      su_slot_name = namestrcpy (sub_slot_name sub),
      su_replication_sets = null_if_empty (sub_replication_sets sub),
      su_forward_origins = null_if_empty (sub_forward_origins sub),
      su_apply_delay = sub_apply_delay sub, su_force_text_transfer = sub_force_text_transfer sub,
      su_skip_lsn = sub_skiplsn sub, su_skip_schema = null_if_empty (sub_skip_schema sub),
      su_created_at = created_at\<rparr>"

definition create_subscription ::
    "'j node_env \<Rightarrow> ('j, 'i) SpockSubscription \<Rightarrow> ('j, 'i) node_db \<Rightarrow> node_error + Oid \<times> ('j, 'i) node_db" where
  "create_subscription env sub db =
     res_bind (validate_subscription_name (sub_name sub)) (\<lambda>_.
     res_bind (get_subscription_by_name env db (sub_name sub) True) (\<lambda>same_name.
       if same_name \<noteq> None then Inl (Sub_exists (sub_name sub))
       else
         let (newid, db) = (if sub_id sub = InvalidOid then generate_subscription_id db else (sub_id sub, db))
         in res_bind (insert_row sub_clash
                        (sub_row sub newid (namestrcpy (sub_name sub)) (Some (ne_now env))) (nd_subs db)) (\<lambda>rows.
              Inr (newid, db\<lparr>nd_subs := rows, nd_signals := spock_subscription_changed newid True (nd_signals db)\<rparr>))))"

text \<open>
  \<open>alter_subscription\<close> keeps the id, the name and the time of creation of the row.
\<close>

definition alter_subscription ::
    "('j, 'i) SpockSubscription \<Rightarrow> ('j, 'i) node_db \<Rightarrow> node_error + ('j, 'i) node_db" where
  "alter_subscription sub db =
     (case update_first (\<lambda>t. su_id t = sub_id sub)
             (\<lambda>t. sub_row sub (su_id t) (su_name t) (su_created_at t)) (nd_subs db) of
        None \<Rightarrow> Inl (Sub_not_found (sub_id sub))
      | Some rows \<Rightarrow> Inr (db\<lparr>nd_subs := rows,
          nd_signals := spock_subscription_changed (sub_id sub) True (nd_signals db)\<rparr>))"

definition drop_subscription :: "Oid \<Rightarrow> ('j, 'i) node_db \<Rightarrow> node_error + ('j, 'i) node_db" where
  "drop_subscription subid db =
     (case delete_first (\<lambda>t. su_id t = subid) (nd_subs db) of
        None \<Rightarrow> Inl (Sub_not_found subid)
      | Some rows \<Rightarrow> Inr (db\<lparr>nd_subs := rows,
          nd_signals := spock_subscription_changed subid True (nd_signals db)\<rparr>))"

end
