(* ===== verification/Spock_Functions.thy ===== *)
theory Spock_Functions
  imports Spock_Node Spock_Group
begin

text \<open>
  The SQL functions that manage nodes, subscriptions and replication sets
  (\<open>src/spock_functions.c\<close>), over the catalogs of \<open>Spock_Node\<close>, \<open>Spock_Repset\<close> and \<open>Spock_Sync\<close>.  An
  error aborts the transaction, so a function returns an error or the new state.
\<close>

section \<open>State\<close>

record repl_slot =
  slot_name :: bytes
  slot_plugin :: bytes
  slot_database :: bytes
  slot_active :: bool

text \<open>
  \<open>sd_queue\<close> is the table \<open>spock.queue\<close>, \<open>sd_slots\<close> and \<open>sd_origins\<close> the replication slots and origins of
  the server, \<open>sd_signals\<close> the signals sent to workers, \<open>sd_truncated\<close> the tables handed to
  \<open>truncate_table\<close>.
\<close>

record ('j, 'i, 'f) spock_db =
  sd_node :: "('j, 'i) node_db"
  sd_repset :: "'f repset_db"
  sd_sync :: "sync_tuple list"
  sd_queue :: "queue_tuple list"
  sd_slots :: "repl_slot list"
  sd_origins :: "bytes list"
  sd_groups :: group_hash
  sd_signals :: "worker_signal list"
  sd_truncated :: "(bytes \<times> bytes) list"

datatype sql_error =
    Sql_node node_error
  | Sql_catalog catalog_error
  | Sql_sync sync_error
  | Sql_group group_error
  | Sql_queue queue_error
  | Not_a_node
  | Node_has_subscriptions bytes
  | Slots_active bytes
  | Interface_exists bytes
  | Interface_unknown bytes
  | Interface_in_use bytes bytes
  | Connection_failed
  | Structure_sync_unsupported
  | Dsn_differs bytes bytes
  | Disabled_cannot_sync
  | Origin_exists bytes
  | In_transaction_block
  | Argument_null bytes
  | Options_not_object
  | Options_unexpected_token
  | Option_not_array bytes
  | Option_not_string bytes
  | Option_invalid_origin bytes
  | Option_invalid_delay bytes
  | Option_unrecognized bytes
  | Read_only_mode
  | Already_synchronizing bytes bytes
  | Column_missing bytes
  | Identity_not_replicated
  | Row_filter_invalid
  | Unsupported_relkind byte
  | Schema_missing bytes

text \<open>
  The server and the session.  \<open>se_remote\<close> answers for the provider of a new subscription: whether
  the two kinds of connection and the local one can be made, whether its version allows a dump of
  its schema, and the node it says it is.
\<close>

record 'j remote_provider =
  rp_connect :: bool
  rp_replica :: bool
  rp_local :: bool
  rp_structure :: bool
  rp_node :: "'j node_tuple"

record rel_class =
  rc_oid :: Oid
  rc_relname :: bytes
  rc_relkind :: byte
  rc_permanent :: bool
  rc_system :: bool
  rc_partition :: bool

text \<open>
  A statement that the parser returns, as far as \<open>parse_row_filter\<close> looks: the clauses are whether they
  are there.
\<close>

record 'f res_target =
  tg_is_ResTarget :: bool
  tg_name :: bool
  tg_indirection :: bool
  tg_val :: "'f option"

record 'f select_stmt =
  ss_is_SelectStmt :: bool
  ss_clauses :: "bool list"
  ss_setop :: bool
  ss_targetList :: "'f res_target list"

record ('j, 'i, 'f) sql_env =
  se_node :: "'j node_env"
  se_repset :: "'f repset_env"
  se_depth :: nat
  se_dboid :: Oid
  se_dbname :: bytes
  se_role :: bytes
  se_now :: TimestampTz
  se_room :: "group_hash \<Rightarrow> bool"
  se_workers :: SpockContext
  se_remote :: "bytes \<Rightarrow> 'j remote_provider"
  se_in_transaction :: bool
  se_interval_in :: "bytes \<Rightarrow> 'i option"
  se_readonly :: bool
  se_escape_json :: "bytes \<Rightarrow> bytes"
  se_json_valid :: "bytes \<Rightarrow> bool"
  se_rel_name :: "Oid \<Rightarrow> bytes \<times> bytes"
  se_inheritors :: "Oid \<Rightarrow> Oid list"
  se_relkind :: "Oid \<Rightarrow> byte"
  se_ispartition :: "Oid \<Rightarrow> bool"
  se_namespace :: "bytes \<Rightarrow> rel_class list option"
  se_table_open :: "Oid \<Rightarrow> Relation option"
  se_quote_qualified :: "bytes \<Rightarrow> bytes \<Rightarrow> bytes"
  se_parse_query :: "bytes \<Rightarrow> 'f select_stmt list option"
  se_transform_filter :: "Relation \<Rightarrow> 'f \<Rightarrow> ('f \<times> nat) option"
  se_simple_filter :: "'f \<Rightarrow> bool"

definition in_node :: "(node_error + 'a) \<Rightarrow> sql_error + 'a" where "in_node = map_sum Sql_node id"
definition in_catalog :: "(catalog_error + 'a) \<Rightarrow> sql_error + 'a" where "in_catalog = map_sum Sql_catalog id"
definition in_sync :: "(sync_error + 'a) \<Rightarrow> sql_error + 'a" where "in_sync = map_sum Sql_sync id"
definition in_group :: "(group_error + 'a) \<Rightarrow> sql_error + 'a" where "in_group = map_sum Sql_group id"
definition in_queue :: "(queue_error + 'a) \<Rightarrow> sql_error + 'a" where "in_queue = map_sum Sql_queue id"

lemmas in_defs = in_node_def in_catalog_def in_sync_def in_group_def in_queue_def

definition need :: "'e \<Rightarrow> 'e + 'a option \<Rightarrow> 'e + 'a" where
  "need err m = res_bind m (\<lambda>x. case x of None \<Rightarrow> Inl err | Some a \<Rightarrow> Inr a)"

section \<open>Slot names\<close>

definition hex_lower :: "nat \<Rightarrow> byte" where
  "hex_lower n = (if n < 10 then word_of_nat (48 + n) else word_of_nat (87 + n))"

text \<open>\<open>%08x\<close>.\<close>

definition show_hex8 :: "uint32 \<Rightarrow> bytes" where
  "show_hex8 w = map (\<lambda>i. hex_lower (unat w div 16 ^ i mod 16)) (rev [0..<8])"

text \<open>\<open>snprintf (ret, maxlen, \<dots>)\<close> leaves the last byte to the terminating NUL.\<close>

definition shorten_hash :: "(bytes \<Rightarrow> uint32) \<Rightarrow> bytes \<Rightarrow> nat \<Rightarrow> bytes" where
  "shorten_hash hash str maxlen =
     (if length str \<le> maxlen then str
      else take (maxlen - 1) (take (maxlen - 8) str @ show_hex8 (hash str)))"

definition gen_slot_name :: "(bytes \<Rightarrow> uint32) \<Rightarrow> bytes \<Rightarrow> bytes \<Rightarrow> bytes \<Rightarrow> bytes" where
  "gen_slot_name hash dbname provider_node subscription_name =
     map (\<lambda>c. if name_char c then c else ch CHR ''_'')
       (take (NAMEDATALEN - 1)
         (cs ''spk_'' @ shorten_hash hash dbname 16 @ cs ''_'' @ shorten_hash hash provider_node 16 @
          cs ''_'' @ shorten_hash hash subscription_name 16))"

section \<open>Nodes\<close>

definition check_local_node ::
    "('j, 'i, 'f) sql_env \<Rightarrow> ('j, 'i, 'f) spock_db \<Rightarrow> sql_error + 'j SpockNode \<times> SpockInterface" where
  "check_local_node env db = need Not_a_node (in_node (get_local_node (se_node env) (sd_node db) True))"

definition required_local_node ::
    "('j, 'i, 'f) sql_env \<Rightarrow> ('j, 'i, 'f) spock_db \<Rightarrow> sql_error + 'j SpockNode \<times> SpockInterface" where
  "required_local_node env db =
     need (Sql_node Local_node_not_found) (in_node (get_local_node (se_node env) (sd_node db) False))"

definition DEFAULT_REPSET_NAME :: bytes where "DEFAULT_REPSET_NAME = cs ''default''"
definition DEFAULT_INSONLY_REPSET_NAME :: bytes where "DEFAULT_INSONLY_REPSET_NAME = cs ''default_insert_only''"
definition DDL_SQL_REPSET_NAME :: bytes where "DDL_SQL_REPSET_NAME = cs ''ddl_sql''"

definition predefined_set :: "Oid \<Rightarrow> bytes \<Rightarrow> bool \<Rightarrow> bool \<Rightarrow> SpockRepSet" where
  "predefined_set nodeid name upd trunc =
     \<lparr>rs_id = InvalidOid, rs_nodeid = nodeid, rs_name = name, rs_replicate_insert = True,
      rs_replicate_update = upd, rs_replicate_delete = upd, rs_replicate_truncate = trunc\<rparr>"

text \<open>The name or the DSN may be NULL: then the function returns NULL.\<close>

definition spock_create_node ::
    "('j, 'i, 'f) sql_env \<Rightarrow> bytes option \<Rightarrow> bytes option \<Rightarrow> bytes option \<Rightarrow> bytes option \<Rightarrow> 'j option
     \<Rightarrow> ('j, 'i, 'f) spock_db \<Rightarrow> sql_error + Oid option \<times> ('j, 'i, 'f) spock_db" where
  "spock_create_node env name dsn location country info db =
     (case (name, dsn) of
        (Some nname, Some node_dsn) \<Rightarrow>
          res_bind (in_node (create_node (se_node env)
              \<lparr>nt_id = InvalidOid, nt_name = nname, nt_location = location, nt_country = country,
               nt_info = info\<rparr> (sd_node db))) (\<lambda>(nodeid, nodes).
          res_bind (in_node (create_node_interface (se_node env)
              \<lparr>if_id = InvalidOid, if_name = nname, if_nodeid = nodeid, if_dsn = node_dsn\<rparr> nodes)) (\<lambda>(ifid, nodes).
          res_bind (in_catalog (res_fold (create_replication_set (se_repset env))
              [predefined_set nodeid DEFAULT_REPSET_NAME True True,
               predefined_set nodeid DEFAULT_INSONLY_REPSET_NAME False True,
               predefined_set nodeid DDL_SQL_REPSET_NAME False False] (sd_repset db))) (\<lambda>sets.
          res_bind (in_node (create_local_node (se_node env) nodeid ifid nodes)) (\<lambda>nodes.
            Inr (Some nodeid, db\<lparr>sd_node := nodes, sd_repset := sets\<rparr>)))))
      | _ \<Rightarrow> Inr (None, db))"

definition contains_spk :: "bytes \<Rightarrow> bool" where
  "contains_spk name = list_ex (\<lambda>i. take 4 (drop i name) = cs ''spk_'') [0..<length name]"

text \<open>The slots that the query of \<open>spock_drop_node\<close> selects.\<close>

definition own_slot :: "bytes \<Rightarrow> repl_slot \<Rightarrow> bool" where
  "own_slot dbname s \<longleftrightarrow> slot_plugin s \<in> {cs ''spock_output'', cs ''spock''} \<and> slot_database s = dbname \<and>
     contains_spk (slot_name s)"

definition in_catalog_fuel :: "(catalog_error + 'a) option \<Rightarrow> (sql_error + 'a) option" where
  "in_catalog_fuel m = map_option in_catalog m"

definition spock_drop_node ::
    "('j, 'i, 'f) sql_env \<Rightarrow> bytes \<Rightarrow> bool \<Rightarrow> ('j, 'i, 'f) spock_db
     \<Rightarrow> (sql_error + bool \<times> ('j, 'i, 'f) spock_db) option" where
  "spock_drop_node env nname ifexists db =
     er_bind (Some (in_node (get_node_by_name (se_node env) (sd_node db) nname ifexists))) (\<lambda>found.
     case found of
       None \<Rightarrow> Some (Inr (False, db))
     | Some node \<Rightarrow>
         er_bind (Some (in_node (get_node_subscriptions (se_node env) (sd_node db) (node_id node) True))) (\<lambda>osubs.
         er_bind (Some (in_node (get_node_subscriptions (se_node env) (sd_node db) (node_id node) False))) (\<lambda>tsubs.
           if osubs \<noteq> [] \<or> tsubs \<noteq> [] then Some (Inl (Node_has_subscriptions nname))
           else
             er_bind (Some (in_node (get_local_node (se_node env) (sd_node db) True))) (\<lambda>local.
             er_bind (if local \<noteq> None \<and> node_id (fst (the local)) = node_id node
                      then if list_ex (\<lambda>s. own_slot (se_dbname env) s \<and> slot_active s) (sd_slots db)
                           then Some (Inl (Slots_active nname))
                           else er_bind (Some (in_node (drop_local_node (sd_node db)))) (\<lambda>nodes.
                             Some (Inr (db\<lparr>sd_node := nodes,
                                sd_slots := filter (\<lambda>s. \<not> own_slot (se_dbname env) s) (sd_slots db)\<rparr>)))
                      else Some (Inr db)) (\<lambda>db.
             let nodes = drop_node_interfaces (node_id node) (sd_node db)
             in er_bind (in_catalog_fuel (drop_node_replication_sets (se_repset env)
                           (spock_tryDropDependencies (se_depth env) (se_repset env)) (node_id node) (sd_repset db))) (\<lambda>sets.
                er_bind (Some (in_node (drop_node (node_id node) nodes))) (\<lambda>nodes.
                  Some (Inr (True, db\<lparr>sd_node := nodes, sd_repset := sets\<rparr>)))))))))"

definition spock_alter_node_add_interface ::
    "('j, 'i, 'f) sql_env \<Rightarrow> bytes \<Rightarrow> bytes \<Rightarrow> bytes \<Rightarrow> ('j, 'i, 'f) spock_db
     \<Rightarrow> sql_error + Oid \<times> ('j, 'i, 'f) spock_db" where
  "spock_alter_node_add_interface env nname name dsn db =
     res_bind (need (Sql_node (Node_name_not_found nname))
                (in_node (get_node_by_name (se_node env) (sd_node db) nname False))) (\<lambda>node.
     res_bind (in_node (get_node_interface_by_name (sd_node db) (node_id node) name True)) (\<lambda>oldif.
       if oldif \<noteq> None then Inl (Interface_exists name)
       else res_bind (in_node (create_node_interface (se_node env)
              \<lparr>if_id = InvalidOid, if_name = name, if_nodeid = node_id node, if_dsn = dsn\<rparr> (sd_node db)))
            (\<lambda>(ifid, nodes). Inr (ifid, db\<lparr>sd_node := nodes\<rparr>))))"

definition spock_alter_node_drop_interface ::
    "('j, 'i, 'f) sql_env \<Rightarrow> bytes \<Rightarrow> bytes \<Rightarrow> ('j, 'i, 'f) spock_db
     \<Rightarrow> sql_error + bool \<times> ('j, 'i, 'f) spock_db" where
  "spock_alter_node_drop_interface env nname name db =
     res_bind (need (Sql_node (Node_name_not_found nname))
                (in_node (get_node_by_name (se_node env) (sd_node db) nname False))) (\<lambda>node.
     res_bind (need (Interface_unknown name)
                (in_node (get_node_interface_by_name (sd_node db) (node_id node) name True))) (\<lambda>oldif.
     res_bind (in_node (get_node_subscriptions (se_node env) (sd_node db) (node_id node) True)) (\<lambda>other_subs.
       case find (\<lambda>sub. if_id oldif = if_id (sub_origin_if sub)) other_subs of
         Some sub \<Rightarrow> Inl (Interface_in_use name (sub_name sub))
       | None \<Rightarrow> res_bind (in_node (drop_node_interface (if_id oldif) (sd_node db))) (\<lambda>nodes.
           Inr (True, db\<lparr>sd_node := nodes\<rparr>)))))"

section \<open>Subscriptions\<close>

definition sync_kind_of :: "bool \<Rightarrow> bool \<Rightarrow> byte" where
  "sync_kind_of sync_structure sync_data =
     (if sync_structure \<and> sync_data then SYNC_KIND_FULL
      else if sync_structure then SYNC_KIND_STRUCTURE
      else if sync_data then SYNC_KIND_DATA
      else SYNC_KIND_INIT)"

text \<open>
  The origin of a new subscription: its record is created, or an existing one is taken if the DSN is
  the same.
\<close>

definition subscription_origin ::
    "('j, 'i, 'f) sql_env \<Rightarrow> bytes \<Rightarrow> 'j node_tuple \<Rightarrow> ('j, 'i) node_db
     \<Rightarrow> sql_error + SpockInterface \<times> ('j, 'i) node_db" where
  "subscription_origin env provider_dsn origin nodes =
     res_bind (in_node (get_node_by_name (se_node env) nodes (nt_name origin) True)) (\<lambda>existing.
       case existing of
         None \<Rightarrow>
           res_bind (in_node (create_node (se_node env) origin nodes)) (\<lambda>(nodeid, nodes).
             let nodeif = \<lparr>if_id = InvalidOid, if_name = nt_name origin, if_nodeid = nodeid, if_dsn = provider_dsn\<rparr>
             in res_bind (in_node (create_node_interface (se_node env) nodeif nodes)) (\<lambda>(ifid, nodes).
                  Inr (nodeif\<lparr>if_id := ifid\<rparr>, nodes)))
       | Some _ \<Rightarrow>
           res_bind (need (Interface_unknown (nt_name origin))
               (in_node (get_node_interface_by_name nodes (nt_id origin) (nt_name origin) False))) (\<lambda>existingif.
             if if_dsn existingif \<noteq> provider_dsn then Inl (Dsn_differs provider_dsn (if_dsn existingif))
             else Inr (existingif, nodes)))"

text \<open>
  The subscription that is formed.  The nodes of the record, and the name and DSN of the target's
  interface, are left unset in the source and not read by \<open>create_subscription\<close>.
\<close>

definition new_subscription ::
    "bytes \<Rightarrow> SpockInterface \<Rightarrow> 'j SpockNode \<Rightarrow> SpockInterface \<Rightarrow> bytes list \<Rightarrow> bytes list \<Rightarrow> 'i \<Rightarrow> bool
     \<Rightarrow> bool \<Rightarrow> bytes list \<Rightarrow> bytes \<Rightarrow> ('j, 'i) SpockSubscription" where
  "new_subscription name originif localnode local_if sets origins delay force_text enabled skip slot =
     \<lparr>sub_id = InvalidOid, sub_name = name, sub_origin = localnode, sub_target = localnode,
      sub_origin_if = originif,
      sub_target_if = local_if\<lparr>if_nodeid := node_id localnode\<rparr>,
      sub_enabled = enabled, sub_apply_delay = Some delay, sub_slot_name = slot,
      sub_replication_sets = sets, sub_forward_origins = origins, sub_force_text_transfer = force_text,
      sub_skiplsn = InvalidXLogRecPtr, sub_skip_schema = skip, sub_created_at = 0\<rparr>"

definition spock_create_subscription ::
    "('j, 'i, 'f) sql_env \<Rightarrow> bytes \<Rightarrow> bytes \<Rightarrow> bytes list \<Rightarrow> bool \<Rightarrow> bool \<Rightarrow> bytes list \<Rightarrow> 'i \<Rightarrow> bool \<Rightarrow> bool
     \<Rightarrow> bytes list \<Rightarrow> ('j, 'i, 'f) spock_db \<Rightarrow> sql_error + Oid \<times> ('j, 'i, 'f) spock_db" where
  "spock_create_subscription env name provider_dsn sets sync_structure sync_data origins delay force_text enabled skip db =
     res_bind (required_local_node env db) (\<lambda>(localnode, local_if).
     let remote = se_remote env provider_dsn; origin = rp_node remote in
     if \<not> rp_connect remote then Inl Connection_failed
     else if sync_structure \<and> \<not> rp_structure remote then Inl Structure_sync_unsupported
     else if \<not> rp_replica remote \<or> \<not> rp_local remote then Inl Connection_failed
     else res_bind (subscription_origin env provider_dsn origin (sd_node db)) (\<lambda>(originif, nodes).
     res_bind (in_node (get_node_subscriptions (se_node env) nodes (if_nodeid originif) True)) (\<lambda>_.
     let slot = gen_slot_name (ne_hash_any (se_node env)) (se_dbname env) (nt_name origin) name in
     res_bind (in_node (create_subscription (se_node env)
         (new_subscription name originif localnode local_if sets origins delay force_text enabled skip slot) nodes)) (\<lambda>(subid, nodes).
     res_bind (in_group (spock_group_attach (se_room env) (se_dboid env) (node_id localnode) (if_nodeid originif)
                 (sd_groups db))) (\<lambda>(_, groups).
     res_bind (if enabled then Inr (SYNC_STATUS_INIT, sd_origins db)
               else if sync_structure \<or> sync_data then Inl Disabled_cannot_sync
               else if slot \<in> set (sd_origins db) then Inl (Origin_exists slot)
               else Inr (SYNC_STATUS_READY, sd_origins db @ [slot])) (\<lambda>(status, replorigins).
     res_bind (in_sync (create_local_sync_status
         \<lparr>sy_kind = sync_kind_of sync_structure sync_data, sy_stop_on_error = False, sy_subid = subid,
          sy_nspname = [], sy_relname = [], sy_status = status, sy_statuslsn = InvalidXLogRecPtr\<rparr> (sd_sync db))) (\<lambda>rows.
       Inr (subid, db\<lparr>sd_node := nodes, sd_groups := groups, sd_origins := replorigins, sd_sync := rows\<rparr>))))))))"

text \<open>
  The wait for the apply worker to die changes nothing here, and a slot of the provider that cannot
  be dropped is only reported.
\<close>

definition spock_drop_subscription ::
    "('j, 'i, 'f) sql_env \<Rightarrow> bytes \<Rightarrow> bool \<Rightarrow> ('j, 'i, 'f) spock_db
     \<Rightarrow> sql_error + bool \<times> ('j, 'i, 'f) spock_db" where
  "spock_drop_subscription env name ifexists db =
     res_bind (in_node (get_subscription_by_name (se_node env) (sd_node db) name ifexists)) (\<lambda>found.
     case found of
       None \<Rightarrow> Inr (False, db)
     | Some sub \<Rightarrow>
         res_bind (required_local_node env db) (\<lambda>(localnode, _).
         let db = db\<lparr>sd_sync := drop_subscription_sync_status (sub_id sub) (sd_sync db)\<rparr> in
         res_bind (in_node (drop_subscription (sub_id sub) (sd_node db))) (\<lambda>nodes.
         let db = db\<lparr>sd_node := nodes\<rparr> in
         if node_id (sub_origin sub) = node_id localnode then Inr (True, db)
         else
           res_bind (in_node (get_node_subscriptions (se_node env) nodes (node_id (sub_origin sub)) True)) (\<lambda>other_subs.
           res_bind (if other_subs = []
                     then in_node (drop_node (node_id (sub_origin sub))
                            (drop_node_interfaces (node_id (sub_origin sub)) nodes))
                     else Inr nodes) (\<lambda>nodes.
             Inr (True, db\<lparr>sd_node := nodes,
               sd_signals := sd_signals db @
                 spock_worker_kill (spock_apply_find (se_dboid env) (sub_id sub) (se_workers env)) (se_workers env),
               sd_origins := filter (\<lambda>n. n \<noteq> sub_slot_name sub) (sd_origins db)\<rparr>))))))"

text \<open>The part all the following functions begin with.\<close>

definition named_subscription ::
    "('j, 'i, 'f) sql_env \<Rightarrow> bytes \<Rightarrow> ('j, 'i, 'f) spock_db \<Rightarrow> sql_error + ('j, 'i) SpockSubscription" where
  "named_subscription env name db =
     need (Sql_node (Sub_name_not_found name)) (in_node (get_subscription_by_name (se_node env) (sd_node db) name False))"

definition store_subscription ::
    "('j, 'i) SpockSubscription \<Rightarrow> ('j, 'i, 'f) spock_db \<Rightarrow> sql_error + ('j, 'i, 'f) spock_db" where
  "store_subscription sub db =
     res_bind (in_node (alter_subscription sub (sd_node db))) (\<lambda>nodes. Inr (db\<lparr>sd_node := nodes\<rparr>))"

definition spock_alter_subscription_disable ::
    "('j, 'i, 'f) sql_env \<Rightarrow> bytes \<Rightarrow> bool \<Rightarrow> ('j, 'i, 'f) spock_db
     \<Rightarrow> sql_error + bool \<times> ('j, 'i, 'f) spock_db" where
  "spock_alter_subscription_disable env name immediate db =
     res_bind (named_subscription env name db) (\<lambda>sub.
     res_bind (required_local_node env db) (\<lambda>_.
     res_bind (store_subscription (sub\<lparr>sub_enabled := False\<rparr>) db) (\<lambda>db.
       if immediate then
         if se_in_transaction env then Inl In_transaction_block
         else Inr (True, db\<lparr>sd_signals := sd_signals db @
           spock_worker_kill (spock_apply_find (se_dboid env) (sub_id sub) (se_workers env)) (se_workers env)\<rparr>)
       else Inr (True, db))))"

definition spock_alter_subscription_enable ::
    "('j, 'i, 'f) sql_env \<Rightarrow> bytes \<Rightarrow> bool \<Rightarrow> ('j, 'i, 'f) spock_db
     \<Rightarrow> sql_error + bool \<times> ('j, 'i, 'f) spock_db" where
  "spock_alter_subscription_enable env name immediate db =
     res_bind (named_subscription env name db) (\<lambda>sub.
     res_bind (required_local_node env db) (\<lambda>_.
     res_bind (store_subscription (sub\<lparr>sub_enabled := True\<rparr>) db) (\<lambda>db.
       if immediate \<and> se_in_transaction env then Inl In_transaction_block else Inr (True, db))))"

definition spock_alter_subscription_interface ::
    "('j, 'i, 'f) sql_env \<Rightarrow> bytes \<Rightarrow> bytes \<Rightarrow> ('j, 'i, 'f) spock_db
     \<Rightarrow> sql_error + bool \<times> ('j, 'i, 'f) spock_db" where
  "spock_alter_subscription_interface env name ifname db =
     res_bind (named_subscription env name db) (\<lambda>sub.
     res_bind (required_local_node env db) (\<lambda>_.
     res_bind (need (Interface_unknown ifname)
         (in_node (get_node_interface_by_name (sd_node db) (node_id (sub_origin sub)) ifname False))) (\<lambda>new_if.
       if if_id new_if = if_id (sub_origin_if sub) then Inr (False, db)
       else res_bind (store_subscription (sub\<lparr>sub_origin_if := new_if\<rparr>) db) (\<lambda>db. Inr (True, db)))))"

definition spock_alter_subscription_add_replication_set ::
    "('j, 'i, 'f) sql_env \<Rightarrow> bytes \<Rightarrow> bytes \<Rightarrow> ('j, 'i, 'f) spock_db
     \<Rightarrow> sql_error + bool \<times> ('j, 'i, 'f) spock_db" where
  "spock_alter_subscription_add_replication_set env name repset_name db =
     res_bind (named_subscription env name db) (\<lambda>sub.
       if repset_name \<in> set (sub_replication_sets sub) then Inr (False, db)
       else res_bind (store_subscription (sub\<lparr>sub_replication_sets := sub_replication_sets sub @ [repset_name]\<rparr>) db)
              (\<lambda>db. Inr (True, db)))"

definition spock_alter_subscription_remove_replication_set ::
    "('j, 'i, 'f) sql_env \<Rightarrow> bytes \<Rightarrow> bytes \<Rightarrow> ('j, 'i, 'f) spock_db
     \<Rightarrow> sql_error + bool \<times> ('j, 'i, 'f) spock_db" where
  "spock_alter_subscription_remove_replication_set env name repset_name db =
     res_bind (named_subscription env name db) (\<lambda>sub.
       if repset_name \<in> set (sub_replication_sets sub)
       then res_bind (store_subscription (sub\<lparr>sub_replication_sets := remove1 repset_name (sub_replication_sets sub)\<rparr>) db)
              (\<lambda>db. Inr (True, db))
       else Inr (False, db))"

definition spock_alter_subscription_skip_lsn ::
    "('j, 'i, 'f) sql_env \<Rightarrow> bytes \<Rightarrow> XLogRecPtr \<Rightarrow> ('j, 'i, 'f) spock_db
     \<Rightarrow> sql_error + bool \<times> ('j, 'i, 'f) spock_db" where
  "spock_alter_subscription_skip_lsn env name lsn db =
     res_bind (named_subscription env name db) (\<lambda>sub.
     res_bind (required_local_node env db) (\<lambda>_.
     res_bind (store_subscription (sub\<lparr>sub_skiplsn := lsn\<rparr>) db) (\<lambda>db. Inr (True, db))))"

text \<open>The strings of an array, and the tokens behind it.\<close>

fun option_strings :: "bytes \<Rightarrow> jsonb_token list \<Rightarrow> sql_error + bytes list \<times> jsonb_token list" where
  "option_strings key (WJB_END_ARRAY # ts) = Inr ([], ts)"
| "option_strings key (WJB_ELEM (jbvString elem) # ts) =
     (if key = cs ''forward_origins'' \<and> elem \<noteq> cs ''all'' then Inl (Option_invalid_origin elem)
      else res_bind (option_strings key ts) (\<lambda>(l, ts). Inr (elem # l, ts)))"
| "option_strings key ts = Inl (Option_not_string key)"

lemma option_strings_shorter: "option_strings key ts = Inr (l, r) \<Longrightarrow> length r < length ts"
  by (induction key ts arbitrary: l r rule: option_strings.induct)
    (auto simp: res_bind_def split: if_splits sum.splits dest: less_SucI)

text \<open>The loop over the keys; the flag is \<open>changed\<close>.\<close>

function subscription_options ::
    "(bytes \<Rightarrow> 'i option) \<Rightarrow> jsonb_token list \<Rightarrow> ('j, 'i) SpockSubscription \<Rightarrow> bool
     \<Rightarrow> sql_error + ('j, 'i) SpockSubscription \<times> bool" where
  "subscription_options interval_in ts sub changed =
     (case ts of
        [] \<Rightarrow> Inl Options_unexpected_token
      | t # ts \<Rightarrow>
          (case t of
             WJB_END_OBJECT \<Rightarrow> Inr (sub, changed)
           | WJB_KEY key \<Rightarrow>
               if key = cs ''forward_origins'' \<or> key = cs ''skip_schema'' then
                 (case ts of
                    WJB_BEGIN_ARRAY # ts' \<Rightarrow>
                      (case option_strings key ts' of
                         Inl e \<Rightarrow> Inl e
                       | Inr (l, rest) \<Rightarrow>
                           subscription_options interval_in rest
                             (if key = cs ''forward_origins'' then sub\<lparr>sub_forward_origins := l\<rparr>
                              else sub\<lparr>sub_skip_schema := l\<rparr>) True)
                  | _ \<Rightarrow> Inl (Option_not_array key))
               else if key = cs ''apply_delay'' then
                 (case ts of
                    WJB_VALUE (jbvString delay_str) # rest \<Rightarrow>
                      (case interval_in delay_str of
                         None \<Rightarrow> Inl (Option_invalid_delay delay_str)
                       | Some d \<Rightarrow> subscription_options interval_in rest (sub\<lparr>sub_apply_delay := Some d\<rparr>) True)
                  | _ \<Rightarrow> Inl (Option_not_string key))
               else Inl (Option_unrecognized key)
           | _ \<Rightarrow> Inl Options_unexpected_token))"
  by pat_completeness auto
termination
  by (relation "measure (\<lambda>(_, ts, _, _). length ts)") (auto dest!: option_strings_shorter)

declare subscription_options.simps [simp del]

definition spock_alter_subscription_options ::
    "('j, 'i, 'f) sql_env \<Rightarrow> bytes \<Rightarrow> Jsonb \<Rightarrow> ('j, 'i, 'f) spock_db
     \<Rightarrow> sql_error + bool \<times> ('j, 'i, 'f) spock_db" where
  "spock_alter_subscription_options env name options db =
     res_bind (named_subscription env name db) (\<lambda>sub.
     res_bind (required_local_node env db) (\<lambda>_.
     case jb_tokens options of
       WJB_BEGIN_OBJECT # ts \<Rightarrow>
         res_bind (subscription_options (se_interval_in env) ts sub False) (\<lambda>(sub, changed).
           if changed then res_bind (store_subscription sub db) (\<lambda>db. Inr (True, db)) else Inr (False, db))
     | _ \<Rightarrow> Inl Options_not_object))"


section \<open>Synchronisation of tables\<close>

definition new_table_sync :: "Oid \<Rightarrow> bytes \<Rightarrow> bytes \<Rightarrow> SpockSyncStatus" where
  "new_table_sync subid nspname relname =
     \<lparr>sy_kind = SYNC_KIND_DATA, sy_stop_on_error = False, sy_subid = subid, sy_nspname = namestrcpy nspname,
      sy_relname = namestrcpy relname, sy_status = SYNC_STATUS_INIT, sy_statuslsn = InvalidXLogRecPtr\<rparr>"

definition check_readonly_for_resync :: "('j, 'i, 'f) sql_env \<Rightarrow> sql_error + unit" where
  "check_readonly_for_resync env = (if se_readonly env then Inl Read_only_mode else Inr ())"

definition sync_of_table :: "bytes \<Rightarrow> bytes \<Rightarrow> SpockSyncStatus \<Rightarrow> bool" where
  "sync_of_table nspname relname sync \<longleftrightarrow> sy_nspname sync = nspname \<and> sy_relname sync = relname"

text \<open>
  The loop over the tables of the provider, with the local tables that are left.
\<close>

fun sync_missing ::
    "('j, 'i, 'f) sql_env \<Rightarrow> Oid \<Rightarrow> bool \<Rightarrow> (bytes \<times> bytes) list \<Rightarrow> SpockSyncStatus list \<Rightarrow> ('j, 'i, 'f) spock_db
     \<Rightarrow> sql_error + SpockSyncStatus list \<times> ('j, 'i, 'f) spock_db" where
  "sync_missing env subid trunc [] local_tables db = Inr (local_tables, db)"
| "sync_missing env subid trunc ((nspname, relname) # rels) local_tables db =
     (case find (sync_of_table nspname relname) local_tables of
        Some sync \<Rightarrow> sync_missing env subid trunc rels (remove1 sync local_tables) db
      | None \<Rightarrow>
          res_bind (check_readonly_for_resync env) (\<lambda>_.
          res_bind (in_sync (create_local_sync_status (new_table_sync subid nspname relname) (sd_sync db))) (\<lambda>rows.
            sync_missing env subid trunc rels local_tables
              (db\<lparr>sd_sync := rows,
                  sd_truncated := (if trunc then sd_truncated db @ [(nspname, relname)] else sd_truncated db)\<rparr>))))"

text \<open>\<open>remote_tables\<close> is what \<open>spock_get_remote_repset_tables\<close> returns from the provider.\<close>

definition spock_alter_subscription_synchronize ::
    "('j, 'i, 'f) sql_env \<Rightarrow> bytes \<Rightarrow> bool \<Rightarrow> (bytes list \<Rightarrow> (bytes \<times> bytes) list) \<Rightarrow> ('j, 'i, 'f) spock_db
     \<Rightarrow> sql_error + bool \<times> ('j, 'i, 'f) spock_db" where
  "spock_alter_subscription_synchronize env name trunc remote_tables db =
     res_bind (named_subscription env name db) (\<lambda>sub.
     if \<not> rp_connect (se_remote env (if_dsn (sub_origin_if sub))) then Inl Connection_failed
     else res_bind (sync_missing env (sub_id sub) trunc (remote_tables (sub_replication_sets sub))
                      (get_subscription_tables (sub_id sub) (sd_sync db)) db) (\<lambda>(left, db).
       Inr (True, db\<lparr>
         sd_sync := fold (\<lambda>t. drop_table_sync_status_for_sub (sy_subid t) (sy_nspname t) (sy_relname t)) left (sd_sync db),
         sd_node := (sd_node db)\<lparr>nd_signals := spock_subscription_changed (sub_id sub) False (nd_signals (sd_node db))\<rparr>\<rparr>)))"

definition sync_finished :: "byte \<Rightarrow> bool" where
  "sync_finished status \<longleftrightarrow> status \<in> {SYNC_STATUS_READY, SYNC_STATUS_SYNCDONE, 0, SYNC_STATUS_FAILED}"

text \<open>
  Between the messages that turn decoding off and on again; those are not part of this state.
\<close>

definition spock_alter_subscription_resynchronize_table ::
    "('j, 'i, 'f) sql_env \<Rightarrow> bytes \<Rightarrow> Oid \<Rightarrow> bool \<Rightarrow> ('j, 'i, 'f) spock_db
     \<Rightarrow> sql_error + bool \<times> ('j, 'i, 'f) spock_db" where
  "spock_alter_subscription_resynchronize_table env name reloid trunc db =
     res_bind (named_subscription env name db) (\<lambda>sub.
     case se_rel_name env reloid of (nspname, relname) \<Rightarrow>
     res_bind (check_readonly_for_resync env) (\<lambda>_.
     res_bind (in_sync (get_table_sync_status (sub_id sub) nspname relname True (sd_sync db))) (\<lambda>oldsync.
     res_bind (case oldsync of
         Some old \<Rightarrow>
           if \<not> sync_finished (sy_status old) then Inl (Already_synchronizing nspname relname)
           else in_sync (set_table_sync_status (sub_id sub) nspname relname SYNC_STATUS_INIT InvalidXLogRecPtr (sd_sync db))
       | None \<Rightarrow> in_sync (create_local_sync_status (new_table_sync (sub_id sub) nspname relname) (sd_sync db))) (\<lambda>rows.
       Inr (True, db\<lparr>sd_sync := rows,
         sd_truncated := (if trunc then sd_truncated db @ [(nspname, relname)] else sd_truncated db),
         sd_node := (sd_node db)\<lparr>nd_signals := spock_subscription_changed (sub_id sub) False (nd_signals (sd_node db))\<rparr>\<rparr>)))))"

definition sync_status_to_string :: "byte \<Rightarrow> bytes" where
  "sync_status_to_string status =
     (if status = SYNC_STATUS_INIT then cs ''sync_init''
      else if status = SYNC_STATUS_STRUCTURE then cs ''sync_structure''
      else if status = SYNC_STATUS_DATA then cs ''sync_data''
      else if status = SYNC_STATUS_CONSTRAINTS then cs ''sync_constraints''
      else if status = SYNC_STATUS_SYNCWAIT then cs ''sync_waiting''
      else if status = SYNC_STATUS_CATCHUP then cs ''catchup''
      else if status = SYNC_STATUS_SYNCDONE then cs ''synchronized''
      else if status = SYNC_STATUS_READY then cs ''replicating''
      else cs ''unknown'')"

definition spock_show_subscription_table ::
    "('j, 'i, 'f) sql_env \<Rightarrow> bytes \<Rightarrow> Oid \<Rightarrow> ('j, 'i, 'f) spock_db \<Rightarrow> sql_error + bytes \<times> bytes \<times> bytes" where
  "spock_show_subscription_table env name reloid db =
     res_bind (named_subscription env name db) (\<lambda>sub.
     case se_rel_name env reloid of (nspname, relname) \<Rightarrow>
     res_bind (in_sync (get_table_sync_status (sub_id sub) nspname relname True (sd_sync db))) (\<lambda>sync.
       Inr (nspname, relname, case sync of None \<Rightarrow> cs ''unknown'' | Some s \<Rightarrow> sync_status_to_string (sy_status s))))"

definition subscription_status ::
    "('j, 'i, 'f) sql_env \<Rightarrow> ('j, 'i, 'f) spock_db \<Rightarrow> ('j, 'i) SpockSubscription \<Rightarrow> sql_error + bytes" where
  "subscription_status env db sub =
     (if spock_worker_running (spock_apply_find (se_dboid env) (sub_id sub) (se_workers env)) (se_workers env)
      then res_bind (in_sync (get_subscription_sync_status (sub_id sub) True (sd_sync db))) (\<lambda>sync.
             Inr (case sync of
                    None \<Rightarrow> cs ''unknown''
                  | Some s \<Rightarrow> if sy_status s = SYNC_STATUS_READY then cs ''replicating'' else cs ''initializing''))
      else if \<not> sub_enabled sub then Inr (cs ''disabled'')
      else Inr (cs ''down''))"

text \<open>One row per subscription: name, status, provider, DSN, slot, sets, origins.\<close>

definition spock_show_subscription_status ::
    "('j, 'i, 'f) sql_env \<Rightarrow> bytes option \<Rightarrow> ('j, 'i, 'f) spock_db
     \<Rightarrow> sql_error + (bytes \<times> bytes \<times> bytes \<times> bytes \<times> bytes \<times> bytes list option \<times> bytes list option) list" where
  "spock_show_subscription_status env name db =
     res_bind (check_local_node env db) (\<lambda>(node, _).
     res_bind (case name of
         None \<Rightarrow> in_node (get_node_subscriptions (se_node env) (sd_node db) (node_id node) False)
       | Some n \<Rightarrow> res_bind (named_subscription env n db) (\<lambda>sub. Inr [sub])) (\<lambda>subs.
       res_map (\<lambda>sub. res_bind (subscription_status env db sub) (\<lambda>status.
           Inr (sub_name sub, status, node_name (sub_origin sub), if_dsn (sub_origin_if sub), sub_slot_name sub,
                null_if_empty (sub_replication_sets sub), null_if_empty (sub_forward_origins sub)))) subs))"

section \<open>Replication sets\<close>

definition local_set ::
    "('j, 'i, 'f) sql_env \<Rightarrow> bytes \<Rightarrow> bool \<Rightarrow> ('j, 'i, 'f) spock_db \<Rightarrow> sql_error + SpockRepSet option" where
  "local_set env set_name missing_ok db =
     res_bind (check_local_node env db) (\<lambda>(node, _).
       in_catalog (get_replication_set_by_name (sd_repset db) (node_id node) set_name missing_ok))"

definition required_set ::
    "('j, 'i, 'f) sql_env \<Rightarrow> bytes \<Rightarrow> ('j, 'i, 'f) spock_db \<Rightarrow> sql_error + SpockRepSet" where
  "required_set env set_name db = need (Sql_catalog (Set_name_not_found set_name)) (local_set env set_name False db)"

definition spock_create_replication_set ::
    "('j, 'i, 'f) sql_env \<Rightarrow> bytes \<Rightarrow> bool \<Rightarrow> bool \<Rightarrow> bool \<Rightarrow> bool \<Rightarrow> ('j, 'i, 'f) spock_db
     \<Rightarrow> sql_error + ('j, 'i, 'f) spock_db" where
  "spock_create_replication_set env name ins upd del trunc db =
     res_bind (check_local_node env db) (\<lambda>(node, _).
     res_bind (in_catalog (create_replication_set (se_repset env)
         \<lparr>rs_id = InvalidOid, rs_nodeid = node_id node, rs_name = name, rs_replicate_insert = ins,
          rs_replicate_update = upd, rs_replicate_delete = del, rs_replicate_truncate = trunc\<rparr> (sd_repset db))) (\<lambda>sets.
       Inr (db\<lparr>sd_repset := sets\<rparr>)))"

definition override :: "bool option \<Rightarrow> bool \<Rightarrow> bool" where
  "override new old = (case new of None \<Rightarrow> old | Some b \<Rightarrow> b)"

definition spock_alter_replication_set ::
    "('j, 'i, 'f) sql_env \<Rightarrow> bytes option \<Rightarrow> bool option \<Rightarrow> bool option \<Rightarrow> bool option \<Rightarrow> bool option
     \<Rightarrow> ('j, 'i, 'f) spock_db \<Rightarrow> sql_error + ('j, 'i, 'f) spock_db" where
  "spock_alter_replication_set env name ins upd del trunc db =
     (case name of
        None \<Rightarrow> Inl (Argument_null (cs ''set_name''))
      | Some set_name \<Rightarrow>
          res_bind (required_set env set_name db) (\<lambda>repset.
          res_bind (in_catalog (alter_replication_set (se_repset env)
              (repset\<lparr>rs_replicate_insert := override ins (rs_replicate_insert repset),
                      rs_replicate_update := override upd (rs_replicate_update repset),
                      rs_replicate_delete := override del (rs_replicate_delete repset),
                      rs_replicate_truncate := override trunc (rs_replicate_truncate repset)\<rparr>) (sd_repset db))) (\<lambda>sets.
            Inr (db\<lparr>sd_repset := sets\<rparr>))))"

abbreviation try_drop_of :: "('j, 'i, 'f) sql_env \<Rightarrow> 'f drop_deps" where
  "try_drop_of env \<equiv> spock_tryDropDependencies (se_depth env) (se_repset env)"

definition spock_drop_replication_set ::
    "('j, 'i, 'f) sql_env \<Rightarrow> bytes \<Rightarrow> bool \<Rightarrow> ('j, 'i, 'f) spock_db
     \<Rightarrow> (sql_error + bool \<times> ('j, 'i, 'f) spock_db) option" where
  "spock_drop_replication_set env set_name ifexists db =
     er_bind (Some (local_set env set_name ifexists db)) (\<lambda>found.
     case found of
       None \<Rightarrow> Some (Inr (False, db))
     | Some repset \<Rightarrow>
         er_bind (in_catalog_fuel (drop_replication_set (se_repset env) (try_drop_of env) (rs_id repset) (sd_repset db))) (\<lambda>sets.
           Some (Inr (True, db\<lparr>sd_repset := sets\<rparr>))))"


text \<open>
  The row filter of a table.  \<open>ss_clauses\<close> are \<open>distinctClause\<close>, \<open>intoClause\<close>, \<open>whereClause\<close>,
  \<open>groupClause\<close>, \<open>havingClause\<close>, \<open>windowClause\<close>, \<open>valuesLists\<close>, \<open>sortClause\<close>, \<open>limitOffset\<close>,
  \<open>limitCount\<close>, \<open>lockingClause\<close> and \<open>withClause\<close>; the transformation returns the expression and the
  length of the range table, nothing when it raises.
\<close>

definition parse_row_filter :: "('j, 'i, 'f) sql_env \<Rightarrow> Relation \<Rightarrow> bytes \<Rightarrow> sql_error + 'f" where
  "parse_row_filter env rel row_filter_str =
     (case se_parse_query env (cs ''SELECT '' @ row_filter_str @ cs '' FROM '' @
             se_quote_qualified env (case rd_nspname rel of None \<Rightarrow> [] | Some n \<Rightarrow> n) (rd_relname rel)) of
        Some [stmt] \<Rightarrow>
          if \<not> ss_is_SelectStmt stmt \<or> True \<in> set (ss_clauses stmt) \<or> ss_setop stmt then Inl Row_filter_invalid
          else (case ss_targetList stmt of
                  [restarget] \<Rightarrow>
                    if \<not> tg_is_ResTarget restarget \<or> tg_name restarget \<or> tg_indirection restarget
                    then Inl Row_filter_invalid
                    else (case tg_val restarget of
                            None \<Rightarrow> Inl Row_filter_invalid
                          | Some expr \<Rightarrow>
                              (case se_transform_filter env rel expr of
                                 None \<Rightarrow> Inl Row_filter_invalid
                               | Some (row_filter, rtable) \<Rightarrow>
                                   if \<not> se_simple_filter env row_filter \<or> rtable \<noteq> 1 then Inl Row_filter_invalid
                                   else Inr row_filter))
                | _ \<Rightarrow> Inl Row_filter_invalid)
      | _ \<Rightarrow> Inl Row_filter_invalid)"

text \<open>The identity columns that a column list leaves out.\<close>

fun check_att_list :: "pg_attribute list \<Rightarrow> bytes list \<Rightarrow> int list \<Rightarrow> sql_error + int list" where
  "check_att_list desc [] idattrs = Inr idattrs"
| "check_att_list desc (name # names) idattrs =
     res_bind (in_catalog (get_att_num_by_name desc name)) (\<lambda>n.
       if n < 0 then Inl (Column_missing name)
       else check_att_list desc names (filter (\<lambda>a. a \<noteq> n) idattrs))"

definition table_json :: "('j, 'i, 'f) sql_env \<Rightarrow> bytes \<Rightarrow> bytes \<Rightarrow> bytes" where
  "table_json env nspname relname =
     cs ''{\"schema_name\": '' @ se_escape_json env nspname @ cs '',\"table_name\": '' @ se_escape_json env relname @ cs ''}''"

definition queue_for_set ::
    "('j, 'i, 'f) sql_env \<Rightarrow> SpockRepSet \<Rightarrow> byte \<Rightarrow> bytes \<Rightarrow> ('j, 'i, 'f) spock_db
     \<Rightarrow> sql_error + ('j, 'i, 'f) spock_db" where
  "queue_for_set env repset cmdtype json db =
     res_bind (in_queue (queue_message (se_json_valid env) (se_now env) [rs_name repset] (se_role env) cmdtype json
                 (sd_queue db))) (\<lambda>rows. Inr (db\<lparr>sd_queue := rows\<rparr>))"

definition add_one_table ::
    "('j, 'i, 'f) sql_env \<Rightarrow> SpockRepSet \<Rightarrow> bytes list \<Rightarrow> 'f option \<Rightarrow> Oid \<Rightarrow> ('j, 'i, 'f) spock_db
     \<Rightarrow> sql_error + ('j, 'i, 'f) spock_db" where
  "add_one_table env repset att_list row_filter reloid db =
     res_bind (in_catalog (replication_set_add_table (se_repset env) (rs_id repset) reloid att_list row_filter
                 (sd_repset db))) (\<lambda>sets. Inr (db\<lparr>sd_repset := sets\<rparr>))"

definition RELKIND_RELATION :: byte where "RELKIND_RELATION = ch CHR ''r''"
definition RELKIND_SEQUENCE :: byte where "RELKIND_SEQUENCE = ch CHR ''S''"
definition RELKIND_PARTITIONED_TABLE :: byte where "RELKIND_PARTITIONED_TABLE = ch CHR ''p''"

definition with_partitions :: "('j, 'i, 'f) sql_env \<Rightarrow> bool \<Rightarrow> Oid \<Rightarrow> Oid list" where
  "with_partitions env inc_partitions reloid =
     (if inc_partitions \<and> se_relkind env reloid = RELKIND_PARTITIONED_TABLE then se_inheritors env reloid else [reloid])"

definition spock_replication_set_add_table ::
    "('j, 'i, 'f) sql_env \<Rightarrow> bytes option \<Rightarrow> Oid option \<Rightarrow> bool option \<Rightarrow> bytes list option \<Rightarrow> bytes option \<Rightarrow> bool
     \<Rightarrow> ('j, 'i, 'f) spock_db \<Rightarrow> sql_error + bool \<times> ('j, 'i, 'f) spock_db" where
  "spock_replication_set_add_table env name relation sync att_names filter_str inc_partitions db =
     (case (name, relation, sync) of
        (None, _, _) \<Rightarrow> Inl (Argument_null (cs ''set_name''))
      | (_, None, _) \<Rightarrow> Inl (Argument_null (cs ''relation''))
      | (_, _, None) \<Rightarrow> Inl (Argument_null (cs ''synchronize_data''))
      | (Some set_name, Some reloid, Some synchronize) \<Rightarrow>
          res_bind (required_set env set_name db) (\<lambda>repset.
          case se_table_open env reloid of
            None \<Rightarrow> Inl (Sql_catalog (No_such_relation reloid))
          | Some rel \<Rightarrow>
              res_bind (case att_names of
                  None \<Rightarrow> Inr []
                | Some names \<Rightarrow> res_bind (check_att_list (rd_att rel) names (rd_idattrs rel)) (\<lambda>left.
                    if left \<noteq> [] then Inl Identity_not_replicated else Inr names)) (\<lambda>att_list.
              res_bind (case filter_str of
                  None \<Rightarrow> Inr None
                | Some str \<Rightarrow> res_bind (parse_row_filter env rel str) (\<lambda>f. Inr (Some f))) (\<lambda>row_filter.
              res_bind (res_fold (\<lambda>partoid db.
                  res_bind (add_one_table env repset att_list row_filter partoid db) (\<lambda>db.
                    if synchronize \<and> partoid = reloid
                    then case se_rel_name env reloid of (nspname, relname) \<Rightarrow>
                      queue_for_set env repset QUEUE_COMMAND_TYPE_TABLESYNC (table_json env nspname relname) db
                    else Inr db)) (with_partitions env inc_partitions reloid) db) (\<lambda>db.
                Inr (True, db))))))"

definition spock_replication_set_add_sequence ::
    "('j, 'i, 'f) sql_env \<Rightarrow> bytes \<Rightarrow> Oid \<Rightarrow> bool \<Rightarrow> ('j, 'i, 'f) spock_db
     \<Rightarrow> sql_error + bool \<times> ('j, 'i, 'f) spock_db" where
  "spock_replication_set_add_sequence env set_name reloid synchronize db =
     res_bind (required_set env set_name db) (\<lambda>repset.
     res_bind (in_catalog (replication_set_add_seq (se_repset env) (rs_id repset) reloid (sd_repset db))) (\<lambda>sets.
     let db = db\<lparr>sd_repset := sets\<rparr> in
     if synchronize
     then case se_rel_name env reloid of (nspname, relname) \<Rightarrow>
       res_bind (queue_for_set env repset QUEUE_COMMAND_TYPE_SEQUENCE
                   (sequence_json (se_escape_json env) nspname relname
                      (sv_last_value (seq_values (se_repset env)) reloid)) db) (\<lambda>db. Inr (True, db))
     else Inr (True, db)))"

text \<open>One relation of a schema in \<open>spock_replication_set_add_all_relations\<close>.\<close>

definition add_class ::
    "('j, 'i, 'f) sql_env \<Rightarrow> SpockRepSet \<Rightarrow> Oid list \<Rightarrow> bool \<Rightarrow> byte \<Rightarrow> bytes \<Rightarrow> rel_class \<Rightarrow> ('j, 'i, 'f) spock_db
     \<Rightarrow> sql_error + ('j, 'i, 'f) spock_db" where
  "add_class env repset existing synchronize relkind nspname reltup db =
     (if (rc_relkind reltup \<noteq> RELKIND_PARTITIONED_TABLE \<and> rc_relkind reltup \<noteq> relkind) \<or>
         \<not> rc_permanent reltup \<or> rc_system reltup
      then Inr db
      else if rc_oid reltup \<in> set existing then Inr db
      else
        res_bind (if relkind = RELKIND_RELATION \<or> relkind = RELKIND_PARTITIONED_TABLE
                  then add_one_table env repset [] None (rc_oid reltup) db
                  else res_bind (in_catalog (replication_set_add_seq (se_repset env) (rs_id repset) (rc_oid reltup)
                         (sd_repset db))) (\<lambda>sets. Inr (db\<lparr>sd_repset := sets\<rparr>))) (\<lambda>db.
          if synchronize \<and> \<not> rc_partition reltup
          then if relkind = RELKIND_RELATION
               then queue_for_set env repset QUEUE_COMMAND_TYPE_TABLESYNC (table_json env nspname (rc_relname reltup)) db
               else if relkind = RELKIND_SEQUENCE
               then queue_for_set env repset QUEUE_COMMAND_TYPE_SEQUENCE
                      (sequence_json (se_escape_json env) nspname (rc_relname reltup)
                         (sv_last_value (seq_values (se_repset env)) (rc_oid reltup))) db
               else Inl (Unsupported_relkind relkind)
          else Inr db))"

definition spock_replication_set_add_all_relations ::
    "('j, 'i, 'f) sql_env \<Rightarrow> bytes \<Rightarrow> bytes list \<Rightarrow> bool \<Rightarrow> byte \<Rightarrow> ('j, 'i, 'f) spock_db
     \<Rightarrow> sql_error + bool \<times> ('j, 'i, 'f) spock_db" where
  "spock_replication_set_add_all_relations env set_name nsp_names synchronize relkind db =
     res_bind (required_set env set_name db) (\<lambda>repset.
     let existing = replication_set_get_tables (sd_repset db) (rs_id repset) @
                    replication_set_get_seqs (sd_repset db) (rs_id repset) in
     res_bind (res_fold (\<lambda>nspname db.
         case se_namespace env nspname of
           None \<Rightarrow> Inl (Schema_missing nspname)
         | Some classes \<Rightarrow> res_fold (add_class env repset existing synchronize relkind nspname) classes db) nsp_names db) (\<lambda>db.
       Inr (True, db)))"

definition spock_replication_set_add_all_tables ::
    "('j, 'i, 'f) sql_env \<Rightarrow> bytes \<Rightarrow> bytes list \<Rightarrow> bool \<Rightarrow> ('j, 'i, 'f) spock_db
     \<Rightarrow> sql_error + bool \<times> ('j, 'i, 'f) spock_db" where
  "spock_replication_set_add_all_tables env set_name nsp_names synchronize =
     spock_replication_set_add_all_relations env set_name nsp_names synchronize RELKIND_RELATION"

definition spock_replication_set_add_all_sequences ::
    "('j, 'i, 'f) sql_env \<Rightarrow> bytes \<Rightarrow> bytes list \<Rightarrow> bool \<Rightarrow> ('j, 'i, 'f) spock_db
     \<Rightarrow> sql_error + bool \<times> ('j, 'i, 'f) spock_db" where
  "spock_replication_set_add_all_sequences env set_name nsp_names synchronize =
     spock_replication_set_add_all_relations env set_name nsp_names synchronize RELKIND_SEQUENCE"

text \<open>Removing; a missing mapping is an error unless \<open>ignore_err\<close>.\<close>

definition remove_one_table ::
    "('j, 'i, 'f) sql_env \<Rightarrow> SpockRepSet \<Rightarrow> Oid \<Rightarrow> bool \<Rightarrow> ('j, 'i, 'f) spock_db
     \<Rightarrow> (sql_error + ('j, 'i, 'f) spock_db) option" where
  "remove_one_table env repset reloid ignore_err db =
     er_bind (in_catalog_fuel (replication_set_remove_table (se_repset env) (try_drop_of env) (rs_id repset) reloid
                ignore_err (sd_repset db))) (\<lambda>sets. Some (Inr (db\<lparr>sd_repset := sets\<rparr>)))"

definition spock_replication_set_remove_table ::
    "('j, 'i, 'f) sql_env \<Rightarrow> bytes \<Rightarrow> Oid \<Rightarrow> bool \<Rightarrow> ('j, 'i, 'f) spock_db
     \<Rightarrow> (sql_error + bool \<times> ('j, 'i, 'f) spock_db) option" where
  "spock_replication_set_remove_table env set_name reloid inc_partitions db =
     er_bind (Some (required_set env set_name db)) (\<lambda>repset.
     er_bind (er_fold (\<lambda>partoid. remove_one_table env repset partoid (se_ispartition env partoid))
                (with_partitions env inc_partitions reloid) db) (\<lambda>db. Some (Inr (True, db))))"

definition spock_replication_set_remove_sequence ::
    "('j, 'i, 'f) sql_env \<Rightarrow> bytes \<Rightarrow> Oid \<Rightarrow> ('j, 'i, 'f) spock_db
     \<Rightarrow> (sql_error + bool \<times> ('j, 'i, 'f) spock_db) option" where
  "spock_replication_set_remove_sequence env set_name seqoid db =
     er_bind (Some (required_set env set_name db)) (\<lambda>repset.
     er_bind (in_catalog_fuel (replication_set_remove_seq (se_repset env) (try_drop_of env) (rs_id repset) seqoid
                False (sd_repset db))) (\<lambda>sets. Some (Inr (True, db\<lparr>sd_repset := sets\<rparr>))))"

text \<open>The partitions a call is about: the one named, or all of the parent.\<close>

definition partitions_of :: "('j, 'i, 'f) sql_env \<Rightarrow> Oid \<Rightarrow> Oid option \<Rightarrow> Oid list" where
  "partitions_of env parent part =
     (if part = None \<or> part = Some InvalidOid then se_inheritors env parent else [the part])"

text \<open>
  One set of \<open>spock_replication_set_add_partition\<close>.  The row filter is a variable of the whole
  function: the filter of the parent in one set is still there for the next.
\<close>

definition add_partitions ::
    "('j, 'i, 'f) sql_env \<Rightarrow> Oid \<Rightarrow> Oid list \<Rightarrow> SpockRepSet \<Rightarrow> 'f option \<times> nat \<times> ('j, 'i, 'f) spock_db
     \<Rightarrow> sql_error + 'f option \<times> nat \<times> ('j, 'i, 'f) spock_db" where
  "add_partitions env parent reloids repset = (\<lambda>(row_filter, nrows, db).
     let row = get_table_replication_row (sd_repset db) (rs_id repset) parent;
         att_list = (case row of None \<Rightarrow> [] | Some t \<Rightarrow> list_of_null (rt_att_list t));
         reptbl_row_filter = (case row of None \<Rightarrow> None | Some t \<Rightarrow> rt_row_filter t);
         row_filter = (if row_filter = None then reptbl_row_filter else row_filter)
     in res_bind (res_fold (\<lambda>partoid (nrows, db).
            if partoid = parent \<or> get_table_replication_row (sd_repset db) (rs_id repset) partoid \<noteq> None
            then Inr (nrows, db)
            else res_bind (add_one_table env repset att_list row_filter partoid db) (\<lambda>db. Inr (Suc nrows, db)))
          reloids (nrows, db)) (\<lambda>(nrows, db). Inr (row_filter, nrows, db)))"

definition spock_replication_set_add_partition ::
    "('j, 'i, 'f) sql_env \<Rightarrow> Oid option \<Rightarrow> Oid option \<Rightarrow> bytes option \<Rightarrow> ('j, 'i, 'f) spock_db
     \<Rightarrow> sql_error + nat \<times> ('j, 'i, 'f) spock_db" where
  "spock_replication_set_add_partition env parent part filter_str db =
     (case parent of
        None \<Rightarrow> Inl (Argument_null (cs ''parent table''))
      | Some parent_reloid \<Rightarrow>
          (case se_table_open env parent_reloid of
             None \<Rightarrow> Inl (Sql_catalog (No_such_relation parent_reloid))
           | Some rel \<Rightarrow>
               res_bind (case filter_str of
                   None \<Rightarrow> Inr None
                 | Some str \<Rightarrow> res_bind (parse_row_filter env rel str) (\<lambda>f. Inr (Some f))) (\<lambda>row_filter.
               res_bind (check_local_node env db) (\<lambda>(node, _).
               res_bind (in_catalog (get_table_replication_sets (sd_repset db) (node_id node) parent_reloid)) (\<lambda>repsets.
                 if se_relkind env parent_reloid \<noteq> RELKIND_PARTITIONED_TABLE then Inr (0, db)
                 else res_bind (res_fold (add_partitions env parent_reloid (partitions_of env parent_reloid part))
                                  repsets (row_filter, 0, db)) (\<lambda>(_, nrows, db). Inr (nrows, db)))))))"

definition remove_partitions ::
    "('j, 'i, 'f) sql_env \<Rightarrow> Oid \<Rightarrow> Oid list \<Rightarrow> SpockRepSet \<Rightarrow> nat \<times> ('j, 'i, 'f) spock_db
     \<Rightarrow> (sql_error + nat \<times> ('j, 'i, 'f) spock_db) option" where
  "remove_partitions env parent reloids repset =
     er_fold (\<lambda>partoid (nrows, db).
       if partoid = parent then Some (Inr (nrows, db))
       else er_bind (remove_one_table env repset partoid (1 < length reloids) db) (\<lambda>db.
              Some (Inr (Suc nrows, db)))) reloids"

definition spock_replication_set_remove_partition ::
    "('j, 'i, 'f) sql_env \<Rightarrow> Oid option \<Rightarrow> Oid option \<Rightarrow> ('j, 'i, 'f) spock_db
     \<Rightarrow> (sql_error + nat \<times> ('j, 'i, 'f) spock_db) option" where
  "spock_replication_set_remove_partition env parent part db =
     (case parent of
        None \<Rightarrow> Some (Inl (Argument_null (cs ''parent table'')))
      | Some parent_reloid \<Rightarrow>
          if se_table_open env parent_reloid = None then Some (Inl (Sql_catalog (No_such_relation parent_reloid)))
          else
            er_bind (Some (check_local_node env db)) (\<lambda>(node, _).
            er_bind (Some (in_catalog (get_table_replication_sets (sd_repset db) (node_id node) parent_reloid))) (\<lambda>repsets.
              if se_relkind env parent_reloid \<noteq> RELKIND_PARTITIONED_TABLE then Some (Inr (0, db))
              else er_fold (remove_partitions env parent_reloid (partitions_of env parent_reloid part)) repsets (0, db))))"

end
