(* ===== verification/Spock_Repset_Props.thy ===== *)
theory Spock_Repset_Props
  imports Spock_Repset
begin

text \<open>
  What holds of the replication sets: the invariant of the catalogs and that every operation keeps
  it, what the drop of a relation removes and when it is refused, and how the answer about a table
  is put together from the sets the table is in.
\<close>

section \<open>The invariant of the catalogs\<close>

definition spock_class :: "('f, 'm) repset_env_scheme \<Rightarrow> Oid \<Rightarrow> bool" where
  "spock_class env c \<longleftrightarrow> c = replication_set_rel_oid env \<or> c = replication_set_table_rel_oid env \<or>
     c = replication_set_seq_rel_oid env"

text \<open>
  What is assumed of the server: the catalogs have different oids, rows of Spock's catalogs are not
  pinned, no other backend changes \<open>spock.depend\<close> meanwhile, an expression refers to objects of the
  server and not to rows of Spock's catalogs, and oid 0 is not a relation.
\<close>

definition env_ok :: "('f, 'm) repset_env_scheme \<Rightarrow> bool" where
  "env_ok env \<longleftrightarrow>
     distinct [replication_set_rel_oid env, replication_set_table_rel_oid env,
               replication_set_seq_rel_oid env, RelationRelationId env] \<and>
     (\<forall>c i. spock_class env c \<longrightarrow> \<not> IsPinnedObject env c i) \<and>
     (\<forall>r. recheck_tuple env r) \<and>
     (\<forall>f. \<forall>a \<in> set (filter_references env f). \<not> spock_class env (classId a)) \<and>
     open_rel env InvalidOid = None"

definition row_member :: "('f, 'm) repset_env_scheme \<Rightarrow> 'f RepSetTableTuple \<Rightarrow> ObjectAddress" where
  "row_member env t = table_member env (rt_setid t) (rt_reloid t)"

definition seq_row_member :: "('f, 'm) repset_env_scheme \<Rightarrow> RepSetSeqTuple \<Rightarrow> ObjectAddress" where
  "seq_row_member env q = seq_member env (rq_setid q) (rq_seqoid q)"

definition members :: "('f, 'm) repset_env_scheme \<Rightarrow> 'f repset_db \<Rightarrow> ObjectAddress set" where
  "members env db = row_member env ` set (db_tables db) \<union> seq_row_member env ` set (db_seqs db)"

text \<open>
  Keys are unique; a membership is in an existing set and has its dependency on its relation; every
  row of \<open>spock.depend\<close> belongs to an existing membership and refers to an object of the server.
\<close>

definition depend_ok :: "('f, 'm) repset_env_scheme \<Rightarrow> 'f repset_db \<Rightarrow> bool" where
  "depend_ok env db \<longleftrightarrow>
     (\<forall>r \<in> set (db_depend db). dep_type r = DEPENDENCY_NORMAL \<and> \<not> spock_class env (classId (dep_ref r)) \<and>
        dep_obj r \<in> members env db) \<and>
     (\<forall>t \<in> set (db_tables db). \<exists>r \<in> set (db_depend db).
        dep_obj r = row_member env t \<and> dep_ref r = whole_relation env (rt_reloid t)) \<and>
     (\<forall>q \<in> set (db_seqs db). \<exists>r \<in> set (db_depend db).
        dep_obj r = seq_row_member env q \<and> dep_ref r = whole_relation env (rq_seqoid q)) \<and>
     (\<forall>q \<in> set (db_seqs db). \<forall>r \<in> set (db_depend db).
        dep_obj r = seq_row_member env q \<longrightarrow> dep_ref r = whole_relation env (rq_seqoid q))"

definition repset_core :: "('f, 'm) repset_env_scheme \<Rightarrow> 'f repset_db \<Rightarrow> bool" where
  "repset_core env db \<longleftrightarrow>
     distinct (map rs_id (db_sets db)) \<and>
     distinct (map (\<lambda>s. (rs_nodeid s, rs_name s)) (db_sets db)) \<and>
     distinct (map (\<lambda>t. (rt_setid t, rt_reloid t)) (db_tables db)) \<and>
     distinct (db_seqs db) \<and>
     distinct (map seq_seqoid (db_seq_state db)) \<and>
     (\<forall>t \<in> set (db_tables db). rt_setid t \<in> rs_id ` set (db_sets db) \<and> rt_reloid t \<noteq> 0) \<and>
     (\<forall>q \<in> set (db_seqs db). rq_setid q \<in> rs_id ` set (db_sets db) \<and> rq_seqoid q \<noteq> 0) \<and>
     depend_ok env db"

text \<open>The state of a sequence is kept exactly while the sequence is in some set.\<close>

definition seq_tracked :: "'f repset_db \<Rightarrow> bool" where
  "seq_tracked db \<longleftrightarrow> seq_seqoid ` set (db_seq_state db) = rq_seqoid ` set (db_seqs db)"

definition repset_wf :: "('f, 'm) repset_env_scheme \<Rightarrow> 'f repset_db \<Rightarrow> bool" where
  "repset_wf env db \<longleftrightarrow> repset_core env db \<and> seq_tracked db"

lemma member_inject:
  assumes "env_ok env"
  shows "row_member env t = row_member env t' \<longleftrightarrow> rt_setid t = rt_setid t' \<and> rt_reloid t = rt_reloid t'"
    "seq_row_member env q = seq_row_member env q' \<longleftrightarrow> rq_setid q = rq_setid q' \<and> rq_seqoid q = rq_seqoid q'"
    "row_member env t \<noteq> seq_row_member env q" "seq_row_member env q \<noteq> row_member env t"
  using assms by (auto simp: row_member_def seq_row_member_def table_member_def seq_member_def env_ok_def)

lemma member_class [simp]:
  "spock_class env (classId (row_member env t))" "spock_class env (classId (seq_row_member env q))"
  by (simp_all add: row_member_def seq_row_member_def table_member_def seq_member_def spock_class_def)

text \<open>The rows of a part of an object, and of a membership in particular.\<close>

lemma row_of_part: "objectSubId m \<noteq> 0 \<Longrightarrow> row_of_object m r \<longleftrightarrow> dep_obj r = m"
  by (cases m, cases "dep_obj r") (auto simp: row_of_object_def)

definition spock_refs :: "('f, 'm) repset_env_scheme \<Rightarrow> spock_depend list \<Rightarrow> bool" where
  "spock_refs env rows \<longleftrightarrow> (\<forall>r \<in> set rows. dep_type r = DEPENDENCY_NORMAL \<and> \<not> spock_class env (classId (dep_ref r)))"

lemma no_dependents:
  "spock_refs env rows \<Longrightarrow> spock_class env (classId m) \<Longrightarrow> filter (row_on_object m) rows = []"
  by (auto simp: spock_refs_def filter_empty_conv row_on_object_def)

lemma spock_refs_owner:
  "spock_refs env rows \<Longrightarrow> owner_scan env x stack (filter P rows) = Inr Proceed"
  by (rule plain_owner_scan) (auto simp: spock_refs_def)

text \<open>The visit of a membership adds it, unless it has been visited.\<close>

lemma find_member:
  assumes "env_ok env" "spock_refs env rows" "spock_class env (classId m)"
    "\<not> covered m (map fst stack)"
  shows "findDependentObjects (Suc n) env rows m fl stack ts =
    (let ts' = snd (object_address_present_add_flags m fl ts);
         st' = snd (stack_address_present_add_flags m fl stack)
     in if covered m (map fst ts) then Some (Inr (st', ts'))
        else Some (Inr (st', ts' @ [(m, \<lparr>ex_flags = fl,
               ex_dependee = (case st' of [] \<Rightarrow> no_object | (o', _) # _ \<Rightarrow> o')\<rparr>)])))"
  using assms spock_refs_owner [OF assms(2)] no_dependents [OF assms(2,3)]
  by (simp add: findDependentObjects.simps(2) Let_def case_prod_unfold env_ok_def)

lemma drop_member:
  assumes "env_ok env" "spock_refs env (db_depend db)" "spock_class env (classId m)"
  shows "spock_tryDropDependencies (Suc (Suc n)) env m behavior db =
    Some (Inr (deleteOneObjectDepencencyRecord m db))"
  using find_member [OF assms, of "[]" n DEPFLAG_ORIGINAL "[]"]
  by (simp add: reportDependentObjects_def deleteObjectsInList_def Let_def DEPFLAG_ORIGINAL_def
      stack_address_present_add_flags_def object_address_present_add_flags_def empty_report_def)

declare spock_tryDropDependencies.simps(2) [simp del]

section \<open>Dropping a relation\<close>

text \<open>The catalogs without the memberships \<open>M\<close>.\<close>

definition without_members ::
    "('f, 'm) repset_env_scheme \<Rightarrow> ObjectAddress set \<Rightarrow> 'f repset_db \<Rightarrow> 'f repset_db" where
  "without_members env M db = db\<lparr>
     db_tables := filter (\<lambda>t. row_member env t \<notin> M) (db_tables db),
     db_seqs := filter (\<lambda>q. seq_row_member env q \<notin> M) (db_seqs db),
     db_depend := filter (\<lambda>r. dep_obj r \<notin> M) (db_depend db),
     db_seq_state := filter (\<lambda>s. \<not> (\<exists>q \<in> set (db_seqs db). seq_row_member env q \<in> M \<and> rq_seqoid q = seq_seqoid s))
                       (db_seq_state db)\<rparr>"

lemma without_none [simp]: "without_members env {} db = db"
  by (simp add: without_members_def)

lemma without_more:
  "without_members env M (without_members env {m} db) = without_members env (insert m M) db"
  unfolding without_members_def by (intro repset_db.equality) (auto intro!: filter_cong)

lemma depend_without:
  assumes "depend_ok env db" shows "depend_ok env (without_members env M db)"
proof -
  let ?db = "without_members env M db"
  have rows: "set (db_depend ?db) = {r \<in> set (db_depend db). dep_obj r \<notin> M}"
    and mem: "members env ?db = members env db - M"
    and sub: "set (db_tables ?db) = {t \<in> set (db_tables db). row_member env t \<notin> M}"
      "set (db_seqs ?db) = {q \<in> set (db_seqs db). seq_row_member env q \<notin> M}"
    by (auto simp: without_members_def members_def)
  from assms have
    "\<forall>r \<in> set (db_depend ?db). dep_type r = DEPENDENCY_NORMAL \<and> \<not> spock_class env (classId (dep_ref r)) \<and>
       dep_obj r \<in> members env ?db"
    unfolding depend_ok_def rows mem by blast
  moreover have "\<exists>r \<in> set (db_depend ?db). dep_obj r = row_member env t \<and> dep_ref r = whole_relation env (rt_reloid t)"
    if "t \<in> set (db_tables ?db)" for t
    using assms that unfolding depend_ok_def rows sub by (metis (mono_tags, lifting) mem_Collect_eq)
  moreover have "\<exists>r \<in> set (db_depend ?db). dep_obj r = seq_row_member env q \<and> dep_ref r = whole_relation env (rq_seqoid q)"
    if "q \<in> set (db_seqs ?db)" for q
    using assms that unfolding depend_ok_def rows sub by (metis (mono_tags, lifting) mem_Collect_eq)
  moreover have "dep_ref r = whole_relation env (rq_seqoid q)"
    if "q \<in> set (db_seqs ?db)" "r \<in> set (db_depend ?db)" "dep_obj r = seq_row_member env q" for q r
    using assms that unfolding depend_ok_def rows sub by blast
  ultimately show ?thesis unfolding depend_ok_def by blast
qed

lemma core_without:
  assumes "repset_core env db" shows "repset_core env (without_members env M db)"
proof -
  have "depend_ok env (without_members env M db)"
    using assms by (intro depend_without) (simp add: repset_core_def)
  with assms show ?thesis
    unfolding repset_core_def by (auto simp: distinct_map_filter without_members_def)
qed

lemma core_refs: "repset_core env db \<Longrightarrow> spock_refs env (db_depend db)"
  by (auto simp: repset_core_def depend_ok_def spock_refs_def)

lemma core_sub: "repset_core env db \<Longrightarrow> m \<in> members env db \<Longrightarrow> objectSubId m \<noteq> 0"
  by (auto simp: repset_core_def members_def row_member_def seq_row_member_def table_member_def seq_member_def)

lemma remove1_distinct: "distinct xs \<Longrightarrow> remove1 x xs = filter (\<lambda>y. y \<noteq> x) xs"
  by (simp add: distinct_remove1_removeAll removeAll_filter_not_eq eq_commute)

lemma core_set_found:
  "repset_core env db \<Longrightarrow> i \<in> rs_id ` set (db_sets db) \<Longrightarrow> \<exists>s. get_replication_set db i = Inr s"
  by (auto simp: get_replication_set_def find_None_iff split: option.splits)

lemma drop_state_filter:
  "distinct (map seq_seqoid ss) \<Longrightarrow> spock_drop_sequence_state_record i ss = filter (\<lambda>s. seq_seqoid s \<noteq> i) ss"
proof (induction ss)
  case (Cons s ss)
  have "\<forall>x \<in> set ss. seq_seqoid x \<noteq> seq_seqoid s"
    using Cons.prems by (metis distinct.simps(2) image_eqI list.set_map list.simps(9))
  then have "filter (\<lambda>x. seq_seqoid x \<noteq> seq_seqoid s) ss = ss"
    by (simp add: filter_id_conv)
  with Cons show ?case by auto
qed simp

lemma key_distinct: "distinct (map f xs) \<Longrightarrow> x \<in> set xs \<Longrightarrow> y \<in> set xs \<Longrightarrow> f x = f y \<Longrightarrow> x = y"
  by (auto simp: distinct_map inj_on_def)

lemma delete_table_member:
  assumes "env_ok env" "repset_core env db" "t \<in> set (db_tables db)"
  shows "deleteOneObject env (spock_tryDropDependencies (Suc (Suc n)) env) (row_member env t) db =
    Some (Inr (without_members env {row_member env t} db))"
proof -
  let ?db = "db\<lparr>db_tables := remove1 t (db_tables db)\<rparr>"
  have core: "distinct (map (\<lambda>t. (rt_setid t, rt_reloid t)) (db_tables db))"
    using assms(2) by (simp add: repset_core_def)
  have found: "get_table_replication_row db (rt_setid t) (rt_reloid t) = Some t"
    using key_distinct [OF core assms(3)] assms(3) find_None_iff [of _ "db_tables db"]
    unfolding get_table_replication_row_def
    by (cases "find (\<lambda>x. rt_setid x = rt_setid t \<and> rt_reloid x = rt_reloid t) (db_tables db)")
      (auto simp: find_Some_iff find_None_iff)
  have sub: "objectSubId (row_member env t) \<noteq> 0"
    using core_sub [OF assms(2)] assms(3) by (auto simp: members_def)
  have key: "x = t \<longleftrightarrow> rt_setid x = rt_setid t \<and> rt_reloid x = rt_reloid t" if "x \<in> set (db_tables db)" for x
    using key_distinct [OF core assms(3) that] by auto
  have rows: "remove1 t (db_tables db) = filter (\<lambda>x. row_member env x \<noteq> row_member env t) (db_tables db)"
    unfolding remove1_distinct [OF distinct_map [THEN iffD1, OF core, THEN conjunct1]] member_inject [OF assms(1)]
    by (intro filter_cong) (simp_all add: key)
  have "spock_tryDropDependencies (Suc (Suc n)) env (row_member env t) DROP_CASCADE ?db =
      Some (Inr (deleteOneObjectDepencencyRecord (row_member env t) ?db))"
    using core_refs [OF assms(2)] by (intro drop_member assms) simp_all
  with found have "doDeletion env (spock_tryDropDependencies (Suc (Suc n)) env) (row_member env t) db =
      Some (Inr (deleteOneObjectDepencencyRecord (row_member env t) ?db))"
    using assms(1) by (auto simp: doDeletion_def row_member_def table_member_def env_ok_def
        replication_set_remove_table_def)
  with sub show ?thesis
    using member_inject(4) [OF assms(1)]
    by (simp add: deleteOneObject_def deleteOneObjectDepencencyRecord_def row_of_part without_members_def rows)
qed

lemma delete_seq_member:
  assumes "env_ok env" "repset_core env db" "q \<in> set (db_seqs db)"
  shows "deleteOneObject env (spock_tryDropDependencies (Suc (Suc n)) env) (seq_row_member env q) db =
    Some (Inr (without_members env {seq_row_member env q} db))"
proof -
  let ?db = "db\<lparr>db_seqs := remove1 q (db_seqs db)\<rparr>"
  let ?m = "seq_row_member env q"
  have key: "x = q \<longleftrightarrow> rq_setid x = rq_setid q \<and> rq_seqoid x = rq_seqoid q" for x by auto
  have found: "find (\<lambda>x. rq_setid x = rq_setid q \<and> rq_seqoid x = rq_seqoid q) (db_seqs db) = Some q"
    unfolding key [symmetric] using assms(3)
    by (cases "find (\<lambda>x. x = q) (db_seqs db)") (auto simp: find_Some_iff find_None_iff)
  have sub: "objectSubId ?m \<noteq> 0"
    using core_sub [OF assms(2)] assms(3) by (auto simp: members_def)
  have rows: "remove1 q (db_seqs db) = filter (\<lambda>x. seq_row_member env x \<noteq> ?m) (db_seqs db)"
  proof -
    have "distinct (db_seqs db)" using assms(2) by (simp add: repset_core_def)
    moreover have "(\<lambda>x. seq_row_member env x \<noteq> ?m) = (\<lambda>x. x \<noteq> q)"
      by (auto simp: fun_eq_iff member_inject [OF assms(1)])
    ultimately show ?thesis by (simp only: remove1_distinct)
  qed
  have "\<exists>s. get_replication_set db (rq_setid q) = Inr s"
    using assms(2,3) by (intro core_set_found) (auto simp: repset_core_def)
  moreover have "spock_tryDropDependencies (Suc (Suc n)) env ?m DROP_CASCADE ?db =
      Some (Inr (deleteOneObjectDepencencyRecord ?m ?db))"
    using core_refs [OF assms(2)] by (intro drop_member assms) simp_all
  ultimately have "doDeletion env (spock_tryDropDependencies (Suc (Suc n)) env) ?m db =
      Some (Inr (drop_state_of (rq_seqoid q) (deleteOneObjectDepencencyRecord ?m ?db)))"
    using assms(1) found by (auto simp: doDeletion_def seq_row_member_def seq_member_def env_ok_def
        replication_set_remove_seq_def)
  moreover have "distinct (map seq_seqoid (db_seq_state db))"
    using assms(2) by (simp add: repset_core_def)
  moreover have "filter (\<lambda>s. seq_seqoid s \<noteq> rq_seqoid q) (db_seq_state db) =
      filter (\<lambda>s. \<forall>x \<in> set (db_seqs db). seq_row_member env x = ?m \<longrightarrow> rq_seqoid x \<noteq> seq_seqoid s) (db_seq_state db)"
    using assms(3) by (intro filter_cong) (auto simp: member_inject [OF assms(1)])
  ultimately show ?thesis
    using member_inject(3) [OF assms(1)] sub
    by (simp add: deleteOneObject_def deleteOneObjectDepencencyRecord_def row_of_part without_members_def rows
        drop_state_of_def drop_state_filter)
qed

lemma delete_members:
  assumes "env_ok env"
  shows "repset_core env db \<Longrightarrow> distinct ms \<Longrightarrow> set ms \<subseteq> members env db \<Longrightarrow>
    er_fold (deleteOneObject env (spock_tryDropDependencies (Suc (Suc n)) env)) ms db =
      Some (Inr (without_members env (set ms) db))"
proof (induction ms arbitrary: db)
  case Nil
  then show ?case by simp
next
  case (Cons m ms)
  let ?db = "without_members env {m} db"
  have "deleteOneObject env (spock_tryDropDependencies (Suc (Suc n)) env) m db = Some (Inr ?db)"
    using Cons.prems delete_table_member [OF assms Cons.prems(1)] delete_seq_member [OF assms Cons.prems(1)]
    by (auto simp: members_def)
  moreover have "members env ?db = members env db - {m}"
    by (auto simp: without_members_def members_def)
  then have "set ms \<subseteq> members env ?db" using Cons.prems by auto
  ultimately show ?case
    using Cons.IH [OF core_without [OF Cons.prems(1)]] Cons.prems(2) by (simp add: without_more)
qed

text \<open>The targets of the drop of an object of the server: each membership that depends on it, once.\<close>

fun add_new :: "'a list \<Rightarrow> 'a list \<Rightarrow> 'a list" where
  "add_new acc [] = acc"
| "add_new acc (x # xs) = add_new (if x \<in> set acc then acc else acc @ [x]) xs"

lemma add_new_set: "set (add_new acc xs) = set acc \<union> set xs"
  by (induction xs arbitrary: acc) auto

lemma add_new_distinct: "distinct acc \<Longrightarrow> distinct (add_new acc xs)"
  by (induction xs arbitrary: acc) auto

definition target_of :: "ObjectAddress \<Rightarrow> ObjectAddress \<Rightarrow> ObjectAddress \<times> ObjectAddressExtra" where
  "target_of x m = (m, \<lparr>ex_flags = DEPFLAG_NORMAL, ex_dependee = x\<rparr>)"

lemma covered_members:
  "objectSubId m \<noteq> 0 \<Longrightarrow> \<forall>x \<in> set ms. objectSubId x \<noteq> 0 \<Longrightarrow> covered m ms \<longleftrightarrow> m \<in> set ms"
proof -
  have "part_of m x \<longleftrightarrow> m = x" if "objectSubId x \<noteq> 0" for x
    using that by (cases m; cases x) (auto simp: part_of_def)
  then show "\<forall>x \<in> set ms. objectSubId x \<noteq> 0 \<Longrightarrow> covered m ms \<longleftrightarrow> m \<in> set ms"
    unfolding covered_def by blast
qed

lemma flags_members:
  "objectSubId m \<noteq> 0 \<Longrightarrow> \<forall>x \<in> set ms. objectSubId x \<noteq> 0 \<Longrightarrow>
     snd (object_address_present_add_flags m DEPFLAG_NORMAL (map (target_of x) ms)) = map (target_of x) ms"
  by (auto simp: object_address_present_add_flags_def target_of_def address_visit_def)

lemma dependents_loop_members:
  assumes "env_ok env" "spock_refs env rows" "\<not> spock_class env (classId x)"
  shows "\<forall>r \<in> set deps. dep_type r = DEPENDENCY_NORMAL \<and> spock_class env (classId (dep_obj r)) \<and>
       objectSubId (dep_obj r) \<noteq> 0 \<Longrightarrow> \<forall>m \<in> set ms. objectSubId m \<noteq> 0 \<Longrightarrow>
    dependents_loop (findDependentObjects (Suc n) env rows) env deps [(x, fl)] (map (target_of x) ms) =
      Some (Inr ([(x, fl)], map (target_of x) (add_new ms (map dep_obj deps))))"
proof (induction deps arbitrary: ms)
  case Nil
  then show ?case by simp
next
  case (Cons r deps)
  let ?m = "dep_obj r"
  have m: "spock_class env (classId ?m)" "objectSubId ?m \<noteq> 0" "dep_type r = DEPENDENCY_NORMAL"
    using Cons.prems by auto
  have stack: "\<not> covered ?m (map fst [(x, fl)])"
    "snd (stack_address_present_add_flags ?m DEPFLAG_NORMAL [(x, fl)]) = [(x, fl)]"
    using m(1) assms(3) by (auto simp: part_of_def stack_address_present_add_flags_def address_visit_def)
  have cov: "covered ?m (map fst (map (target_of x) ms)) \<longleftrightarrow> ?m \<in> set ms"
    using covered_members [OF m(2) Cons.prems(2)] by (simp add: target_of_def comp_def)
  have "findDependentObjects (Suc n) env rows ?m DEPFLAG_NORMAL [(x, fl)] (map (target_of x) ms) =
      Some (Inr ([(x, fl)], map (target_of x) (if ?m \<in> set ms then ms else ms @ [?m])))"
    unfolding find_member [OF assms(1,2) m(1) stack(1)] stack(2) cov flags_members [OF m(2) Cons.prems(2)]
    by (simp add: target_of_def)
  moreover have "recheck_tuple env r" using assms(1) by (simp add: env_ok_def)
  moreover have "\<forall>m \<in> set (if ?m \<in> set ms then ms else ms @ [?m]). objectSubId m \<noteq> 0"
    using Cons.prems(2) m(2) by auto
  ultimately show ?case
    using Cons.IH [of "if ?m \<in> set ms then ms else ms @ [?m]"] Cons.prems(1) m(3)
    by (simp add: dependency_flags_def)
qed

definition dependent_members :: "spock_depend list \<Rightarrow> ObjectAddress \<Rightarrow> ObjectAddress list" where
  "dependent_members rows x = add_new [] (map dep_obj (filter (row_on_object x) rows))"

lemma find_server_object:
  assumes "env_ok env" "repset_core env db" "\<not> spock_class env (classId x)"
    "\<not> IsPinnedObject env (classId x) (objectId x)"
  shows "findDependentObjects (Suc (Suc n)) env (db_depend db) x DEPFLAG_ORIGINAL [] [] =
    Some (Inr ([], map (target_of x) (dependent_members (db_depend db) x) @
      [(x, \<lparr>ex_flags = DEPFLAG_ORIGINAL, ex_dependee = no_object\<rparr>)]))"
proof -
  have "\<forall>r \<in> set (filter (row_on_object x) (db_depend db)). dep_type r = DEPENDENCY_NORMAL \<and>
      spock_class env (classId (dep_obj r)) \<and> objectSubId (dep_obj r) \<noteq> 0"
    using assms(2) core_sub [OF assms(2)]
    by (force simp: repset_core_def depend_ok_def members_def)
  note loop = dependents_loop_members [OF assms(1) core_refs [OF assms(2)] assms(3) this, of "[]", simplified]
  show ?thesis
    using assms(4) spock_refs_owner [OF core_refs [OF assms(2)]]
    by (subst findDependentObjects.simps(2))
      (simp add: case_prod_unfold loop dependent_members_def stack_address_present_add_flags_def
        object_address_present_add_flags_def)
qed

lemma report_members:
  assumes "\<forall>m \<in> set ms. \<exists>d. describe m = Inr (Some d)" "\<exists>d. describe x = Inr d"
  shows "\<exists>rp'. report_loop describe behavior (map (target_of x) ms) rp = Inr rp' \<and>
    (rp_ok rp' \<longleftrightarrow> rp_ok rp \<and> (behavior = DROP_CASCADE \<or> ms = []))"
  using assms(1)
proof (induction ms arbitrary: rp)
  case Nil
  then show ?case by simp
next
  case (Cons m ms)
  from assms(2) obtain e where e: "describe x = Inr e" ..
  from Cons.prems obtain d where d: "describe m = Inr (Some d)" by auto
  have "\<exists>rp1. report_loop describe behavior (map (target_of x) (m # ms)) rp =
      report_loop describe behavior (map (target_of x) ms) rp1 \<and>
      (rp_ok rp1 \<longleftrightarrow> rp_ok rp \<and> behavior = DROP_CASCADE)"
    using e d by (cases behavior)
      (auto simp: target_of_def DEPFLAG_NORMAL_def DEPFLAG_ORIGINAL_def DEPFLAG_AUTO_def DEPFLAG_INTERNAL_def
        DEPFLAG_EXTENSION_def report_line_def)
  with Cons.IH Cons.prems show ?case by fastforce
qed

definition drop_refused ::
    "('f, 'm) repset_env_scheme \<Rightarrow> 'f repset_db \<Rightarrow> ObjectAddress \<Rightarrow> DropBehavior \<Rightarrow> bool" where
  "drop_refused env db x behavior \<longleftrightarrow> behavior = DROP_RESTRICT \<and> \<not> enable_quiet_mode env \<and>
     (\<exists>r \<in> set (db_depend db). row_on_object x r)"

lemma member_described:
  assumes "env_ok env" "repset_core env db" "m \<in> members env db"
  shows "\<exists>d. spock_getObjectDescription env db m = Inr (Some d)"
proof -
  have "objectId m \<in> rs_id ` set (db_sets db)"
    using assms(2,3) by (auto simp: repset_core_def members_def row_member_def table_member_def
        seq_row_member_def seq_member_def)
  then obtain s where "get_replication_set db (objectId m) = Inr s"
    using core_set_found [OF assms(2)] by blast
  moreover have "classId m = replication_set_table_rel_oid env \<or> classId m = replication_set_seq_rel_oid env"
    using assms(3) by (auto simp: members_def row_member_def table_member_def seq_row_member_def seq_member_def)
  ultimately show ?thesis
    using assms(1) by (auto simp: spock_getObjectDescription_def env_ok_def)
qed

lemma report_server_object:
  assumes "env_ok env" "repset_core env db" "\<not> spock_class env (classId x)"
  shows "\<exists>rp. reportDependentObjects env (spock_getObjectDescription env db)
      (map (target_of x) (dependent_members (db_depend db) x) @ [(x, \<lparr>ex_flags = DEPFLAG_ORIGINAL, ex_dependee = no_object\<rparr>)])
      behavior lvl x = (if drop_refused env db x behavior then Inl (Other_objects_depend x) else Inr rp)"
proof -
  let ?ms = "dependent_members (db_depend db) x"
  let ?d = "spock_getObjectDescription env db"
  have ms: "set ?ms = dep_obj ` {r \<in> set (db_depend db). row_on_object x r}"
    by (simp add: dependent_members_def add_new_set)
  have "set ?ms \<subseteq> members env db"
    using assms(2) unfolding ms by (auto simp: repset_core_def depend_ok_def)
  then have "\<forall>m \<in> set (rev ?ms). \<exists>d. ?d m = Inr (Some d)"
    using member_described [OF assms(1,2)] by auto
  moreover have "\<exists>d. ?d x = Inr d"
    using assms(3) by (simp add: spock_getObjectDescription_def spock_class_def)
  ultimately obtain rp where rp: "report_loop ?d behavior (map (target_of x) (rev ?ms)) empty_report = Inr rp"
    "rp_ok rp \<longleftrightarrow> behavior = DROP_CASCADE \<or> ?ms = []"
    using report_members [of "rev ?ms" ?d x behavior empty_report] by (auto simp: empty_report_def)
  have "?ms = [] \<longleftrightarrow> \<not> (\<exists>r \<in> set (db_depend db). row_on_object x r)"
    using arg_cong [OF ms, of "\<lambda>A. A = {}"] by auto
  with rp show ?thesis
    by (cases behavior)
      (auto simp: reportDependentObjects_def rev_map [symmetric] DEPFLAG_ORIGINAL_def drop_refused_def Let_def)
qed

text \<open>Dropping a relation, or a column of one, as the server tells Spock about it.\<close>

definition drop_removes :: "'f repset_db \<Rightarrow> ObjectAddress \<Rightarrow> ObjectAddress set" where
  "drop_removes db x = dep_obj ` {r \<in> set (db_depend db). row_on_object x r}"

lemma drop_server_object:
  assumes "env_ok env" "repset_core env db" "\<not> spock_class env (classId x)"
    "\<not> IsPinnedObject env (classId x) (objectId x)"
  shows "spock_tryDropDependencies (Suc (Suc (Suc n))) env x behavior db =
    Some (if drop_refused env db x behavior then Inl (Other_objects_depend x)
          else Inr (without_members env (drop_removes db x) db))"
proof -
  let ?ms = "dependent_members (db_depend db) x"
  have ms: "set ?ms = drop_removes db x" "distinct ?ms"
    by (simp_all add: dependent_members_def drop_removes_def add_new_set add_new_distinct)
  have "set ?ms \<subseteq> members env db"
    using assms(2) unfolding ms(1) by (auto simp: repset_core_def depend_ok_def drop_removes_def)
  note del = delete_members [OF assms(1,2) ms(2) this, of n]
  obtain rp where "reportDependentObjects env (spock_getObjectDescription env db)
      (map (target_of x) ?ms @ [(x, \<lparr>ex_flags = DEPFLAG_ORIGINAL, ex_dependee = no_object\<rparr>)])
      behavior NOTICE x = (if drop_refused env db x behavior then Inl (Other_objects_depend x) else Inr rp)"
    using report_server_object [OF assms(1-3)] by blast
  moreover have "deleteOneObjectDepencencyRecord x (without_members env (drop_removes db x) db) =
      without_members env (drop_removes db x) db"
  proof -
    have "spock_class env (classId (dep_obj r))" if "r \<in> set (db_depend db)" for r
      using assms(2) that by (force simp: repset_core_def depend_ok_def members_def)
    with assms(3) have "\<not> row_of_object x r" if "r \<in> set (db_depend db)" for r
      using that by (metis row_of_object_def)
    then have "filter (\<lambda>r. \<not> row_of_object x r) (db_depend (without_members env (drop_removes db x) db)) =
        db_depend (without_members env (drop_removes db x) db)"
      by (auto simp: without_members_def intro!: filter_cong)
    then show ?thesis by (simp add: deleteOneObjectDepencencyRecord_def)
  qed
  ultimately show ?thesis
    using del unfolding ms(1)
    by (simp add: spock_tryDropDependencies.simps(2) find_server_object [OF assms] deleteObjectsInList_def
        comp_def target_of_def)
qed

text \<open>Removing every membership that hangs on an object leaves the state of the sequences in step.\<close>

lemma tracked_without:
  assumes "env_ok env" "repset_wf env db"
  shows "seq_tracked (without_members env (drop_removes db x) db)"
proof -
  let ?M = "drop_removes db x"
  have dep: "depend_ok env db" and tr: "seq_seqoid ` set (db_seq_state db) = rq_seqoid ` set (db_seqs db)"
    using assms(2) by (simp_all add: repset_wf_def repset_core_def seq_tracked_def)
  have all: "seq_row_member env q' \<in> ?M"
    if "q \<in> set (db_seqs db)" "seq_row_member env q \<in> ?M" "q' \<in> set (db_seqs db)" "rq_seqoid q' = rq_seqoid q" for q q'
  proof -
    from that(2) obtain r where "r \<in> set (db_depend db)" "row_on_object x r" "dep_obj r = seq_row_member env q"
      by (auto simp: drop_removes_def)
    with dep that(1) have x: "row_on_object x r" "dep_ref r = whole_relation env (rq_seqoid q)"
      unfolding depend_ok_def by blast+
    from dep that(3) obtain r' where "r' \<in> set (db_depend db)" "dep_obj r' = seq_row_member env q'"
      "dep_ref r' = whole_relation env (rq_seqoid q')"
      unfolding depend_ok_def by blast
    moreover from this x that(4) have "row_on_object x r'" by (simp add: row_on_object_def)
    ultimately show ?thesis by (force simp: drop_removes_def)
  qed
  let ?kept = "{q \<in> set (db_seqs db). seq_row_member env q \<notin> ?M}"
  let ?state = "{s \<in> set (db_seq_state db). \<not> (\<exists>q \<in> set (db_seqs db). seq_row_member env q \<in> ?M \<and> rq_seqoid q = seq_seqoid s)}"
  have "seq_seqoid ` ?state \<subseteq> rq_seqoid ` ?kept"
  proof (rule image_subsetI)
    fix s assume s: "s \<in> ?state"
    with tr obtain q where "q \<in> set (db_seqs db)" "seq_seqoid s = rq_seqoid q" by blast
    with s show "seq_seqoid s \<in> rq_seqoid ` ?kept" by auto
  qed
  moreover have "rq_seqoid ` ?kept \<subseteq> seq_seqoid ` ?state"
  proof (rule image_subsetI)
    fix q assume q: "q \<in> ?kept"
    with tr obtain s where s: "s \<in> set (db_seq_state db)" "rq_seqoid q = seq_seqoid s" by blast
    have "s \<in> ?state"
    proof (intro CollectI conjI notI s(1))
      assume "\<exists>q' \<in> set (db_seqs db). seq_row_member env q' \<in> ?M \<and> rq_seqoid q' = seq_seqoid s"
      then obtain q' where "q' \<in> set (db_seqs db)" "seq_row_member env q' \<in> ?M" "rq_seqoid q' = seq_seqoid s" by blast
      with all [of q' q] q s(2) show False by simp
    qed
    with s(2) show "rq_seqoid q \<in> seq_seqoid ` ?state" by (rule image_eqI)
  qed
  ultimately show ?thesis by (simp add: seq_tracked_def without_members_def)
qed

lemma on_whole:
  assumes "classId x = RelationRelationId env" "objectSubId x = 0"
    and "dep_ref r = whole_relation env (objectId x)"
  shows "row_on_object x r"
  using assms by (simp add: row_on_object_def whole_relation_def)


section \<open>Every operation keeps the invariant\<close>

lemma wf_inval [simp]: "repset_wf env (db\<lparr>db_inval := x\<rparr>) = repset_wf env db"
  by (simp add: repset_wf_def repset_core_def depend_ok_def members_def seq_tracked_def)

lemma core_state:
  "repset_core env db \<Longrightarrow> distinct (map seq_seqoid st) \<Longrightarrow> repset_core env (db\<lparr>db_seq_state := st\<rparr>)"
  by (simp add: repset_core_def depend_ok_def members_def)

lemma find_Some_in: "find P xs = Some x \<Longrightarrow> x \<in> set xs \<and> P x"
  by (auto simp: find_Some_iff)

lemma get_set_in: "get_replication_set db i = Inr s \<Longrightarrow> s \<in> set (db_sets db) \<and> rs_id s = i"
  by (auto simp: get_replication_set_def dest: find_Some_in split: option.splits)

lemma wf_create:
  assumes "repset_wf env db" "create_replication_set env repset db = Inr db'"
  shows "repset_wf env db'"
proof -
  let ?tup = "repset\<lparr>rs_id := if rs_id repset = InvalidOid
      then hash_pair env (rs_nodeid repset) (hash_any env (rs_name repset)) else rs_id repset,
      rs_name := namestrcpy (rs_name repset)\<rparr>"
  from assms(2) have "db' = db\<lparr>db_sets := db_sets db @ [?tup]\<rparr>"
    "\<not> list_ex (\<lambda>s. rs_id s = rs_id ?tup) (db_sets db)"
    "\<not> list_ex (set_named (rs_nodeid ?tup) (rs_name ?tup)) (db_sets db)"
    unfolding create_replication_set_def get_replication_set_by_name_def Let_def
    by (simp_all split: if_split_asm option.split_asm)
  moreover define tup where "tup = ?tup"
  ultimately have db': "db' = db\<lparr>db_sets := db_sets db @ [tup]\<rparr>"
    "rs_id tup \<notin> rs_id ` set (db_sets db)"
    "(rs_nodeid tup, rs_name tup) \<notin> (\<lambda>s. (rs_nodeid s, rs_name s)) ` set (db_sets db)"
    unfolding tup_def [symmetric] by (auto simp: list_ex_iff set_named_def)
  with assms(1) show ?thesis
    by (auto simp: repset_wf_def repset_core_def depend_ok_def members_def seq_tracked_def)
qed

lemma wf_alter:
  assumes "repset_wf env db" "alter_replication_set env repset db = Inr db'"
  shows "repset_wf env db'"
proof -
  from assms(2) obtain old new where db': "db' = db\<lparr>db_sets := map (\<lambda>s. if s = old then new else s) (db_sets db)\<rparr>"
    "rs_id new = rs_id old" "rs_nodeid new = rs_nodeid old" "rs_name new = rs_name old"
    unfolding alter_replication_set_def Let_def by (auto split: if_splits)
  have keep: "map f (db_sets db') = map f (db_sets db)" if "f new = f old" for f :: "SpockRepSet \<Rightarrow> 'x"
    using that by (simp add: db'(1))
  have ids: "map rs_id (db_sets db') = map rs_id (db_sets db)"
    "map (\<lambda>s. (rs_nodeid s, rs_name s)) (db_sets db') = map (\<lambda>s. (rs_nodeid s, rs_name s)) (db_sets db)"
    by (simp_all add: keep db'(2-4))
  moreover from ids(1) have "rs_id ` set (db_sets db') = rs_id ` set (db_sets db)"
    by (metis list.set_map)
  moreover have "db_tables db' = db_tables db" "db_seqs db' = db_seqs db" "db_depend db' = db_depend db"
    "db_seq_state db' = db_seq_state db" by (simp_all add: db'(1))
  ultimately show ?thesis
    using assms(1) unfolding repset_wf_def repset_core_def depend_ok_def members_def seq_tracked_def by simp
qed

text \<open>A new membership with its dependencies.\<close>

lemma dedup_loop_class: "x \<in> set (dedup_loop p xs) \<Longrightarrow> \<exists>y \<in> set (p # xs). classId y = classId x"
proof (induction p xs rule: dedup_loop.induct)
  case (2 prior this rest)
  then show ?case by (auto split: if_splits)
qed simp

lemma eliminate_class:
  assumes "x \<in> set (eliminate_duplicate_dependencies refs)"
  shows "\<exists>y \<in> set refs. classId y = classId x"
proof (cases "length refs \<le> 1")
  case True
  with assms show ?thesis by (auto simp: eliminate_duplicate_dependencies_def)
next
  case False
  then obtain a rest where s: "sort_key address_key refs = a # rest"
    by (metis length_sort list.exhaust list.size(3) zero_le)
  with assms False have "x \<in> set (dedup_loop a rest)"
    by (simp add: eliminate_duplicate_dependencies_def)
  moreover have "set (a # rest) = set refs" by (metis s set_sort)
  ultimately show ?thesis using dedup_loop_class by metis
qed

lemma depend_add_table:
  assumes "depend_ok env db"
    and "\<forall>r \<in> set new. dep_obj r = row_member env tup \<and> dep_type r = DEPENDENCY_NORMAL \<and> \<not> spock_class env (classId (dep_ref r))"
    and "\<exists>r \<in> set new. dep_ref r = whole_relation env (rt_reloid tup)" and "env_ok env"
  shows "depend_ok env (db\<lparr>db_tables := db_tables db @ [tup], db_inval := i, db_depend := db_depend db @ new\<rparr>)"
    (is "depend_ok env ?db")
proof -
  have mem: "members env ?db = insert (row_member env tup) (members env db)" by (auto simp: members_def)
  have rows: "set (db_depend ?db) = set (db_depend db) \<union> set new"
    "set (db_tables ?db) = insert tup (set (db_tables db))" "set (db_seqs ?db) = set (db_seqs db)" by auto
  have "\<forall>r \<in> set new. \<forall>q. dep_obj r \<noteq> seq_row_member env q"
    using assms(2) member_inject(3) [OF assms(4)] by metis
  with assms(1-3) show ?thesis
    unfolding depend_ok_def mem rows by (intro conjI ballI impI) (blast+ | metis UnCI insertE)+
qed

lemma wf_add_table:
  assumes env: "env_ok env" and wf: "repset_wf env db"
    and "replication_set_add_table env setid reloid att_list row_filter db = Inr db'"
  shows "repset_wf env db'"
proof -
  from assms(3) obtain repset rel where rs: "get_replication_set db setid = Inr repset" "open_rel env reloid = Some rel"
    by (auto simp: replication_set_add_table_def split: option.splits)
  have id: "rs_id repset = setid" "repset \<in> set (db_sets db)" using get_set_in [OF rs(1)] by auto
  have "reloid \<noteq> 0" using env rs(2) by (auto simp: env_ok_def)
  define tup where "tup = \<lparr>rt_setid = rs_id repset, rt_reloid = reloid,
      rt_att_list = (if att_list = [] then None else Some att_list), rt_row_filter = row_filter\<rparr>"
  define new where "new = map (\<lambda>r. \<lparr>dep_obj = row_member env tup, dep_ref = r, dep_type = DEPENDENCY_NORMAL\<rparr>)
      (whole_relation env reloid # (case row_filter of None \<Rightarrow> [] | Some f \<Rightarrow> eliminate_duplicate_dependencies (filter_references env f)))"
  have mem: "table_member env setid reloid = row_member env tup" by (simp add: row_member_def tup_def id)
  from assms(3) have db': "db' = db\<lparr>db_tables := db_tables db @ [tup], db_inval := db_inval db @ [reloid], db_depend := db_depend db @ new\<rparr>"
    and fresh: "\<not> list_ex (\<lambda>t. rt_setid t = rs_id repset \<and> rt_reloid t = reloid) (db_tables db)"
    unfolding replication_set_add_table_def rs res_bind_simps option.case Let_def mem tup_def [symmetric]
    by (simp_all add: new_def spock_recordDependencyOn_def spock_recordMultipleDependencies_def
        spock_recordDependencyOnSingleRelExpr_def Let_def split: if_split_asm option.split_asm option.split)
  have "\<not> spock_class env (classId a)" if "a \<in> set (eliminate_duplicate_dependencies (filter_references env f))" for a f
    using eliminate_class [OF that] env by (metis env_ok_def)
  moreover have "\<not> spock_class env (RelationRelationId env)" using env by (auto simp: env_ok_def spock_class_def)
  ultimately have "depend_ok env db'"
    unfolding db' using wf env by (intro depend_add_table)
      (auto simp: new_def repset_wf_def repset_core_def whole_relation_def tup_def split: option.splits)
  with wf fresh id \<open>reloid \<noteq> 0\<close> show ?thesis
    by (auto simp: db' repset_wf_def repset_core_def seq_tracked_def tup_def list_ex_iff)
qed

lemma depend_add_seq:
  assumes "depend_ok env db" "env_ok env"
  shows "depend_ok env (db\<lparr>db_seq_state := st, db_seqs := db_seqs db @ [q], db_inval := i,
    db_depend := db_depend db @ [\<lparr>dep_obj = seq_row_member env q, dep_ref = whole_relation env (rq_seqoid q),
      dep_type = DEPENDENCY_NORMAL\<rparr>]\<rparr>)" (is "depend_ok env ?db")
proof -
  have mem: "members env ?db = insert (seq_row_member env q) (members env db)" by (auto simp: members_def)
  have "\<not> spock_class env (RelationRelationId env)" using assms(2) by (auto simp: env_ok_def spock_class_def)
  then have cl: "\<not> spock_class env (classId (whole_relation env (rq_seqoid q)))" by (simp add: whole_relation_def)
  have inj: "seq_row_member env q' = seq_row_member env q \<Longrightarrow> rq_seqoid q' = rq_seqoid q" for q'
    by (simp add: member_inject [OF assms(2)])
  have ok: "\<forall>r \<in> set (db_depend db). dep_type r = DEPENDENCY_NORMAL \<and> \<not> spock_class env (classId (dep_ref r)) \<and>
      dep_obj r \<in> members env db"
    and tab: "\<forall>t \<in> set (db_tables db). \<exists>r \<in> set (db_depend db).
        dep_obj r = row_member env t \<and> dep_ref r = whole_relation env (rt_reloid t)"
    and seqs: "\<forall>q \<in> set (db_seqs db). \<exists>r \<in> set (db_depend db).
        dep_obj r = seq_row_member env q \<and> dep_ref r = whole_relation env (rq_seqoid q)"
    and only: "\<forall>q \<in> set (db_seqs db). \<forall>r \<in> set (db_depend db).
        dep_obj r = seq_row_member env q \<longrightarrow> dep_ref r = whole_relation env (rq_seqoid q)"
    using assms(1) by (simp_all add: depend_ok_def)
  have own: "dep_ref r = whole_relation env (rq_seqoid q)"
    if "r \<in> set (db_depend db)" "dep_obj r = seq_row_member env q" for r
  proof -
    from ok that have "seq_row_member env q \<in> members env db" by metis
    then obtain q' where "q' \<in> set (db_seqs db)" "seq_row_member env q' = seq_row_member env q"
      using member_inject(4) [OF assms(2)] by (auto simp: members_def)
    with only that inj show ?thesis by metis
  qed
  let ?new = "\<lparr>dep_obj = seq_row_member env q, dep_ref = whole_relation env (rq_seqoid q), dep_type = DEPENDENCY_NORMAL\<rparr>"
  have rows: "set (db_depend ?db) = insert ?new (set (db_depend db))" "set (db_tables ?db) = set (db_tables db)"
    "set (db_seqs ?db) = insert q (set (db_seqs db))" by auto
  have "dep_ref r = whole_relation env (rq_seqoid q')"
    if "q' \<in> insert q (set (db_seqs db))" "r \<in> insert ?new (set (db_depend db))" "dep_obj r = seq_row_member env q'" for q' r
  proof (cases "r = ?new")
    case True
    with that(3) inj [of q'] show ?thesis by simp
  next
    case False
    with that only own show ?thesis by blast
  qed
  moreover have "\<forall>r \<in> insert ?new (set (db_depend db)). dep_type r = DEPENDENCY_NORMAL \<and>
      \<not> spock_class env (classId (dep_ref r)) \<and> dep_obj r \<in> insert (seq_row_member env q) (members env db)"
    using ok cl by simp
  moreover have "\<forall>q' \<in> insert q (set (db_seqs db)). \<exists>r \<in> insert ?new (set (db_depend db)).
      dep_obj r = seq_row_member env q' \<and> dep_ref r = whole_relation env (rq_seqoid q')"
    using seqs by simp
  moreover have "\<forall>t \<in> set (db_tables db). \<exists>r \<in> insert ?new (set (db_depend db)).
      dep_obj r = row_member env t \<and> dep_ref r = whole_relation env (rt_reloid t)"
    using tab by blast
  ultimately show ?thesis
    unfolding depend_ok_def mem rows by blast
qed

lemma create_state_ids:
  fixes ss :: "SeqStateTuple list"
  shows "distinct (map seq_seqoid ss) \<Longrightarrow> distinct (map seq_seqoid (spock_create_sequence_state_record sv i ss))"
    and "seq_seqoid ` set (spock_create_sequence_state_record sv i ss) = insert i (seq_seqoid ` set ss)"
  by (auto simp: spock_create_sequence_state_record_def find_None_iff split: option.split dest: find_Some_in)

lemma wf_add_seq:
  assumes env: "env_ok env" and wf: "repset_wf env db" and "replication_set_add_seq env setid seqoid db = Inr db'"
  shows "repset_wf env db'"
proof -
  from assms(3) obtain repset rel where rs: "get_replication_set db setid = Inr repset" "open_rel env seqoid = Some rel"
    by (auto simp: replication_set_add_seq_def split: option.splits)
  have id: "rs_id repset = setid" "repset \<in> set (db_sets db)" using get_set_in [OF rs(1)] by auto
  have "seqoid \<noteq> 0" using env rs(2) by (auto simp: env_ok_def)
  define q where "q = \<lparr>rq_setid = rs_id repset, rq_seqoid = seqoid\<rparr>"
  have mem: "seq_member env setid seqoid = seq_row_member env q" by (simp add: seq_row_member_def q_def id)
  from assms(3) have db': "db' = db\<lparr>db_seq_state := spock_create_sequence_state_record (seq_values env) seqoid (db_seq_state db),
      db_seqs := db_seqs db @ [q], db_inval := db_inval db @ [seqoid],
      db_depend := db_depend db @ [\<lparr>dep_obj = seq_row_member env q, dep_ref = whole_relation env (rq_seqoid q),
        dep_type = DEPENDENCY_NORMAL\<rparr>]\<rparr>"
    and fresh: "\<not> list_ex (\<lambda>t. rq_setid t = rs_id repset \<and> rq_seqoid t = seqoid) (db_seqs db)"
    unfolding replication_set_add_seq_def rs res_bind_simps option.case mem
    by (simp_all add: q_def spock_recordDependencyOn_def spock_recordMultipleDependencies_def split: if_split_asm)
  have "depend_ok env db'" unfolding db' using wf env by (intro depend_add_seq) (simp_all add: repset_wf_def repset_core_def)
  with wf fresh id \<open>seqoid \<noteq> 0\<close> create_state_ids [where ss = "db_seq_state db" and sv = "seq_values env" and i = seqoid] show ?thesis
    by (auto simp: db' repset_wf_def repset_core_def seq_tracked_def q_def list_ex_iff)
qed

text \<open>One membership removed, with its dependencies, as the operations of a user do it.\<close>

lemma remove_table_member:
  assumes "env_ok env" "repset_core env db" "t \<in> set (db_tables db)"
  shows "deleteOneObjectDepencencyRecord (row_member env t) (db\<lparr>db_tables := remove1 t (db_tables db)\<rparr>) =
    without_members env {row_member env t} db"
proof -
  have core: "distinct (map (\<lambda>t. (rt_setid t, rt_reloid t)) (db_tables db))"
    using assms(2) by (simp add: repset_core_def)
  have sub: "objectSubId (row_member env t) \<noteq> 0"
    using core_sub [OF assms(2)] assms(3) by (auto simp: members_def)
  have key: "x = t \<longleftrightarrow> rt_setid x = rt_setid t \<and> rt_reloid x = rt_reloid t" if "x \<in> set (db_tables db)" for x
    using key_distinct [OF core assms(3) that] by auto
  have rows: "remove1 t (db_tables db) = filter (\<lambda>x. row_member env x \<noteq> row_member env t) (db_tables db)"
    unfolding remove1_distinct [OF distinct_map [THEN iffD1, OF core, THEN conjunct1]] member_inject [OF assms(1)]
    by (intro filter_cong) (simp_all add: key)
  from sub show ?thesis
    using member_inject(4) [OF assms(1)]
    by (simp add: deleteOneObjectDepencencyRecord_def row_of_part without_members_def rows)
qed

lemma wf_remove_table_member:
  assumes "env_ok env" "repset_wf env db"
  shows "repset_wf env (without_members env {row_member env t} db)"
proof -
  have "repset_core env (without_members env {row_member env t} db)"
    using assms(2) by (intro core_without) (simp add: repset_wf_def)
  then show ?thesis
    using assms(2) member_inject(4) [OF assms(1)] by (simp add: repset_wf_def seq_tracked_def without_members_def)
qed

text \<open>The state record goes with the last membership of its sequence.\<close>

definition remove_seq_row :: "('f, 'm) repset_env_scheme \<Rightarrow> RepSetSeqTuple \<Rightarrow> 'f repset_db \<Rightarrow> 'f repset_db" where
  "remove_seq_row env q db =
     (let db1 = db\<lparr>db_seqs := remove1 q (db_seqs db), db_depend := filter (\<lambda>r. dep_obj r \<noteq> seq_row_member env q) (db_depend db)\<rparr>
      in if list_ex (\<lambda>t. rq_seqoid t = rq_seqoid q) (db_seqs db1) then db1 else drop_state_of (rq_seqoid q) db1)"

lemma wf_remove_seq_row:
  assumes "env_ok env" "repset_wf env db" "q \<in> set (db_seqs db)"
  shows "repset_wf env (remove_seq_row env q db)"
proof -
  let ?db = "remove_seq_row env q db" and ?m = "seq_row_member env q"
  have core: "repset_core env db" and dist: "distinct (db_seqs db)" "distinct (map seq_seqoid (db_seq_state db))"
    and tr: "seq_seqoid ` set (db_seq_state db) = rq_seqoid ` set (db_seqs db)"
    using assms(2) by (simp_all add: repset_wf_def repset_core_def seq_tracked_def)
  have "(\<lambda>x. seq_row_member env x \<noteq> ?m) = (\<lambda>x. x \<noteq> q)"
    by (auto simp: fun_eq_iff member_inject [OF assms(1)])
  then have rows: "remove1 q (db_seqs db) = filter (\<lambda>x. seq_row_member env x \<noteq> ?m) (db_seqs db)"
    by (simp only: remove1_distinct [OF dist(1)])
  have state: "?db = (without_members env {?m} db)\<lparr>db_seq_state := db_seq_state ?db\<rparr>"
    using member_inject(3) [OF assms(1)]
    by (simp add: remove_seq_row_def Let_def without_members_def rows drop_state_of_def)
  have "distinct (map seq_seqoid (db_seq_state ?db))"
    using dist(2) by (simp add: remove_seq_row_def Let_def drop_state_of_def drop_state_filter distinct_map_filter)
  then have "repset_core env ?db"
    by (subst state) (rule core_state [OF core_without [OF core]])
  moreover have "seq_tracked ?db"
  proof (cases "\<exists>t \<in> set (remove1 q (db_seqs db)). rq_seqoid t = rq_seqoid q")
    case True
    then have "rq_seqoid ` set (remove1 q (db_seqs db)) = rq_seqoid ` set (db_seqs db)"
    proof -
      from True obtain t where "t \<in> set (remove1 q (db_seqs db))" "rq_seqoid t = rq_seqoid q" by blast
      moreover have "set (db_seqs db) = insert q (set (remove1 q (db_seqs db)))" using dist(1) assms(3) by auto
      ultimately show ?thesis by (metis image_insert insert_absorb imageI)
    qed
    with True tr show ?thesis
      by (auto simp: seq_tracked_def remove_seq_row_def Let_def list_ex_iff drop_state_of_def)
  next
    case False
    then have "rq_seqoid ` set (remove1 q (db_seqs db)) = rq_seqoid ` set (db_seqs db) - {rq_seqoid q}"
      using dist(1) by auto
    moreover have "seq_seqoid ` {s \<in> set (db_seq_state db). seq_seqoid s \<noteq> rq_seqoid q} =
        seq_seqoid ` set (db_seq_state db) - {rq_seqoid q}" by auto
    ultimately show ?thesis using False tr dist(2)
      by (auto simp: seq_tracked_def remove_seq_row_def Let_def list_ex_iff drop_state_of_def drop_state_filter)
  qed
  ultimately show ?thesis by (simp add: repset_wf_def)
qed

lemma delete_inval: "deleteOneObjectDepencencyRecord m (db\<lparr>db_inval := i\<rparr>) = (deleteOneObjectDepencencyRecord m db)\<lparr>db_inval := i\<rparr>"
  by (cases db) (simp add: deleteOneObjectDepencencyRecord_def)

lemma drop_table_row:
  assumes "env_ok env" "repset_wf env db" "t \<in> set (db_tables db)"
  shows "spock_tryDropDependencies (Suc (Suc n)) env (row_member env t) DROP_CASCADE
      (db\<lparr>db_tables := remove1 t (db_tables db), db_inval := i\<rparr>) =
    Some (Inr ((without_members env {row_member env t} db)\<lparr>db_inval := i\<rparr>))"
proof -
  have core: "repset_core env db" using assms(2) by (simp add: repset_wf_def)
  have "spock_refs env (db_depend (db\<lparr>db_tables := remove1 t (db_tables db), db_inval := i\<rparr>))"
    using core_refs [OF core] by simp
  from drop_member [OF assms(1) this, of "row_member env t"] show ?thesis
    by (simp add: delete_inval remove_table_member [OF assms(1) core assms(3)])
qed

lemma wf_remove_table:
  assumes "env_ok env" "repset_wf env db"
    "replication_set_remove_table env (spock_tryDropDependencies (Suc (Suc n)) env) setid reloid False db = Some (Inr db')"
  shows "repset_wf env db'"
proof -
  from assms(3) obtain t where "get_table_replication_row db setid reloid = Some t"
    by (auto simp: replication_set_remove_table_def er_bind_def split: option.splits sum.splits)
  moreover from this have t: "t \<in> set (db_tables db)" "table_member env setid reloid = row_member env t"
    by (auto simp: get_table_replication_row_def row_member_def dest: find_Some_in)
  ultimately show ?thesis
    using assms(3) drop_table_row [OF assms(1,2) t(1)] wf_remove_table_member [OF assms(1,2)]
    by (auto simp: replication_set_remove_table_def)
qed

lemma drop_seq_row:
  assumes "env_ok env" "repset_wf env db" "q \<in> set (db_seqs db)"
  shows "spock_tryDropDependencies (Suc (Suc n)) env (seq_row_member env q) DROP_CASCADE
      (db\<lparr>db_seqs := remove1 q (db_seqs db), db_inval := i\<rparr>) =
    Some (Inr (db\<lparr>db_seqs := remove1 q (db_seqs db), db_inval := i,
      db_depend := filter (\<lambda>r. dep_obj r \<noteq> seq_row_member env q) (db_depend db)\<rparr>))"
proof -
  have core: "repset_core env db" using assms(2) by (simp add: repset_wf_def)
  have "objectSubId (seq_row_member env q) \<noteq> 0"
    using core_sub [OF core] assms(3) by (auto simp: members_def)
  moreover have "spock_refs env (db_depend (db\<lparr>db_seqs := remove1 q (db_seqs db), db_inval := i\<rparr>))"
    using core_refs [OF core] by simp
  note drop_member [OF assms(1) this, of "seq_row_member env q"]
  ultimately show ?thesis
    by (simp add: deleteOneObjectDepencencyRecord_def row_of_part)
qed

lemma wf_remove_seq:
  assumes "env_ok env" "repset_wf env db"
    "replication_set_remove_seq env (spock_tryDropDependencies (Suc (Suc n)) env) setid seqoid False db = Some (Inr db')"
  shows "repset_wf env db'"
proof -
  from assms(3) obtain q where f: "find (\<lambda>t. rq_setid t = setid \<and> rq_seqoid t = seqoid) (db_seqs db) = Some q"
    by (auto simp: replication_set_remove_seq_def er_bind_def split: option.splits sum.splits)
  then have q: "q \<in> set (db_seqs db)" "rq_seqoid q = seqoid" "seq_member env setid seqoid = seq_row_member env q"
    by (auto simp: seq_row_member_def dest: find_Some_in)
  with assms(3) f have "db' = (remove_seq_row env q db)\<lparr>db_inval := db_inval db @ [seqoid]\<rparr>"
    using drop_seq_row [OF assms(1,2) q(1)]
    by (cases db) (auto simp: replication_set_remove_seq_def sequence_has_replication_sets_def remove_seq_row_def
        drop_state_of_def er_bind_def split: sum.splits if_splits)
  then show ?thesis
    using wf_remove_seq_row [OF assms(1,2) q(1)] by simp
qed

text \<open>A loop that always goes on and keeps a relation between the rest of its list and the state.\<close>

lemma er_fold_inv:
  assumes "\<And>x xs s. I (x # xs) s \<Longrightarrow> \<exists>s'. f x s = Some (Inr s') \<and> I xs s'"
  shows "I xs s \<Longrightarrow> \<exists>s'. er_fold f xs s = Some (Inr s') \<and> I [] s'"
proof (induction xs arbitrary: s)
  case (Cons x xs)
  from assms [OF Cons.prems] obtain s' where "f x s = Some (Inr s')" "I xs s'" by blast
  with Cons.IH show ?case by fastforce
qed auto

definition set_empty :: "Oid \<Rightarrow> 'f repset_db \<Rightarrow> bool" where
  "set_empty setid db \<longleftrightarrow> (\<forall>t \<in> set (db_tables db). rt_setid t \<noteq> setid) \<and> (\<forall>q \<in> set (db_seqs db). rq_setid q \<noteq> setid)"

lemma remove_tables:
  assumes env: "env_ok env" and wf: "repset_wf env db"
  shows "\<exists>db'. replication_set_remove_tables env (spock_tryDropDependencies (Suc (Suc n)) env) setid nodeid db = Some (Inr db') \<and>
    repset_wf env db' \<and> db_sets db' = db_sets db \<and> (\<forall>t \<in> set (db_tables db'). rt_setid t \<noteq> setid)"
proof -
  let ?I = "\<lambda>ts db'. repset_wf env db' \<and> distinct ts \<and> set ts = {t \<in> set (db_tables db'). rt_setid t = setid} \<and>
      db_sets db' = db_sets db"
  have step: "\<exists>db2. spock_tryDropDependencies (Suc (Suc n)) env (table_member env setid (rt_reloid t)) DROP_CASCADE
        (db1\<lparr>db_tables := remove1 t (db_tables db1), db_inval := db_inval db1 @ [rt_reloid t]\<rparr>) = Some (Inr db2) \<and> ?I ts db2"
    if I: "?I (t # ts) db1" for t ts db1
  proof -
    have t: "t \<in> set (db_tables db1)" "rt_setid t = setid" using I by auto
    then have m: "table_member env setid (rt_reloid t) = row_member env t" by (simp add: row_member_def)
    have "distinct (map (\<lambda>t. (rt_setid t, rt_reloid t)) (db_tables db1))"
      using I by (simp add: repset_wf_def repset_core_def)
    from key_distinct [OF this t(1)] have "row_member env x \<noteq> row_member env t \<longleftrightarrow> x \<noteq> t" if "x \<in> set (db_tables db1)" for x
      using that by (metis member_inject(1) [OF env])
    then have "{x \<in> set (db_tables db1). row_member env x \<noteq> row_member env t \<and> rt_setid x = setid} =
        {x \<in> set (db_tables db1). rt_setid x = setid} - {t}" by blast
    moreover have "set ts = {x \<in> set (db_tables db1). rt_setid x = setid} - {t}" using I by auto
    ultimately have "?I ts ((without_members env {row_member env t} db1)\<lparr>db_inval := db_inval db1 @ [rt_reloid t]\<rparr>)"
      using I wf_remove_table_member [OF env, of db1 t] by (simp add: without_members_def conj_ac)
    then show ?thesis
      unfolding m using I drop_table_row [OF env _ t(1)] by blast
  qed
  have "distinct (db_tables db)"
    using wf by (auto simp: repset_wf_def repset_core_def distinct_map)
  then have "?I (filter (\<lambda>t. rt_setid t = setid) (db_tables db)) db" using wf by simp
  from er_fold_inv [where I = ?I and f = "\<lambda>t db. spock_tryDropDependencies (Suc (Suc n)) env
      (table_member env setid (rt_reloid t)) DROP_CASCADE
      (db\<lparr>db_tables := remove1 t (db_tables db), db_inval := db_inval db @ [rt_reloid t]\<rparr>)", OF step this]
  show ?thesis
    unfolding replication_set_remove_tables_def by auto
qed

lemma remove_seq_step:
  assumes env: "env_ok env" and wf: "repset_wf env db" and q: "q \<in> set (db_seqs db)" "rq_setid q = setid"
  shows "(let seqoid = rq_seqoid q; db = db\<lparr>db_seqs := remove1 q (db_seqs db)\<rparr>;
      db = (if sequence_has_replication_sets db nodeid seqoid then db else drop_state_of seqoid db)
    in spock_tryDropDependencies (Suc (Suc n)) env (seq_member env setid seqoid) DROP_CASCADE
         (db\<lparr>db_inval := db_inval db @ [seqoid]\<rparr>)) =
    Some (Inr ((remove_seq_row env q db)\<lparr>db_inval := db_inval db @ [rq_seqoid q]\<rparr>))"
proof -
  have core: "repset_core env db" using wf by (simp add: repset_wf_def)
  have m: "seq_member env setid (rq_seqoid q) = seq_row_member env q" by (simp add: seq_row_member_def q)
  have sub: "objectSubId (seq_row_member env q) \<noteq> 0" using core_sub [OF core] q by (auto simp: members_def)
  have del: "spock_tryDropDependencies (Suc (Suc n)) env (seq_row_member env q) DROP_CASCADE db1 =
      Some (Inr (deleteOneObjectDepencencyRecord (seq_row_member env q) db1))"
    if "db_depend db1 = db_depend db" for db1
    using that core_refs [OF core] by (intro drop_member [OF env]) simp_all
  show ?thesis
    by (cases db) (simp add: Let_def m del sub sequence_has_replication_sets_def remove_seq_row_def drop_state_of_def
        deleteOneObjectDepencencyRecord_def row_of_part)
qed

lemma remove_seqs:
  assumes env: "env_ok env" and wf: "repset_wf env db"
  shows "\<exists>db'. replication_set_remove_seqs env (spock_tryDropDependencies (Suc (Suc n)) env) setid nodeid db = Some (Inr db') \<and>
    repset_wf env db' \<and> db_sets db' = db_sets db \<and> db_tables db' = db_tables db \<and>
    (\<forall>q \<in> set (db_seqs db'). rq_setid q \<noteq> setid)"
proof -
  let ?I = "\<lambda>qs db'. repset_wf env db' \<and> distinct qs \<and> set qs = {q \<in> set (db_seqs db'). rq_setid q = setid} \<and>
      db_sets db' = db_sets db \<and> db_tables db' = db_tables db"
  let ?f = "\<lambda>t db. let seqoid = rq_seqoid t; db = db\<lparr>db_seqs := remove1 t (db_seqs db)\<rparr>;
      db = (if sequence_has_replication_sets db nodeid seqoid then db else drop_state_of seqoid db)
    in spock_tryDropDependencies (Suc (Suc n)) env (seq_member env setid seqoid) DROP_CASCADE
         (db\<lparr>db_inval := db_inval db @ [seqoid]\<rparr>)"
  have step: "\<exists>db2. ?f q db1 = Some (Inr db2) \<and> ?I qs db2" if I: "?I (q # qs) db1" for q qs db1
  proof -
    let ?db2 = "(remove_seq_row env q db1)\<lparr>db_inval := db_inval db1 @ [rq_seqoid q]\<rparr>"
    have q: "q \<in> set (db_seqs db1)" "rq_setid q = setid" using I by auto
    have dist: "distinct (db_seqs db1)" using I by (simp add: repset_wf_def repset_core_def)
    have rows: "db_seqs ?db2 = remove1 q (db_seqs db1)" "db_sets ?db2 = db_sets db1" "db_tables ?db2 = db_tables db1"
      by (simp_all add: remove_seq_row_def Let_def drop_state_of_def)
    have "set qs = {x \<in> set (remove1 q (db_seqs db1)). rq_setid x = setid}"
      using I dist by auto
    then have "?I qs ?db2"
      using I wf_remove_seq_row [OF env _ q(1)] by (simp only: rows wf_inval) simp
    with remove_seq_step [OF env _ q] I show ?thesis by blast
  qed
  have "?I (filter (\<lambda>q. rq_setid q = setid) (db_seqs db)) db"
    using wf by (simp add: repset_wf_def repset_core_def)
  from er_fold_inv [where I = ?I and f = ?f, OF step this] show ?thesis
    unfolding replication_set_remove_seqs_def by auto
qed

lemma wf_remove_set:
  assumes "repset_wf env db" "s \<in> set (db_sets db)" "set_empty (rs_id s) db"
  shows "repset_wf env (db\<lparr>db_sets := remove1 s (db_sets db)\<rparr>)"
proof -
  have ids: "distinct (map rs_id (db_sets db))" "distinct (map (\<lambda>s. (rs_nodeid s, rs_name s)) (db_sets db))"
    using assms(1) by (simp_all add: repset_wf_def repset_core_def)
  then have rows: "remove1 s (db_sets db) = filter (\<lambda>x. x \<noteq> s) (db_sets db)"
    by (intro remove1_distinct) (auto simp: distinct_map)
  have "i \<in> rs_id ` set (filter (\<lambda>x. x \<noteq> s) (db_sets db))" if "i \<in> rs_id ` set (db_sets db)" "i \<noteq> rs_id s" for i
    using that by auto
  moreover have "distinct (map rs_id (filter (\<lambda>x. x \<noteq> s) (db_sets db)))"
    "distinct (map (\<lambda>s. (rs_nodeid s, rs_name s)) (filter (\<lambda>x. x \<noteq> s) (db_sets db)))"
    using ids by (simp_all add: distinct_map_filter)
  ultimately show ?thesis
    using assms unfolding rows
    by (simp add: repset_wf_def repset_core_def seq_tracked_def set_empty_def depend_ok_def members_def)
qed

lemma empty_set:
  assumes env: "env_ok env" and wf: "repset_wf env db"
  shows "\<exists>db1 db2. replication_set_remove_tables env (spock_tryDropDependencies (Suc (Suc n)) env) setid nodeid db = Some (Inr db1) \<and>
    replication_set_remove_seqs env (spock_tryDropDependencies (Suc (Suc n)) env) setid nodeid db1 = Some (Inr db2) \<and>
    repset_wf env db2 \<and> db_sets db2 = db_sets db \<and> set_empty setid db2"
proof -
  from remove_tables [OF assms] obtain db1 where
    t: "replication_set_remove_tables env (spock_tryDropDependencies (Suc (Suc n)) env) setid nodeid db = Some (Inr db1)"
      "repset_wf env db1" "db_sets db1 = db_sets db" "\<forall>t \<in> set (db_tables db1). rt_setid t \<noteq> setid" by blast
  from remove_seqs [OF env t(2)] obtain db2 where
    "replication_set_remove_seqs env (spock_tryDropDependencies (Suc (Suc n)) env) setid nodeid db1 = Some (Inr db2)"
    "repset_wf env db2" "db_sets db2 = db_sets db1" "db_tables db2 = db_tables db1"
    "\<forall>q \<in> set (db_seqs db2). rq_setid q \<noteq> setid" by blast
  with t show ?thesis by (auto simp: set_empty_def)
qed

lemma wf_drop_set:
  assumes env: "env_ok env" and wf: "repset_wf env db"
    and "drop_replication_set env (spock_tryDropDependencies (Suc (Suc n)) env) setid db = Some (Inr db')"
  shows "repset_wf env db'"
proof -
  from assms(3) obtain s where s: "get_replication_set db setid = Inr s"
    by (cases "get_replication_set db setid") (auto simp: drop_replication_set_def)
  obtain db1 db2 where e: "replication_set_remove_tables env (spock_tryDropDependencies (Suc (Suc n)) env) setid (rs_nodeid s) db = Some (Inr db1)"
    "replication_set_remove_seqs env (spock_tryDropDependencies (Suc (Suc n)) env) setid (rs_nodeid s) db1 = Some (Inr db2)"
    "repset_wf env db2" "db_sets db2 = db_sets db" "set_empty setid db2"
    using empty_set [OF env wf] by blast
  have "repset_wf env (db2\<lparr>db_sets := remove1 s (db_sets db2)\<rparr>)"
    using get_set_in [OF s] e(3-5) by (intro wf_remove_set) simp_all
  moreover have "db' = db2\<lparr>db_sets := remove1 s (db_sets db2), db_inval := db_inval db2 @ [replication_set_rel_oid env]\<rparr>"
    using assms(3) s e by (simp add: drop_replication_set_def)
  ultimately show ?thesis by simp
qed

lemma wf_drop_node:
  assumes env: "env_ok env" and wf: "repset_wf env db"
  shows "\<exists>db'. drop_node_replication_sets env (spock_tryDropDependencies (Suc (Suc n)) env) nodeid db = Some (Inr db') \<and>
    repset_wf env db'"
proof -
  let ?d = "spock_tryDropDependencies (Suc (Suc n)) env"
  let ?I = "\<lambda>ss db'. repset_wf env db' \<and> distinct ss \<and> set ss \<subseteq> set (db_sets db')"
  let ?f = "\<lambda>s db. er_bind (replication_set_remove_tables env ?d (rs_id s) (rs_nodeid s) db) (\<lambda>db.
      er_bind (replication_set_remove_seqs env ?d (rs_id s) (rs_nodeid s) db) (\<lambda>db.
        Some (Inr (db\<lparr>db_sets := remove1 s (db_sets db)\<rparr>))))"
  have step: "\<exists>db2. ?f s db1 = Some (Inr db2) \<and> ?I ss db2" if I: "?I (s # ss) db1" for s ss db1
  proof -
    obtain db2 db3 where e: "replication_set_remove_tables env ?d (rs_id s) (rs_nodeid s) db1 = Some (Inr db2)"
      "replication_set_remove_seqs env ?d (rs_id s) (rs_nodeid s) db2 = Some (Inr db3)"
      "repset_wf env db3" "db_sets db3 = db_sets db1" "set_empty (rs_id s) db3"
      using empty_set [OF env] I by blast
    have "repset_wf env (db3\<lparr>db_sets := remove1 s (db_sets db3)\<rparr>)"
      using I e(3-5) by (intro wf_remove_set) simp_all
    moreover have "set ss \<subseteq> set (remove1 s (db_sets db3))"
    proof
      fix x assume "x \<in> set ss"
      with I have "x \<noteq> s" "x \<in> set (db_sets db1)" by auto
      with e(4) show "x \<in> set (remove1 s (db_sets db3))" by simp
    qed
    ultimately show ?thesis using e(1,2) I by simp
  qed
  have "?I (filter (\<lambda>s. rs_nodeid s = nodeid) (db_sets db)) db"
    using wf by (auto simp: repset_wf_def repset_core_def distinct_map)
  from er_fold_inv [where I = ?I and f = ?f, OF step this] show ?thesis
    unfolding drop_node_replication_sets_def by auto
qed

section \<open>The catalogs stay well-formed\<close>

text \<open>
  Every run of the operations a user or the server calls.  The environment may be another one at
  each step, relations come and go, but the catalogs keep their oids.
\<close>

definition same_classes :: "('f, 'm) repset_env_scheme \<Rightarrow> ('f, 'm) repset_env_scheme \<Rightarrow> bool" where
  "same_classes env env' \<longleftrightarrow>
     replication_set_rel_oid env' = replication_set_rel_oid env \<and>
     replication_set_table_rel_oid env' = replication_set_table_rel_oid env \<and>
     replication_set_seq_rel_oid env' = replication_set_seq_rel_oid env \<and>
     RelationRelationId env' = RelationRelationId env"

lemma wf_same_classes:
  assumes "same_classes env env'" shows "repset_wf env' db = repset_wf env db"
proof -
  have "row_member env' = row_member env" "seq_row_member env' = seq_row_member env"
    "whole_relation env' = whole_relation env" "spock_class env' = spock_class env"
    using assms by (simp_all add: fun_eq_iff same_classes_def row_member_def table_member_def seq_row_member_def
        seq_member_def whole_relation_def spock_class_def)
  then show ?thesis by (simp add: repset_wf_def repset_core_def depend_ok_def members_def)
qed

inductive repset_step :: "('f, 'm) repset_env_scheme \<Rightarrow> 'f repset_db \<Rightarrow> 'f repset_db \<Rightarrow> bool" where
  "create_replication_set env repset db = Inr db' \<Longrightarrow> repset_step env db db'"
| "alter_replication_set env repset db = Inr db' \<Longrightarrow> repset_step env db db'"
| "replication_set_add_table env setid reloid att_list row_filter db = Inr db' \<Longrightarrow> repset_step env db db'"
| "replication_set_add_seq env setid seqoid db = Inr db' \<Longrightarrow> repset_step env db db'"
| "replication_set_remove_table env (spock_tryDropDependencies (Suc (Suc n)) env) setid reloid False db = Some (Inr db') \<Longrightarrow>
     repset_step env db db'"
| "replication_set_remove_seq env (spock_tryDropDependencies (Suc (Suc n)) env) setid seqoid False db = Some (Inr db') \<Longrightarrow>
     repset_step env db db'"
| "drop_replication_set env (spock_tryDropDependencies (Suc (Suc n)) env) setid db = Some (Inr db') \<Longrightarrow> repset_step env db db'"
| "drop_node_replication_sets env (spock_tryDropDependencies (Suc (Suc n)) env) nodeid db = Some (Inr db') \<Longrightarrow>
     repset_step env db db'"
| "\<not> IsPinnedObject env (classId x) (objectId x) \<Longrightarrow>
     spock_checkDependency (Suc (Suc (Suc n))) env x behavior (db, rows) = Some (Inr (db', rows')) \<Longrightarrow> repset_step env db db'"

inductive repset_reach :: "('f, 'm) repset_env_scheme \<Rightarrow> 'f repset_db \<Rightarrow> bool" for env where
  start: "repset_reach env \<lparr>db_sets = [], db_tables = [], db_seqs = [], db_depend = [], db_seq_state = [], db_inval = []\<rparr>"
| step: "repset_reach env db \<Longrightarrow> same_classes env env' \<Longrightarrow> env_ok env' \<Longrightarrow> repset_step env' db db' \<Longrightarrow> repset_reach env db'"

lemma wf_check:
  assumes "env_ok env" "repset_wf env db" "\<not> IsPinnedObject env (classId x) (objectId x)"
    "spock_checkDependency (Suc (Suc (Suc n))) env x behavior (db, rows) = Some (Inr (db', rows'))"
  shows "repset_wf env db'"
proof (cases "classId x = RelationRelationId env")
  case True
  have core: "repset_core env db" using assms(2) by (simp add: repset_wf_def)
  have "\<not> spock_class env (classId x)" using assms(1) True by (auto simp: env_ok_def spock_class_def)
  with assms(4) True have "db' = without_members env (drop_removes db x) db"
    using drop_server_object [OF assms(1) core _ assms(3)]
    by (auto simp: spock_checkDependency_def split: if_splits option.splits)
  then show ?thesis
    using core_without [OF core] tracked_without [OF assms(1,2)] by (simp add: repset_wf_def)
next
  case False
  with assms show ?thesis by (simp add: spock_checkDependency_def)
qed

lemma wf_step: "repset_step env db db' \<Longrightarrow> env_ok env \<Longrightarrow> repset_wf env db \<Longrightarrow> repset_wf env db'"
proof (induction rule: repset_step.induct)
  case (8 env n nodeid db db')
  then show ?case using wf_drop_node [of env db n nodeid] by auto
qed (blast intro: wf_create wf_alter wf_add_table wf_add_seq wf_remove_table wf_remove_seq wf_drop_set wf_check)+

text \<open>
  C6: The catalogs of the replication sets are well-formed after every run of the operations on them,
  whatever relations exist when: ids, names per node and memberships are unique, every membership is
  in an existing set and has its dependency on its relation, every row of \<open>spock.depend\<close> belongs to
  an existing membership, and a sequence has a state record exactly while it is in some set.
\<close>

theorem repset_always_wf: "repset_reach env db \<Longrightarrow> repset_wf env db"
proof (induction rule: repset_reach.induct)
  case start
  show ?case by (simp add: repset_wf_def repset_core_def depend_ok_def seq_tracked_def)
next
  case (step db env' db')
  then show ?case using wf_step wf_same_classes by blast
qed

section \<open>How a table is replicated\<close>

lemma res_fold_append: "res_fold f (xs @ ys) s = res_bind (res_fold f xs s) (res_fold f ys)"
  by (induction xs arbitrary: s) (auto simp: res_bind_def split: sum.splits)

lemma res_fold_pairs:
  "res_fold (\<lambda>x. res_fold (f x) ys) xs s = res_fold (\<lambda>(x, y). f x y) (List.product xs ys) s"
proof (induction xs arbitrary: s)
  case (Cons x xs)
  have "res_fold (\<lambda>(x, y). f x y) (map (Pair x) ys) s = res_fold (f x) ys s" for s
    by (induction ys arbitrary: s) (auto simp: res_bind_def split: sum.splits)
  with Cons show ?case by (simp add: res_fold_append) (metis (no_types, lifting) Cons.IH ext)
qed simp

definition columns_of :: "att_list \<Rightarrow> int set" where
  "columns_of a = (case a of None \<Rightarrow> {} | Some ns \<Rightarrow> set ns)"

text \<open>The membership \<open>t\<close> lists the column number \<open>k\<close>.\<close>

definition lists_column :: "pg_attribute list \<Rightarrow> 'f RepSetTableTuple \<Rightarrow> int \<Rightarrow> bool" where
  "lists_column desc t k \<longleftrightarrow> (\<exists>names. rt_att_list t = Some names \<and> (\<exists>n \<in> set names. get_att_num_by_name desc n = Inr k))"

lemma add_columns_result:
  "add_columns desc names acc = Inr acc' \<Longrightarrow>
     columns_of acc' = columns_of acc \<union> {k. \<exists>n \<in> set names. get_att_num_by_name desc n = Inr k} \<and>
     (acc' = None \<longleftrightarrow> acc = None \<and> names = [])"
proof (induction desc names acc rule: add_columns.induct)
  case (2 desc n ns acc)
  then obtain k where k: "get_att_num_by_name desc n = Inr k" "add_columns desc ns (bms_add_member acc k) = Inr acc'"
    by auto
  have "columns_of (bms_add_member acc k) = insert k (columns_of acc)" "bms_add_member acc k \<noteq> None"
    by (auto simp: columns_of_def bms_add_member_def split: option.splits)
  with "2.IH" [OF k(2)] k show ?case by auto
qed auto

definition matching :: "'f RepSetTableTuple \<times> SpockRepSet \<Rightarrow> bool" where
  "matching = (\<lambda>(t, s). rt_setid t = rs_id s)"

definition has_columns :: "'f RepSetTableTuple \<Rightarrow> bool" where
  "has_columns t \<longleftrightarrow> rt_att_list t \<noteq> None \<and> rt_att_list t \<noteq> Some []"

definition info_of ::
    "pg_attribute list \<Rightarrow> ('f RepSetTableTuple \<times> SpockRepSet) set \<Rightarrow> 'f SpockTableRepInfo \<Rightarrow> 'f SpockTableRepInfo \<Rightarrow> bool" where
  "info_of desc M e e' \<longleftrightarrow>
     (ti_replicate_insert e' \<longleftrightarrow> ti_replicate_insert e \<or> (\<exists>(t, s) \<in> M. rs_replicate_insert s)) \<and>
     (ti_replicate_update e' \<longleftrightarrow> ti_replicate_update e \<or> (\<exists>(t, s) \<in> M. rs_replicate_update s)) \<and>
     (ti_replicate_delete e' \<longleftrightarrow> ti_replicate_delete e \<or> (\<exists>(t, s) \<in> M. rs_replicate_delete s)) \<and>
     (ti_replicate_truncate e' \<longleftrightarrow> ti_replicate_truncate e \<or> (\<exists>(t, s) \<in> M. rs_replicate_truncate s)) \<and>
     (ti_att_list e' = None \<longleftrightarrow> ti_att_list e = None \<and> (\<forall>(t, s) \<in> M. \<not> has_columns t)) \<and>
     columns_of (ti_att_list e') = columns_of (ti_att_list e) \<union> {k. \<exists>(t, s) \<in> M. lists_column desc t k} \<and>
     set (ti_row_filter e') = set (ti_row_filter e) \<union> {f. \<exists>(t, s) \<in> M. rt_row_filter t = Some f}"

lemma add_membership_info:
  assumes "add_membership desc t s e = Inr e'"
  shows "info_of desc (if matching (t, s) then {(t, s)} else {}) e e'"
proof (cases "rt_setid t = rs_id s")
  case False
  with assms show ?thesis by (simp add: add_membership_def info_of_def matching_def)
next
  case True
  with assms obtain al where al:
    "(case rt_att_list t of None \<Rightarrow> Inr (ti_att_list e) | Some names \<Rightarrow> add_columns desc names (ti_att_list e)) = Inr al"
    and e': "e' = e\<lparr>ti_replicate_insert := ti_replicate_insert e \<or> rs_replicate_insert s,
      ti_replicate_update := ti_replicate_update e \<or> rs_replicate_update s,
      ti_replicate_delete := ti_replicate_delete e \<or> rs_replicate_delete s,
      ti_replicate_truncate := ti_replicate_truncate e \<or> rs_replicate_truncate s,
      ti_att_list := al, ti_row_filter := (case rt_row_filter t of None \<Rightarrow> ti_row_filter e | Some f \<Rightarrow> ti_row_filter e @ [f])\<rparr>"
    by (auto simp: add_membership_def Let_def cong: option.case_cong)
  from al have "columns_of al = columns_of (ti_att_list e) \<union> {k. lists_column desc t k}"
    "al = None \<longleftrightarrow> ti_att_list e = None \<and> \<not> has_columns t"
    by (auto simp: lists_column_def has_columns_def dest!: add_columns_result split: option.splits)
  with True e' show ?thesis
    by (auto simp: info_of_def matching_def split: option.splits)
qed

lemma info_of_trans: "info_of desc A e e1 \<Longrightarrow> info_of desc B e1 e2 \<Longrightarrow> info_of desc (A \<union> B) e e2"
  unfolding info_of_def by (simp add: ball_Un bex_Un) blast

lemma fold_membership_info:
  "res_fold (\<lambda>(t, s). add_membership desc t s) ps e = Inr e' \<Longrightarrow> info_of desc {p \<in> set ps. matching p} e e'"
proof (induction ps arbitrary: e)
  case Nil
  then show ?case by (simp add: info_of_def)
next
  case (Cons p ps)
  obtain t s where p: "p = (t, s)" by (cases p)
  with Cons.prems obtain e1 where "add_membership desc t s e = Inr e1"
    "res_fold (\<lambda>(t, s). add_membership desc t s) ps e1 = Inr e'" by auto
  then have "info_of desc ((if matching (t, s) then {(t, s)} else {}) \<union> {p \<in> set ps. matching p}) e e'"
    by (blast intro: info_of_trans add_membership_info Cons.IH)
  moreover have "(if matching (t, s) then {(t, s)} else {}) \<union> {p \<in> set ps. matching p} = {q \<in> set (p # ps). matching q}"
    by (auto simp: p)
  ultimately show ?case by simp
qed

text \<open>The memberships of a table in the sets of a subscription.\<close>

definition subscribed ::
    "'f repset_db \<Rightarrow> Relation \<Rightarrow> SpockRepSet list \<Rightarrow> ('f RepSetTableTuple \<times> SpockRepSet) set" where
  "subscribed db table subs =
     {(t, s). t \<in> set (db_tables db) \<and> rt_reloid t = rd_id table \<and> s \<in> set subs \<and> rt_setid t = rs_id s}"

text \<open>
  C22: How the changes of a table are replicated, when the answer is not cached.  An action is
  replicated exactly when one of the subscribed sets the table is in replicates it.  The columns are
  restricted as soon as one of the memberships has a column list, even where another membership has
  none, and then to the union of the lists.  The row filters are those of all the memberships.  The
  answer is cached and marked valid.
\<close>

theorem table_info_union:
  assumes "get_table_replication_info db table subs cache = Inr (info, cache')"
    and "\<forall>e. hash_find cache (rd_id table) = Some e \<longrightarrow> \<not> ti_isvalid e"
  shows "(ti_replicate_insert info \<longleftrightarrow> (\<exists>(t, s) \<in> subscribed db table subs. rs_replicate_insert s)) \<and>
    (ti_replicate_update info \<longleftrightarrow> (\<exists>(t, s) \<in> subscribed db table subs. rs_replicate_update s)) \<and>
    (ti_replicate_delete info \<longleftrightarrow> (\<exists>(t, s) \<in> subscribed db table subs. rs_replicate_delete s)) \<and>
    (ti_replicate_truncate info \<longleftrightarrow> (\<exists>(t, s) \<in> subscribed db table subs. rs_replicate_truncate s)) \<and>
    (ti_att_list info = None \<longleftrightarrow> (\<forall>(t, s) \<in> subscribed db table subs. \<not> has_columns t)) \<and>
    columns_of (ti_att_list info) = {k. \<exists>(t, s) \<in> subscribed db table subs. lists_column (rd_att table) t k} \<and>
    set (ti_row_filter info) = {f. \<exists>(t, s) \<in> subscribed db table subs. rt_row_filter t = Some f} \<and>
    ti_isvalid info \<and> hash_find cache' (rd_id table) = Some info"
proof -
  from assms obtain e where info: "info = e\<lparr>ti_isvalid := True\<rparr>" "hash_find cache' (rd_id table) = Some info"
    and e: "res_fold (\<lambda>t. res_fold (add_membership (rd_att table) t) subs)
      (filter (\<lambda>t. rt_reloid t = rd_id table) (db_tables db)) empty_info = Inr e"
    by (auto simp: get_table_replication_info_def fill_table_info_def hash_simps split: option.splits if_splits)
  have "{p \<in> set (List.product (filter (\<lambda>t. rt_reloid t = rd_id table) (db_tables db)) subs). matching p} =
      subscribed db table subs"
    by (auto simp: subscribed_def matching_def)
  with fold_membership_info [OF e [unfolded res_fold_pairs]] have "info_of (rd_att table) (subscribed db table subs) empty_info e"
    by simp
  then show ?thesis
    unfolding info(2) info(1) by (simp add: info_of_def empty_info_def columns_of_def)
qed

section \<open>Concrete catalogs\<close>

definition demo_repset_env :: "bytes repset_env" where
  "demo_repset_env = depend_env.extend demo_depend_env \<lparr>replication_set_rel_oid = 16410,
     replication_set_table_rel_oid = 16420, replication_set_seq_rel_oid = 16430,
     hash_any = (\<lambda>s. word_of_nat (length s)), hash_pair = (\<lambda>a b. a + b),
     open_rel = (\<lambda>i. if i = 0 then None else Some \<lparr>tr_needs_wal = True, tr_replidindex = 1, tr_plain_table = True,
       tr_nspname = cs ''public'', tr_relname = cs ''t'', tr_extension = 0\<rparr>),
     extension_oid = (\<lambda>_. 0), object_description = (\<lambda>_. Some (cs ''table t'')), filter_references = (\<lambda>_. []),
     seq_values = demo_seq_server\<rparr>"

definition demo_set :: SpockRepSet where
  "demo_set = \<lparr>rs_id = 7, rs_nodeid = 1, rs_name = cs ''default'', rs_replicate_insert = True,
     rs_replicate_update = True, rs_replicate_delete = True, rs_replicate_truncate = False\<rparr>"

definition demo_row :: "bytes RepSetTableTuple" where
  "demo_row = \<lparr>rt_setid = 7, rt_reloid = 16500, rt_att_list = Some [cs ''a''], rt_row_filter = None\<rparr>"

definition demo_repset_db :: "bytes repset_db" where
  "demo_repset_db = \<lparr>db_sets = [demo_set], db_tables = [demo_row], db_seqs = [],
     db_depend = [\<lparr>dep_obj = demo_object 16420 7 16500, dep_ref = demo_object 1259 16500 0, dep_type = DEPENDENCY_NORMAL\<rparr>],
     db_seq_state = [], db_inval = [16500]\<rparr>"

lemmas demo_repset_defs = demo_repset_env_def demo_depend_env_def demo_set_def demo_row_def demo_repset_db_def
  demo_object_def depend_env.defs repset_env.defs

lemma demo_env_ok: "env_ok demo_repset_env"
  by (auto simp: env_ok_def demo_repset_defs spock_class_def)

lemma demo_reach: "repset_reach demo_repset_env demo_repset_db"
proof -
  let ?env = demo_repset_env
  let ?db0 = "\<lparr>db_sets = [], db_tables = [], db_seqs = [], db_depend = [], db_seq_state = [], db_inval = []\<rparr> :: bytes repset_db"
  have same: "same_classes ?env ?env" by (simp add: same_classes_def)
  have "create_replication_set ?env demo_set ?db0 = Inr (?db0\<lparr>db_sets := [demo_set]\<rparr>)"
    by code_simp
  with same demo_env_ok have 1: "repset_reach ?env (?db0\<lparr>db_sets := [demo_set]\<rparr>)"
    by (blast intro: repset_reach.intros repset_step.intros)
  have "replication_set_add_table ?env 7 16500 [cs ''a''] None (?db0\<lparr>db_sets := [demo_set]\<rparr>) = Inr demo_repset_db"
    by code_simp
  with 1 same demo_env_ok show ?thesis
    by (blast intro: repset_reach.intros repset_step.intros)
qed

theorem repset_always_wf_witness: "repset_reach demo_repset_env demo_repset_db \<and> repset_wf demo_repset_env demo_repset_db"
  using demo_reach repset_always_wf [OF demo_reach] by blast

theorem table_info_union_witness:
  "\<exists>info cache'. get_table_replication_info demo_repset_db (demo_table\<lparr>rd_id := 16500\<rparr>) [demo_set] [] = Inr (info, cache') \<and>
     ti_replicate_delete info \<and> \<not> ti_replicate_truncate info \<and> ti_att_list info \<noteq> None"
proof -
  let ?t = "demo_table\<lparr>rd_id := 16500\<rparr>"
  have "\<exists>info cache'. get_table_replication_info demo_repset_db ?t [demo_set] [] = Inr (info, cache')"
    by (simp add: get_table_replication_info_def fill_table_info_def hash_simps demo_repset_defs demo_table_def
        demo_att_def add_membership_def cs_def ch_def)
  then obtain info cache' where i: "get_table_replication_info demo_repset_db ?t [demo_set] [] = Inr (info, cache')" by blast
  have "subscribed demo_repset_db ?t [demo_set] = {(demo_row, demo_set)}"
    by (auto simp: subscribed_def demo_repset_defs)
  with table_info_union [OF i] i show ?thesis
    by (auto simp: hash_simps demo_set_def has_columns_def demo_row_def)
qed


end
