(* ===== verification/Spock_Functions_Props.thy ===== *)
theory Spock_Functions_Props
  imports Spock_Functions Spock_Repset_Props
begin

text \<open>
  What holds of the catalogs that the SQL functions of \<open>Spock_Functions\<close> keep: every reference of a
  subscription and of the local node leads to a row, as long as no interface in use is dropped; what
  dropping one does; the names of slots; and how \<open>spock_replication_set_add_partition\<close> passes a row
  filter on.
\<close>

section \<open>Slot names\<close>

lemma shorten_hash_length: "length (shorten_hash hash str 16) \<le> 16"
  by (auto simp: shorten_hash_def)

lemma take_spk: "take 63 (cs ''spk_'' @ r) = cs ''spk_'' @ take 59 r"
  by (simp add: cs_def)

lemma name_char_spk: "map (\<lambda>c. if name_char c then c else ch CHR ''_'') (cs ''spk_'') = cs ''spk_''"
  by code_simp

lemma contains_spk_prefix: "contains_spk (cs ''spk_'' @ r)"
  unfolding contains_spk_def list_ex_iff by (rule bexI [of _ 0]) (simp_all add: cs_def)

text \<open>
  C23: Whatever the names of the database, of the provider and of the subscription are, the name of
  the slot is a valid one (lower case letters, digits and underscores), it leaves room for the
  suffix of nine bytes that the code promises, and dropping the node finds the slot.
\<close>

theorem gen_slot_name_valid:
  "list_all name_char (gen_slot_name hash dbname provider sub) \<and>
   length (gen_slot_name hash dbname provider sub) + 9 < NAMEDATALEN \<and>
   own_slot db \<lparr>slot_name = gen_slot_name hash dbname provider sub, slot_plugin = cs ''spock_output'',
     slot_database = db, slot_active = active\<rparr>"
proof -
  let ?raw = "shorten_hash hash dbname 16 @ cs ''_'' @ shorten_hash hash provider 16 @ cs ''_'' @ shorten_hash hash sub 16"
  have name: "gen_slot_name hash dbname provider sub = cs ''spk_'' @ map (\<lambda>c. if name_char c then c else ch CHR ''_'') (take 59 ?raw)"
    unfolding gen_slot_name_def NAMEDATALEN_def using name_char_spk
    by (simp add: take_spk)
  have "length ?raw \<le> 50"
    using shorten_hash_length [of hash dbname] shorten_hash_length [of hash provider] shorten_hash_length [of hash sub]
    by (simp add: cs_def)
  then have len: "length (gen_slot_name hash dbname provider sub) + 9 < NAMEDATALEN"
    unfolding name NAMEDATALEN_def by (simp add: cs_def)
  have "name_char (ch CHR ''_'')" by code_simp
  then have "list_all name_char (map (\<lambda>c. if name_char c then c else ch CHR ''_'') xs)" for xs
    by (simp add: list.pred_map comp_def list.pred_True)
  then have chars: "list_all name_char (gen_slot_name hash dbname provider sub)"
    unfolding gen_slot_name_def .
  have "contains_spk (gen_slot_name hash dbname provider sub)"
    unfolding name by (rule contains_spk_prefix)
  then show ?thesis using len chars by (simp add: own_slot_def)
qed

section \<open>References of the catalogs\<close>

text \<open>
  Every interface belongs to a node, the local node and its interface exist, and so do the nodes and
  interfaces of every subscription, whose target is the local node.
\<close>

definition if_of :: "SpockInterface list \<Rightarrow> Oid \<Rightarrow> Oid \<Rightarrow> bool" where
  "if_of ifs ifid nodeid \<longleftrightarrow> (\<exists>i \<in> set ifs. if_id i = ifid \<and> if_nodeid i = nodeid)"

definition refs_ok :: "('j, 'i) node_db \<Rightarrow> bool" where
  "refs_ok db \<longleftrightarrow>
     distinct (map if_id (nd_ifs db)) \<and>
     (\<forall>i \<in> set (nd_ifs db). if_nodeid i \<in> nt_id ` set (nd_nodes db)) \<and>
     length (nd_local db) \<le> 1 \<and>
     (\<forall>(nodeid, ifid) \<in> set (nd_local db). if_of (nd_ifs db) ifid nodeid) \<and>
     (\<forall>s \<in> set (nd_subs db). if_of (nd_ifs db) (su_origin_if s) (su_origin s) \<and>
        (su_target s, su_target_if s) \<in> set (nd_local db))"

lemma refs_okI:
  assumes "distinct (map if_id (nd_ifs db))" "\<And>i. i \<in> set (nd_ifs db) \<Longrightarrow> if_nodeid i \<in> nt_id ` set (nd_nodes db)"
    "length (nd_local db) \<le> 1" "\<And>n i. (n, i) \<in> set (nd_local db) \<Longrightarrow> if_of (nd_ifs db) i n"
    "\<And>s. s \<in> set (nd_subs db) \<Longrightarrow> if_of (nd_ifs db) (su_origin_if s) (su_origin s) \<and>
        (su_target s, su_target_if s) \<in> set (nd_local db)"
  shows "refs_ok db"
  unfolding refs_ok_def using assms by blast

lemma refs_ok_signals [simp]: "refs_ok (db\<lparr>nd_signals := x\<rparr>) = refs_ok db"
  by (simp add: refs_ok_def)

lemma refs_ok_subid [simp]: "refs_ok (db\<lparr>nd_next_subid := x\<rparr>) = refs_ok db"
  by (simp add: refs_ok_def)

lemma if_of_mono: "set ifs \<subseteq> set ifs' \<Longrightarrow> if_of ifs a b \<Longrightarrow> if_of ifs' a b"
  by (auto simp: if_of_def)

lemma find_someD: "find p xs = Some x \<Longrightarrow> p x \<and> x \<in> set xs"
  by (auto simp: find_Some_iff)

lemma insert_row_cases:
  assumes "insert_row clash row rows = Inr rows'"
  shows "rows' = rows @ [row] \<and> (\<forall>r \<in> set rows. \<not> clash row r)"
  using assms by (auto simp: insert_row_def list_ex_iff split: if_splits)

lemma delete_first_cases:
  "delete_first p rows = Some rows' \<Longrightarrow> \<exists>a r b. rows = a @ r # b \<and> p r \<and> rows' = a @ b \<and> (\<forall>x \<in> set a. \<not> p x)"
proof (induction rows arbitrary: rows')
  case (Cons x xs)
  show ?case
  proof (cases "p x")
    case True with Cons.prems show ?thesis by (intro exI [of _ "[]"]) auto
  next
    case False
    with Cons.prems obtain ys where ys: "delete_first p xs = Some ys" "rows' = x # ys" by auto
    from Cons.IH [OF ys(1)] obtain a r b where "xs = a @ r # b" "p r" "ys = a @ b" "\<forall>x \<in> set a. \<not> p x" by blast
    then show ?thesis using ys(2) False by (intro exI [of _ "x # a"]) auto
  qed
qed simp

lemma delete_first_keeps:
  assumes "delete_first p rows = Some rows'"
  shows "set rows' \<subseteq> set rows" and "x \<in> set rows \<Longrightarrow> \<not> p x \<Longrightarrow> x \<in> set rows'"
    and "distinct (map f rows) \<Longrightarrow> distinct (map f rows')"
  using delete_first_cases [OF assms] by auto

lemma delete_first_None: "delete_first p rows = None \<longleftrightarrow> (\<forall>r \<in> set rows. \<not> p r)"
  by (induction rows) auto

lemma update_first_cases:
  "update_first p f rows = Some rows' \<Longrightarrow> \<exists>a r b. rows = a @ r # b \<and> p r \<and> rows' = a @ f r # b"
proof (induction rows arbitrary: rows')
  case (Cons x xs)
  show ?case
  proof (cases "p x")
    case True with Cons.prems show ?thesis by (intro exI [of _ "[]"]) auto
  next
    case False
    with Cons.prems obtain ys where ys: "update_first p f xs = Some ys" "rows' = x # ys" by auto
    from Cons.IH [OF ys(1)] obtain a r b where "xs = a @ r # b" "p r" "ys = a @ f r # b" by blast
    then show ?thesis using ys(2) by (intro exI [of _ "x # a"]) auto
  qed
qed simp

section \<open>The operations of the catalogs\<close>

named_theorems binds

lemma res_bind_InrD [binds]: "res_bind m f = Inr y \<Longrightarrow> \<exists>x. m = Inr x \<and> f x = Inr y"
  by (cases m) (auto simp: res_bind_def)

lemma in_node_InrD: "in_node m = Inr x \<longleftrightarrow> m = Inr x"
  by (cases m) (auto simp: in_node_def)

lemma need_InrD: "need e m = Inr x \<longleftrightarrow> m = Inr (Some x)"
  by (cases m) (auto simp: need_def res_bind_def split: option.splits)

lemma refs_create_node:
  assumes "create_node env node db = Inr (nodeid, db')" "refs_ok db"
  shows "refs_ok db' \<and> nodeid \<in> nt_id ` set (nd_nodes db') \<and> nd_ifs db' = nd_ifs db \<and> nd_local db' = nd_local db \<and>
    nd_subs db' = nd_subs db"
proof -
  obtain rows n where rows: "insert_row node_clash (n :: 'a node_tuple) (nd_nodes db) = Inr rows" "nt_id n = nodeid"
    "db' = db\<lparr>nd_nodes := rows, nd_signals := spock_subscription_changed InvalidOid False (nd_signals db)\<rparr>"
    using assms(1) by (auto simp: create_node_def Let_def split: if_splits option.splits dest!: res_bind_InrD)
  from insert_row_cases [OF rows(1)] have "rows = nd_nodes db @ [n]" by blast
  then show ?thesis using rows(2, 3) assms(2) by (auto simp: refs_ok_def)
qed

lemma refs_create_interface:
  assumes "create_node_interface env nodeif db = Inr (ifid, db')" "refs_ok db"
    "if_nodeid nodeif \<in> nt_id ` set (nd_nodes db)"
  shows "refs_ok db' \<and> if_of (nd_ifs db') ifid (if_nodeid nodeif) \<and> nd_nodes db' = nd_nodes db \<and>
    nd_local db' = nd_local db \<and> nd_subs db' = nd_subs db"
proof -
  obtain rows i where rows: "insert_row if_clash i (nd_ifs db) = Inr rows" "if_id i = ifid" "if_nodeid i = if_nodeid nodeif"
    "db' = db\<lparr>nd_ifs := rows\<rparr>"
    using assms(1) by (auto simp: create_node_interface_def Let_def dest!: res_bind_InrD)
  from insert_row_cases [OF rows(1)] have ins: "rows = nd_ifs db @ [i]" "\<forall>r \<in> set (nd_ifs db). \<not> if_clash i r" by blast+
  then have "if_id i \<notin> if_id ` set (nd_ifs db)" by (auto simp: if_clash_def)
  moreover have "if_of (nd_ifs db) a b \<Longrightarrow> if_of rows a b" for a b using ins(1) by (auto simp: if_of_def)
  ultimately show ?thesis using rows(2-4) assms(2, 3) ins(1)
    by (auto simp: refs_ok_def if_of_def)
qed

lemma get_local_node_row:
  assumes "get_local_node env db m = Inr (Some (node, nodeif))" "refs_ok db"
  shows "nd_local db = [(node_id node, if_id nodeif)] \<and> nodeif \<in> set (nd_ifs db) \<and> if_nodeid nodeif = node_id node"
proof -
  obtain nodeid ifid r where local: "nd_local db = (nodeid, ifid) # r"
    using assms(1) by (auto simp: get_local_node_def split: list.splits if_splits)
  with assms(2) have r: "r = []" by (simp add: refs_ok_def)
  from assms(1) local have node: "get_node env db nodeid False = Inr (Some node)" and nif: "get_node_interface db ifid = Inr nodeif"
    by (auto simp: get_local_node_def split: option.splits dest!: res_bind_InrD)
  from node have id: "node_id node = nodeid"
    by (auto simp: get_node_def node_of_row_def node_fromtuple_def Let_def find_Some_iff
        split: option.splits if_splits dest!: res_bind_InrD)
  from nif have i: "nodeif \<in> set (nd_ifs db)" "if_id nodeif = ifid"
    by (auto simp: get_node_interface_def split: option.splits dest!: find_someD)
  have "if_of (nd_ifs db) ifid nodeid" using assms(2) local by (auto simp: refs_ok_def)
  then obtain j where "j \<in> set (nd_ifs db)" "if_id j = ifid" "if_nodeid j = nodeid" by (auto simp: if_of_def)
  moreover have "distinct (map if_id (nd_ifs db))" using assms(2) by (simp add: refs_ok_def)
  ultimately have "j = nodeif" using i by (auto simp: distinct_map inj_on_def)
  then show ?thesis using local r id i \<open>if_nodeid j = nodeid\<close> by auto
qed


section \<open>The functions keep the references\<close>

lemma refs_okD:
  assumes "refs_ok db"
  shows "distinct (map if_id (nd_ifs db))" "i \<in> set (nd_ifs db) \<Longrightarrow> if_nodeid i \<in> nt_id ` set (nd_nodes db)"
    "length (nd_local db) \<le> 1" "(n, k) \<in> set (nd_local db) \<Longrightarrow> if_of (nd_ifs db) k n"
    "s \<in> set (nd_subs db) \<Longrightarrow> if_of (nd_ifs db) (su_origin_if s) (su_origin s)"
    "s \<in> set (nd_subs db) \<Longrightarrow> (su_target s, su_target_if s) \<in> set (nd_local db)"
  using assms unfolding refs_ok_def by blast+

text \<open>What makes the row of a subscription a good one.\<close>

definition sub_refs :: "('j, 'i) node_db \<Rightarrow> ('j, 'i) SpockSubscription \<Rightarrow> bool" where
  "sub_refs db sub \<longleftrightarrow> if_of (nd_ifs db) (if_id (sub_origin_if sub)) (if_nodeid (sub_origin_if sub)) \<and>
     (if_nodeid (sub_target_if sub), if_id (sub_target_if sub)) \<in> set (nd_local db)"

lemma refs_sub_row:
  assumes ok: "refs_ok db" and sub: "sub_refs db sub"
    and rows: "\<And>s. s \<in> set rows \<Longrightarrow> s \<in> set (nd_subs db) \<or> (\<exists>i n c. s = sub_row sub i n c)"
  shows "refs_ok (db\<lparr>nd_subs := rows\<rparr>)"
proof (rule refs_okI)
  fix s assume "s \<in> set (nd_subs (db\<lparr>nd_subs := rows\<rparr>))"
  then have "s \<in> set (nd_subs db) \<or> (\<exists>i n c. s = sub_row sub i n c)" by (simp add: rows)
  then have "if_of (nd_ifs db) (su_origin_if s) (su_origin s) \<and> (su_target s, su_target_if s) \<in> set (nd_local db)"
  proof
    assume "s \<in> set (nd_subs db)" then show ?thesis using refs_okD(5,6) [OF ok] by blast
  next
    assume "\<exists>i n c. s = sub_row sub i n c" then show ?thesis
      using sub unfolding sub_row_def sub_refs_def by (elim exE) simp
  qed
  then show "if_of (nd_ifs (db\<lparr>nd_subs := rows\<rparr>)) (su_origin_if s) (su_origin s) \<and>
      (su_target s, su_target_if s) \<in> set (nd_local (db\<lparr>nd_subs := rows\<rparr>))" by simp
qed (use refs_okD(1-4) [OF ok] in simp_all)

lemma refs_create_subscription:
  assumes "create_subscription env sub db = Inr (subid, db')" "refs_ok db"
    "sub_refs db sub"
  shows "refs_ok db'"
proof -
  let ?db = "snd (if sub_id sub = InvalidOid then generate_subscription_id db else (sub_id sub, db))"
  obtain rows i n c where rows: "insert_row sub_clash (sub_row sub i n c) (nd_subs ?db) = Inr rows"
    "db' = ?db\<lparr>nd_subs := rows, nd_signals := spock_subscription_changed i True (nd_signals ?db)\<rparr>"
    using assms(1) by (auto simp: create_subscription_def Let_def split: if_splits prod.splits dest!: res_bind_InrD)
  have same: "nd_ifs ?db = nd_ifs db" "nd_local ?db = nd_local db" "nd_nodes ?db = nd_nodes db" "refs_ok ?db"
    using assms(2) by (simp_all add: generate_subscription_id_def Let_def)
  have "refs_ok (?db\<lparr>nd_subs := rows\<rparr>)"
    by (rule refs_sub_row [OF same(4), where sub = sub])
      (use assms(3) same insert_row_cases [OF rows(1)] in \<open>auto simp: sub_refs_def\<close>)
  then show ?thesis using rows(2) by simp
qed

lemma unique_if:
  assumes "if_of ifs a b" "distinct (map if_id ifs)" "i \<in> set ifs" "if_id i = a"
  shows "if_nodeid i = b"
  using assms unfolding if_of_def by (metis (no_types, lifting) distinct_map inj_onD)

lemma need_node_id: "need_node env db n = Inr node \<Longrightarrow> node_id node = n"
  by (auto simp: need_node_def get_node_def node_of_row_def node_fromtuple_def Let_def find_Some_iff
      split: option.splits if_splits dest!: res_bind_InrD)

lemma get_node_interface_row: "get_node_interface db k = Inr i \<Longrightarrow> i \<in> set (nd_ifs db) \<and> if_id i = k"
  by (auto simp: get_node_interface_def split: option.splits dest!: find_someD)

lemma loaded_subscription:
  assumes "get_subscription_by_name env db name m = Inr (Some sub)" "refs_ok db"
  shows "sub_refs db sub \<and> if_nodeid (sub_origin_if sub) = node_id (sub_origin sub) \<and>
    (\<exists>s \<in> set (nd_subs db). su_id s = sub_id sub \<and> su_origin s = node_id (sub_origin sub))"
proof -
  obtain t where t: "t \<in> set (nd_subs db)" "subscription_fromtuple env db t = Inr sub"
    using assms(1) by (auto simp: get_subscription_by_name_def split: option.splits if_splits dest!: res_bind_InrD find_someD)
  then obtain origin oif tif where parts: "need_node env db (su_origin t) = Inr origin"
    "get_node_interface db (su_origin_if t) = Inr oif" "get_node_interface db (su_target_if t) = Inr tif"
    "sub_origin sub = origin" "sub_origin_if sub = oif" "sub_target_if sub = tif" "sub_id sub = su_id t"
    by (auto simp: subscription_fromtuple_def dest!: res_bind_InrD)
  note id = need_node_id [OF parts(1)] and o = get_node_interface_row [OF parts(2)] and t' = get_node_interface_row [OF parts(3)]
  note ok = refs_okD [OF assms(2)]
  have "if_nodeid oif = su_origin t" "if_nodeid tif = su_target t"
    using unique_if [OF ok(5) [OF t(1)] ok(1)] unique_if [OF ok(4) [OF ok(6) [OF t(1)]] ok(1)] o t' by blast+
  then show ?thesis using parts id o t' t(1) ok(5, 6) [OF t(1)] by (auto simp: sub_refs_def)
qed

lemma refs_store_subscription:
  assumes "store_subscription sub db = Inr db'" "refs_ok (sd_node db)" "sub_refs (sd_node db) sub"
  shows "refs_ok (sd_node db')"
proof -
  obtain rows where rows: "update_first (\<lambda>t. su_id t = sub_id sub)
      (\<lambda>t. sub_row sub (su_id t) (su_name t) (su_created_at t)) (nd_subs (sd_node db)) = Some rows"
    "sd_node db' = (sd_node db)\<lparr>nd_subs := rows,
       nd_signals := spock_subscription_changed (sub_id sub) True (nd_signals (sd_node db))\<rparr>"
    using assms(1)
    by (auto simp: store_subscription_def alter_subscription_def in_node_InrD split: option.splits dest!: res_bind_InrD)
  from update_first_cases [OF rows(1)]
  have "\<And>s. s \<in> set rows \<Longrightarrow> s \<in> set (nd_subs (sd_node db)) \<or> (\<exists>i n c. s = sub_row sub i n c)" by auto
  from refs_sub_row [OF assms(2, 3) this] have "refs_ok ((sd_node db)\<lparr>nd_subs := rows\<rparr>)" .
  then show ?thesis using rows(2) by simp
qed

lemma refs_drop_subscription:
  assumes "drop_subscription subid db = Inr db'" "refs_ok db"
  shows "refs_ok db' \<and> nd_ifs db' = nd_ifs db \<and> nd_local db' = nd_local db \<and> set (nd_subs db') \<subseteq> set (nd_subs db)"
proof -
  obtain rows where rows: "delete_first (\<lambda>t. su_id t = subid) (nd_subs db) = Some rows"
    "db' = db\<lparr>nd_subs := rows, nd_signals := spock_subscription_changed subid True (nd_signals db)\<rparr>"
    using assms(1) by (auto simp: drop_subscription_def split: option.splits)
  then show ?thesis using assms(2) delete_first_keeps(1) [OF rows(1)]
    by (auto simp: refs_ok_def)
qed

text \<open>Dropping a node with its interfaces, when nothing refers to them any more.\<close>

lemma refs_drop_node:
  assumes "drop_node nodeid (drop_node_interfaces nodeid db) = Inr db'" "refs_ok db"
    "\<forall>s \<in> set (nd_subs db). su_origin s \<noteq> nodeid"
    "nodeid \<notin> fst ` set (nd_local db)"
  shows "refs_ok db'"
proof -
  let ?ifs = "filter (\<lambda>t. if_nodeid t \<noteq> nodeid) (nd_ifs db)"
  obtain rows where rows: "delete_first (\<lambda>t. nt_id t = nodeid) (nd_nodes db) = Some rows"
    "db' = db\<lparr>nd_ifs := ?ifs, nd_nodes := rows,
       nd_signals := spock_subscription_changed InvalidOid False (nd_signals db)\<rparr>"
    using assms(1) by (auto simp: drop_node_def drop_node_interfaces_def split: option.splits)
  have keep: "if_of (nd_ifs db) a b \<Longrightarrow> b \<noteq> nodeid \<Longrightarrow> if_of ?ifs a b" for a b by (auto simp: if_of_def)
  have nodes: "x \<in> nt_id ` set (nd_nodes db) \<Longrightarrow> x \<noteq> nodeid \<Longrightarrow> x \<in> nt_id ` set rows" for x
    using delete_first_keeps(2) [OF rows(1)] by fastforce
  note ok = refs_okD [OF assms(2)]
  have c1: "distinct (map if_id ?ifs)" using ok(1) by (simp add: distinct_map_filter)
  have c2: "if_nodeid i \<in> nt_id ` set rows" if "i \<in> set ?ifs" for i
    by (rule nodes) (use that ok(2) [of i] in simp_all)
  have c4: "if_of ?ifs i n" if "(n, i) \<in> set (nd_local db)" for n i
    by (rule keep [OF ok(4) [OF that]]) (use that assms(4) in force)
  have c5: "if_of ?ifs (su_origin_if t) (su_origin t) \<and> (su_target t, su_target_if t) \<in> set (nd_local db)"
    if t: "t \<in> set (nd_subs db)" for t
    using keep [OF ok(5) [OF t]] ok(6) [OF t] assms(3) t by blast
  note c3 = ok(3)
  show ?thesis by (rule refs_okI) (unfold rows(2); simp add: c1 c2 c3 [simplified] c4 c5)+
qed

section \<open>Every function keeps the references\<close>

lemma refs_spock_create_node:
  assumes "spock_create_node env name dsn location country info db = Inr (r, db')" "refs_ok (sd_node db)"
  shows "refs_ok (sd_node db')"
proof (cases "\<exists>n d. name = Some n \<and> dsn = Some d")
  case True
  then obtain n d where nd: "name = Some n" "dsn = Some d" by blast
  obtain nodeid nodes1 ifid nodes2 nodes3 where steps:
    "create_node (se_node env) \<lparr>nt_id = InvalidOid, nt_name = n, nt_location = location, nt_country = country,
       nt_info = info\<rparr> (sd_node db) = Inr (nodeid, nodes1)"
    "create_node_interface (se_node env) \<lparr>if_id = InvalidOid, if_name = n, if_nodeid = nodeid, if_dsn = d\<rparr> nodes1
       = Inr (ifid, nodes2)"
    "create_local_node (se_node env) nodeid ifid nodes2 = Inr nodes3" "sd_node db' = nodes3"
    using assms(1) by (auto simp: spock_create_node_def nd in_node_InrD dest!: res_bind_InrD split: prod.splits)
  from refs_create_node [OF steps(1) assms(2)] have 1: "refs_ok nodes1" "nodeid \<in> nt_id ` set (nd_nodes nodes1)" by blast+
  have 2: "refs_ok nodes2" "if_of (nd_ifs nodes2) ifid nodeid" using refs_create_interface [OF steps(2) 1(1)] 1(2) by simp_all
  obtain rows where "nd_local nodes2 = []" "insert_row (\<lambda>a b. fst a = fst b) (nodeid, ifid) (nd_local nodes2) = Inr rows"
    "nodes3 = nodes2\<lparr>nd_local := rows\<rparr>"
    using steps(3)
    by (auto simp: create_local_node_def get_local_node_def split: list.splits if_splits option.splits dest!: res_bind_InrD)
  then have nodes3: "nd_local nodes2 = []" "nodes3 = nodes2\<lparr>nd_local := [(nodeid, ifid)]\<rparr>" by (auto simp: insert_row_def)
  have "refs_ok nodes3" unfolding nodes3(2)
    by (rule refs_okI) (use refs_okD [OF 2(1)] 2(2) nodes3(1) in auto)
  then show ?thesis using steps(4) by simp
next
  case False
  then show ?thesis using assms by (auto simp: spock_create_node_def split: option.splits)
qed

lemma refs_add_interface:
  assumes "spock_alter_node_add_interface env nname name dsn db = Inr (ifid, db')" "refs_ok (sd_node db)"
  shows "refs_ok (sd_node db')"
proof -
  obtain node nodes where "get_node_by_name (se_node env) (sd_node db) nname False = Inr (Some node)"
    "create_node_interface (se_node env) \<lparr>if_id = InvalidOid, if_name = name, if_nodeid = node_id node, if_dsn = dsn\<rparr>
       (sd_node db) = Inr (ifid, nodes)" "sd_node db' = nodes"
    using assms(1) by (auto simp: spock_alter_node_add_interface_def in_node_InrD need_InrD
        dest!: res_bind_InrD split: if_splits)
  moreover from this(1) have "node_id node \<in> nt_id ` set (nd_nodes (sd_node db))"
    by (auto simp: get_node_by_name_def node_of_row_def node_fromtuple_def Let_def
        split: option.splits if_splits dest!: res_bind_InrD find_someD)
  ultimately show ?thesis using refs_create_interface [of "se_node env" _ "sd_node db" ifid nodes] assms(2) by simp
qed

lemma no_subscriptions:
  assumes "get_node_subscriptions env db nodeid True = Inr []" "s \<in> set (nd_subs db)"
  shows "su_origin s \<noteq> nodeid"
  using assms by (auto simp: get_node_subscriptions_def filter_empty_conv dest!: res_map_Inr_length)

lemma no_target_subscriptions:
  assumes "get_node_subscriptions env db nodeid False = Inr []" "s \<in> set (nd_subs db)"
  shows "su_target s \<noteq> nodeid"
  using assms by (auto simp: get_node_subscriptions_def filter_empty_conv dest!: res_map_Inr_length)

lemma er_bind_InrD: "er_bind m f = Some (Inr y) \<Longrightarrow> \<exists>x. m = Some (Inr x) \<and> f x = Some (Inr y)"
  by (auto simp: er_bind_def split: option.splits sum.splits)

lemma refs_drop_local:
  assumes "drop_local_node db = Inr db'" "refs_ok db" "nd_subs db = []"
  shows "refs_ok db' \<and> nd_local db' = [] \<and> nd_subs db' = []"
proof -
  from assms(1) obtain r rows where r: "nd_local db = r # rows" "db' = db\<lparr>nd_local := rows\<rparr>"
    by (auto simp: drop_local_node_def split: list.splits)
  with refs_okD(3) [OF assms(2)] have "rows = []" by simp
  moreover have "refs_ok (db\<lparr>nd_local := []\<rparr>)"
    by (rule refs_okI) (use refs_okD [OF assms(2)] assms(3) in simp_all)
  ultimately show ?thesis using r assms(3) by simp
qed

lemma refs_spock_drop_node:
  assumes "spock_drop_node env nname ifexists db = Some (Inr (r, db'))" "refs_ok (sd_node db)"
  shows "refs_ok (sd_node db')"
proof -
  let ?nodes = "sd_node db"
  from assms(1) obtain found where found: "get_node_by_name (se_node env) ?nodes nname ifexists = Inr found"
    by (auto simp: spock_drop_node_def in_node_InrD dest!: er_bind_InrD)
  show ?thesis
  proof (cases found)
    case None with assms found show ?thesis by (auto simp: spock_drop_node_def in_node_InrD dest!: er_bind_InrD)
  next
    case (Some node)
    obtain local nodes1 where subs: "get_node_subscriptions (se_node env) ?nodes (node_id node) True = Inr []"
        "get_node_subscriptions (se_node env) ?nodes (node_id node) False = Inr []"
      and local: "get_local_node (se_node env) ?nodes True = Inr local"
      and nodes1: "if local \<noteq> None \<and> node_id (fst (the local)) = node_id node
           then drop_local_node ?nodes = Inr nodes1 else nodes1 = ?nodes"
      and drop: "drop_node (node_id node) (drop_node_interfaces (node_id node) nodes1) = Inr (sd_node db')"
      using assms(1) found Some
      by (auto simp: spock_drop_node_def in_node_InrD Let_def split: if_splits dest!: er_bind_InrD)
    show ?thesis
    proof (cases "local \<noteq> None \<and> node_id (fst (the local)) = node_id node")
      case True
      then obtain n i where l: "local = Some (n, i)" "node_id n = node_id node" by (cases local) auto
      have "nd_local ?nodes = [(node_id node, if_id i)]" using get_local_node_row [OF local [unfolded l(1)] assms(2)] l(2) by simp
      then have "nd_subs ?nodes = []"
        using refs_okD(6) [OF assms(2)] no_target_subscriptions [OF subs(2)] by (cases "nd_subs ?nodes") fastforce+
      with nodes1 True have "refs_ok nodes1 \<and> nd_local nodes1 = [] \<and> nd_subs nodes1 = []"
        using refs_drop_local [OF _ assms(2)] by auto
      then show ?thesis using refs_drop_node [OF drop] by simp
    next
      case False
      have "node_id node \<notin> fst ` set (nd_local ?nodes)"
      proof (cases local)
        case None
        with local have "nd_local ?nodes = []"
          by (auto simp: get_local_node_def split: list.splits option.splits dest!: res_bind_InrD)
        then show ?thesis by simp
      next
        case (Some l)
        then obtain n i where "local = Some (n, i)" by (cases l) auto
        with False get_local_node_row [of "se_node env" ?nodes True n i] local assms(2) show ?thesis by auto
      qed
      then show ?thesis using refs_drop_node [OF drop] False nodes1 assms(2) no_subscriptions [OF subs(1)] by auto
    qed
  qed
qed

section \<open>Interfaces and subscriptions\<close>

lemma res_map_Inr_mem: "res_map f xs = Inr ys \<Longrightarrow> x \<in> set xs \<Longrightarrow> \<exists>y \<in> set ys. f x = Inr y"
  by (induction xs arbitrary: ys) (auto dest!: res_bind_InrD)

lemma refs_drop_interface:
  assumes "spock_alter_node_drop_interface env nname name db = Inr (r, db')" "refs_ok (sd_node db)"
    and local: "\<And>n k i. (n, k) \<in> set (nd_local (sd_node db)) \<Longrightarrow> i \<in> set (nd_ifs (sd_node db)) \<Longrightarrow>
      if_id i = k \<Longrightarrow> if_name i \<noteq> name"
  shows "refs_ok (sd_node db')"
proof -
  let ?db = "sd_node db"
  obtain nodeid oldif subs rows where parts: "get_node_interface_by_name ?db nodeid name True = Inr (Some oldif)"
    "get_node_subscriptions (se_node env) ?db nodeid True = Inr subs"
    "find (\<lambda>sub. if_id oldif = if_id (sub_origin_if sub)) subs = None"
    "delete_first (\<lambda>t. if_id t = if_id oldif) (nd_ifs ?db) = Some rows" "sd_node db' = ?db\<lparr>nd_ifs := rows\<rparr>"
    using assms(1) by (auto simp: spock_alter_node_drop_interface_def drop_node_interface_def in_node_InrD need_InrD
        split: option.splits dest!: res_bind_InrD)
  note ok = refs_okD [OF assms(2)] and keeps = delete_first_keeps [OF parts(4)]
  have old: "oldif \<in> set (nd_ifs ?db)" "if_nodeid oldif = nodeid" "if_name oldif = name"
    using parts(1) by (auto simp: get_node_interface_by_name_def split: option.splits dest!: find_someD)
  have keep: "if_of rows a b" if "if_of (nd_ifs ?db) a b" "a \<noteq> if_id oldif" for a b
    using that keeps(2) unfolding if_of_def by blast
  have other: "su_origin_if t \<noteq> if_id oldif" if t: "t \<in> set (nd_subs ?db)" for t
  proof
    assume same: "su_origin_if t = if_id oldif"
    then have "su_origin t = nodeid" using unique_if [OF ok(5) [OF t] ok(1) old(1)] old(2) by simp
    then have "t \<in> set (filter (\<lambda>t. su_origin t = nodeid) (nd_subs ?db))" using t by simp
    with parts(2) obtain sub where sub: "sub \<in> set subs" "subscription_fromtuple (se_node env) ?db t = Inr sub"
      unfolding get_node_subscriptions_def if_True by (blast dest: res_map_Inr_mem)
    then have "if_id (sub_origin_if sub) = su_origin_if t"
      by (auto simp: subscription_fromtuple_def dest!: res_bind_InrD get_node_interface_row)
    with sub(1) same parts(3) show False by (auto simp: find_None_iff)
  qed
  have "refs_ok (?db\<lparr>nd_ifs := rows\<rparr>)"
  proof (rule refs_okI)
    fix n i assume "(n, i) \<in> set (nd_local (?db\<lparr>nd_ifs := rows\<rparr>))"
    then have l: "(n, i) \<in> set (nd_local ?db)" by simp
    show "if_of (nd_ifs (?db\<lparr>nd_ifs := rows\<rparr>)) i n"
      using keep [OF ok(4) [OF l]] local [OF l old(1)] old(3) by auto
  next
    fix t assume "t \<in> set (nd_subs (?db\<lparr>nd_ifs := rows\<rparr>))"
    then show "if_of (nd_ifs (?db\<lparr>nd_ifs := rows\<rparr>)) (su_origin_if t) (su_origin t) \<and>
        (su_target t, su_target_if t) \<in> set (nd_local (?db\<lparr>nd_ifs := rows\<rparr>))"
      using keep [OF ok(5)] other ok(6) by simp
  qed (use ok(1-3) keeps(1) keeps(3) [of if_id] in auto)
  then show ?thesis using parts(5) by simp
qed

lemma required_local_row:
  assumes "required_local_node env db = Inr (node, nodeif)" "refs_ok (sd_node db)"
  shows "nd_local (sd_node db) = [(node_id node, if_id nodeif)]"
  using assms get_local_node_row [of "se_node env" "sd_node db" False node nodeif]
  by (simp add: required_local_node_def need_InrD in_node_InrD)

lemma refs_subscription_origin:
  assumes "subscription_origin env dsn origin db = Inr (originif, db')" "refs_ok db"
  shows "refs_ok db' \<and> nd_local db' = nd_local db \<and> if_of (nd_ifs db') (if_id originif) (if_nodeid originif)"
proof -
  from assms(1) obtain existing where ex: "get_node_by_name (se_node env) db (nt_name origin) True = Inr existing"
    by (auto simp: subscription_origin_def in_node_InrD dest!: res_bind_InrD)
  show ?thesis
  proof (cases existing)
    case None
    with assms(1) ex obtain nodeid nodes ifid where new: "create_node (se_node env) origin db = Inr (nodeid, nodes)"
      "create_node_interface (se_node env)
         \<lparr>if_id = InvalidOid, if_name = nt_name origin, if_nodeid = nodeid, if_dsn = dsn\<rparr> nodes = Inr (ifid, db')"
      "originif = \<lparr>if_id = ifid, if_name = nt_name origin, if_nodeid = nodeid, if_dsn = dsn\<rparr>"
      by (auto simp: subscription_origin_def in_node_InrD Let_def dest!: res_bind_InrD)
    note 1 = refs_create_node [OF new(1) assms(2)]
    show ?thesis using refs_create_interface [OF new(2)] 1 new(3) by auto
  next
    case (Some n)
    with assms(1) ex have "originif \<in> set (nd_ifs db)" "db' = db"
      by (auto simp: subscription_origin_def in_node_InrD need_InrD get_node_interface_by_name_def
          split: if_splits option.splits dest!: res_bind_InrD find_someD)
    then show ?thesis using assms(2) by (auto simp: if_of_def)
  qed
qed

lemma refs_spock_create_subscription:
  assumes "spock_create_subscription env name dsn sets sync_s sync_d origins delay force enabled skip db = Inr (subid, db')"
    "refs_ok (sd_node db)"
  shows "refs_ok (sd_node db')"
proof -
  obtain node nodeif originif nodes where parts: "required_local_node env db = Inr (node, nodeif)"
    "subscription_origin env dsn (rp_node (se_remote env dsn)) (sd_node db) = Inr (originif, nodes)"
    "create_subscription (se_node env) (new_subscription name originif node nodeif sets origins delay force enabled skip
       (gen_slot_name (ne_hash_any (se_node env)) (se_dbname env) (nt_name (rp_node (se_remote env dsn))) name)) nodes
       = Inr (subid, sd_node db')"
    using assms(1) by (auto simp: spock_create_subscription_def in_node_InrD Let_def split: if_splits dest!: res_bind_InrD)
  note o = refs_subscription_origin [OF parts(2) assms(2)]
  show ?thesis
    by (rule refs_create_subscription [OF parts(3)])
      (use o required_local_row [OF parts(1) assms(2)] in \<open>simp_all add: sub_refs_def new_subscription_def\<close>)
qed

lemma refs_spock_drop_subscription:
  assumes "spock_drop_subscription env name ifexists db = Inr (r, db')" "refs_ok (sd_node db)"
  shows "refs_ok (sd_node db')"
proof -
  from assms(1) obtain found where found: "get_subscription_by_name (se_node env) (sd_node db) name ifexists = Inr found"
    by (auto simp: spock_drop_subscription_def in_node_InrD dest!: res_bind_InrD)
  show ?thesis
  proof (cases found)
    case None with assms found show ?thesis by (auto simp: spock_drop_subscription_def in_node_InrD dest!: res_bind_InrD)
  next
    case (Some sub)
    let ?n = "node_id (sub_origin sub)"
    obtain local lif nodes where parts: "required_local_node env db = Inr (local, lif)"
      "drop_subscription (sub_id sub) (sd_node db) = Inr nodes"
      "sd_node db' = nodes \<or> ?n \<noteq> node_id local \<and> get_node_subscriptions (se_node env) nodes ?n True = Inr [] \<and>
         drop_node ?n (drop_node_interfaces ?n nodes) = Inr (sd_node db')"
    proof -
      from assms(1) found Some obtain local lif where l: "required_local_node env db = Inr (local, lif)"
        by (auto simp: spock_drop_subscription_def in_node_InrD dest!: res_bind_InrD)
      show thesis by (cases "?n = node_id local")
        (use assms(1) found Some l in \<open>auto simp: spock_drop_subscription_def in_node_InrD Let_def
          split: if_splits dest!: res_bind_InrD intro!: that\<close>)
    qed
    note drop = refs_drop_subscription [OF parts(2) assms(2)] and row = required_local_row [OF parts(1) assms(2)]
    from parts(3) show ?thesis
    proof (elim disjE conjE)
      assume "?n \<noteq> node_id local" "get_node_subscriptions (se_node env) nodes ?n True = Inr []"
        and d: "drop_node ?n (drop_node_interfaces ?n nodes) = Inr (sd_node db')"
      then show ?thesis by (intro refs_drop_node [OF d]) (use drop row no_subscriptions in auto)
    qed (use drop in simp)
  qed
qed

text \<open>The functions that load a subscription, change it and store it.\<close>

lemma refs_store:
  assumes "store_subscription sub' db = Inr db'" "named_subscription env name db = Inr sub" "refs_ok (sd_node db)"
    "sub_origin_if sub' = sub_origin_if sub" "sub_target_if sub' = sub_target_if sub"
  shows "refs_ok (sd_node db')"
proof (rule refs_store_subscription [OF assms(1, 3)])
  from assms(2) have "get_subscription_by_name (se_node env) (sd_node db) name False = Inr (Some sub)"
    by (simp add: named_subscription_def need_InrD in_node_InrD)
  from loaded_subscription [OF this assms(3)] show "sub_refs (sd_node db) sub'" using assms(4, 5) unfolding sub_refs_def by metis
qed

lemma refs_subscription_interface:
  assumes "spock_alter_subscription_interface env name ifname db = Inr (r, db')" "refs_ok (sd_node db)"
  shows "refs_ok (sd_node db')"
proof (cases "db' = db")
  case False
  with assms(1) obtain sub new_if where parts: "get_subscription_by_name (se_node env) (sd_node db) name False = Inr (Some sub)"
    "get_node_interface_by_name (sd_node db) (node_id (sub_origin sub)) ifname False = Inr (Some new_if)"
    "store_subscription (sub\<lparr>sub_origin_if := new_if\<rparr>) db = Inr db'"
    by (auto simp: spock_alter_subscription_interface_def named_subscription_def need_InrD in_node_InrD
        split: if_splits dest!: res_bind_InrD)
  have "new_if \<in> set (nd_ifs (sd_node db))" using parts(2)
    by (auto simp: get_node_interface_by_name_def split: option.splits dest!: find_someD)
  then show ?thesis using loaded_subscription [OF parts(1) assms(2)]
    by (intro refs_store_subscription [OF parts(3) assms(2)]) (auto simp: sub_refs_def if_of_def)
qed (use assms in simp)

lemma subscription_options_interfaces:
  "subscription_options ii ts sub c = Inr (sub', c') \<Longrightarrow>
     sub_origin_if sub' = sub_origin_if sub \<and> sub_target_if sub' = sub_target_if sub"
proof (induction ii ts sub c arbitrary: sub' c' rule: subscription_options.induct)
  case (1 ii ts sub c)
  from "1.prems" show ?case
    by (subst (asm) subscription_options.simps)
      (auto split: list.splits jsonb_token.splits if_splits sum.splits option.splits jsonb_value.splits dest: "1.IH")
qed

lemma refs_disable:
  "spock_alter_subscription_disable env name imm db = Inr (r, db') \<Longrightarrow> refs_ok (sd_node db) \<Longrightarrow> refs_ok (sd_node db')"
  by (auto simp: spock_alter_subscription_disable_def split: if_splits dest!: res_bind_InrD elim!: refs_store)

lemma refs_enable:
  "spock_alter_subscription_enable env name imm db = Inr (r, db') \<Longrightarrow> refs_ok (sd_node db) \<Longrightarrow> refs_ok (sd_node db')"
  by (auto simp: spock_alter_subscription_enable_def split: if_splits dest!: res_bind_InrD elim!: refs_store)

lemma refs_add_set:
  "spock_alter_subscription_add_replication_set env name rsname db = Inr (r, db') \<Longrightarrow> refs_ok (sd_node db) \<Longrightarrow> refs_ok (sd_node db')"
  by (auto simp: spock_alter_subscription_add_replication_set_def split: if_splits dest!: res_bind_InrD elim!: refs_store)

lemma refs_remove_set:
  "spock_alter_subscription_remove_replication_set env name rsname db = Inr (r, db') \<Longrightarrow> refs_ok (sd_node db) \<Longrightarrow> refs_ok (sd_node db')"
  by (auto simp: spock_alter_subscription_remove_replication_set_def split: if_splits dest!: res_bind_InrD elim!: refs_store)

lemma refs_skip_lsn:
  "spock_alter_subscription_skip_lsn env name lsn db = Inr (r, db') \<Longrightarrow> refs_ok (sd_node db) \<Longrightarrow> refs_ok (sd_node db')"
  by (auto simp: spock_alter_subscription_skip_lsn_def split: if_splits dest!: res_bind_InrD elim!: refs_store)

lemma refs_options:
  assumes "spock_alter_subscription_options env name opts db = Inr (r, db')" "refs_ok (sd_node db)"
  shows "refs_ok (sd_node db')"
proof (cases "\<exists>ts. jb_tokens opts = WJB_BEGIN_OBJECT # ts")
  case True
  then obtain ts where ts: "jb_tokens opts = WJB_BEGIN_OBJECT # ts" by blast
  with assms(1) obtain sub sub' changed where sub: "named_subscription env name db = Inr sub"
    "subscription_options (se_interval_in env) ts sub False = Inr (sub', changed)"
    "if changed then store_subscription sub' db = Inr db' else db' = db"
    by (auto simp: spock_alter_subscription_options_def split: if_splits dest!: res_bind_InrD)
  note same = subscription_options_interfaces [OF sub(2)]
  show ?thesis
  proof (cases changed)
    case True
    with sub(3) have "store_subscription sub' db = Inr db'" by simp
    then show ?thesis by (rule refs_store [OF _ sub(1) assms(2)]) (use same in simp_all)
  qed (use sub(3) assms(2) in simp)
next
  case False
  then have "(case jb_tokens opts of WJB_BEGIN_OBJECT # ts \<Rightarrow> f ts | _ \<Rightarrow> Inl Options_not_object) = Inl Options_not_object"
    for f :: "_ \<Rightarrow> sql_error + bool \<times> ('a, 'b, 'c) spock_db"
    by (auto split: list.split jsonb_token.split)
  then show ?thesis using assms(1) unfolding spock_alter_subscription_options_def by (auto dest!: res_bind_InrD)
qed

lemmas refs_alter_subscription = refs_disable refs_enable refs_add_set refs_remove_set refs_skip_lsn refs_options

lemma sync_missing_nodes: "sync_missing env subid trunc rels tables db = Inr (left, db') \<Longrightarrow> sd_node db' = sd_node db"
proof (induction env subid trunc rels tables db arbitrary: left db' rule: sync_missing.induct)
  case (2 env subid trunc nspname relname rels tables db)
  show ?case
  proof (cases "find (sync_of_table nspname relname) tables")
    case None
    with "2.prems" obtain rows where "sync_missing env subid trunc rels tables (db\<lparr>sd_sync := rows,
        sd_truncated := (if trunc then sd_truncated db @ [(nspname, relname)] else sd_truncated db)\<rparr>) = Inr (left, db')"
      by (auto simp del: if_split dest!: res_bind_InrD)
    from "2.IH"(1) [OF None this] show ?thesis by simp
  next
    case (Some sync) with "2.IH"(2) [OF Some] "2.prems" show ?thesis by simp
  qed
qed simp

lemma refs_synchronize:
  "spock_alter_subscription_synchronize env name trunc remote db = Inr (r, db') \<Longrightarrow> refs_ok (sd_node db) \<Longrightarrow> refs_ok (sd_node db')"
  by (auto simp: spock_alter_subscription_synchronize_def
      dest!: res_bind_InrD sync_missing_nodes split: if_splits prod.splits)

lemma refs_resynchronize:
  "spock_alter_subscription_resynchronize_table env name reloid trunc db = Inr (r, db') \<Longrightarrow> refs_ok (sd_node db) \<Longrightarrow>
     refs_ok (sd_node db')"
  by (cases "se_rel_name env reloid")
    (auto simp: spock_alter_subscription_resynchronize_table_def simp del: if_split dest!: res_bind_InrD)

section \<open>The catalogs of a running server\<close>

text \<open>
  A call of one of the functions that manage nodes, interfaces and subscriptions, each with a server of its own:
  the time, the provider that answers and the workers differ from call to call.  An interface is
  dropped only when it is not that of the local node, which the function does not check.
\<close>

inductive catalog_step :: "('j, 'i, 'f) spock_db \<Rightarrow> ('j, 'i, 'f) spock_db \<Rightarrow> bool" where
  create_node: "spock_create_node env name dsn location country info db = Inr (nodeid, db') \<Longrightarrow> catalog_step db db'"
| drop_node: "spock_drop_node env nname ifexists db = Some (Inr (dropped, db')) \<Longrightarrow> catalog_step db db'"
| add_interface: "spock_alter_node_add_interface env nname name' dsn' db = Inr (ifid, db') \<Longrightarrow> catalog_step db db'"
| drop_interface: "spock_alter_node_drop_interface env nname name' db = Inr (b, db') \<Longrightarrow>
    (\<forall>i \<in> set (nd_ifs (sd_node db)). if_id i \<in> snd ` set (nd_local (sd_node db)) \<longrightarrow> if_name i \<noteq> name') \<Longrightarrow>
    catalog_step db db'"
| create_subscription: "spock_create_subscription env sname dsn' sets sync_structure sync_data origins delay force_text enabled skip db
    = Inr (subid, db') \<Longrightarrow> catalog_step db db'"
| drop_subscription: "spock_drop_subscription env sname ifexists db = Inr (b, db') \<Longrightarrow> catalog_step db db'"
| disable: "spock_alter_subscription_disable env sname immediate db = Inr (b, db') \<Longrightarrow> catalog_step db db'"
| enable: "spock_alter_subscription_enable env sname immediate db = Inr (b, db') \<Longrightarrow> catalog_step db db'"
| alter_interface: "spock_alter_subscription_interface env sname ifname db = Inr (b, db') \<Longrightarrow> catalog_step db db'"
| add_set: "spock_alter_subscription_add_replication_set env sname set_name db = Inr (b, db') \<Longrightarrow> catalog_step db db'"
| remove_set: "spock_alter_subscription_remove_replication_set env sname set_name db = Inr (b, db') \<Longrightarrow> catalog_step db db'"
| skip_lsn: "spock_alter_subscription_skip_lsn env sname lsn db = Inr (b, db') \<Longrightarrow> catalog_step db db'"
| alter_options: "spock_alter_subscription_options env sname options db = Inr (b, db') \<Longrightarrow> catalog_step db db'"
| synchronize: "spock_alter_subscription_synchronize env sname trunc remote db = Inr (b, db') \<Longrightarrow> catalog_step db db'"
| resynchronize: "spock_alter_subscription_resynchronize_table env sname reloid trunc db = Inr (b, db') \<Longrightarrow> catalog_step db db'"

inductive catalog_reach :: "('j, 'i, 'f) spock_db \<Rightarrow> bool" where
  empty: "nd_nodes (sd_node db) = [] \<Longrightarrow> nd_ifs (sd_node db) = [] \<Longrightarrow> nd_local (sd_node db) = [] \<Longrightarrow>
    nd_subs (sd_node db) = [] \<Longrightarrow> catalog_reach db"
| step: "catalog_reach db \<Longrightarrow> catalog_step db db' \<Longrightarrow> catalog_reach db'"

lemma catalog_step_refs:
  assumes "catalog_step db db'" "refs_ok (sd_node db)"
  shows "refs_ok (sd_node db')"
  using assms
proof cases
  case (drop_interface env nname name' b)
  show ?thesis by (rule refs_drop_interface [OF drop_interface(1) assms(2)]) (use drop_interface(2) in force)
qed (use assms(2) in \<open>blast intro: refs_spock_create_node refs_spock_drop_node refs_add_interface
  refs_spock_create_subscription refs_spock_drop_subscription refs_subscription_interface
  refs_alter_subscription refs_synchronize refs_resynchronize\<close>)+

lemma catalog_reach_refs: "catalog_reach db \<Longrightarrow> refs_ok (sd_node db)"
proof (induction rule: catalog_reach.induct)
  case (empty db) then show ?case by (auto simp: refs_ok_def)
qed (rule catalog_step_refs)

lemma find_in: "x \<in> set xs \<Longrightarrow> p x \<Longrightarrow> \<exists>y. find p xs = Some y \<and> y \<in> set xs \<and> p y"
  by (induction xs) auto

lemma get_node_error:
  "nodeid \<in> nt_id ` set (nd_nodes db) \<Longrightarrow>
     (\<exists>t. get_node env db nodeid False = Inl (Tiebreaker_invalid t)) \<or> (\<exists>n. get_node env db nodeid False = Inr (Some n) \<and> node_id n = nodeid)"
  using find_in [of _ "nd_nodes db" "\<lambda>t. nt_id t = nodeid"]
  by (fastforce simp: get_node_def node_of_row_def node_fromtuple_def Let_def res_bind_def split: option.splits)

lemma get_interface_found: "if_of (nd_ifs db) k n \<Longrightarrow> \<exists>i. get_node_interface db k = Inr i"
  using find_in [of _ "nd_ifs db" "\<lambda>t. if_id t = k"] by (fastforce simp: if_of_def get_node_interface_def)

lemma if_of_node: "refs_ok db \<Longrightarrow> if_of (nd_ifs db) k n \<Longrightarrow> n \<in> nt_id ` set (nd_nodes db)"
  using refs_okD(2) unfolding if_of_def by blast

lemma local_node_loads:
  assumes "refs_ok db" "get_local_node env db True = Inl e"
  shows "\<exists>t. e = Tiebreaker_invalid t"
proof (cases "nd_local db")
  case (Cons r rs)
  obtain n k where r: "r = (n, k)" by (cases r)
  with Cons refs_okD(4) [OF assms(1)] have nif: "if_of (nd_ifs db) k n" by simp
  from get_interface_found [OF nif] get_node_error [OF if_of_node [OF assms(1) nif], of env] assms(2) Cons r
  show ?thesis by (auto simp: get_local_node_def res_bind_def)
qed (use assms(2) in \<open>simp add: get_local_node_def\<close>)

lemma subscription_loads:
  assumes "refs_ok db" "t \<in> set (nd_subs db)"
  shows "case subscription_fromtuple env db t of
      Inl e \<Rightarrow> \<exists>txt. e = Tiebreaker_invalid txt
    | Inr sub \<Rightarrow> sub_id sub = su_id t \<and> nd_local db = [(node_id (sub_target sub), if_id (sub_target_if sub))] \<and>
        if_nodeid (sub_origin_if sub) = node_id (sub_origin sub) \<and> if_nodeid (sub_target_if sub) = node_id (sub_target sub)"
proof -
  note ok = refs_okD [OF assms(1)]
  note o = ok(5) [OF assms(2)] and l = ok(6) [OF assms(2)] and t = ok(4) [OF ok(6) [OF assms(2)]]
  obtain oif where oif: "get_node_interface db (su_origin_if t) = Inr oif" using get_interface_found [OF o] by blast
  obtain tif where tif: "get_node_interface db (su_target_if t) = Inr tif" using get_interface_found [OF t] by blast
  note oi = get_node_interface_row [OF oif] and ti = get_node_interface_row [OF tif]
  have one: "nd_local db = [(su_target t, su_target_if t)]" using l ok(3) by (cases "nd_local db") auto
  have ids: "if_nodeid oif = su_origin t" "if_nodeid tif = su_target t"
    using unique_if [OF o ok(1)] unique_if [OF t ok(1)] oi ti by blast+
  show ?thesis
    using get_node_error [OF if_of_node [OF assms(1) o], of env] get_node_error [OF if_of_node [OF assms(1) t], of env]
      oif tif oi ti one ids
    by (auto simp: subscription_fromtuple_def need_node_def res_bind_def)
qed

text \<open>
  C9: In every catalog that the functions build up from an empty one, unless the interface of the
  local node is dropped, the local node and every subscription load: the only error left is a
  tiebreaker in the node's \<open>info\<close> that is not a number.  A subscription that loads is for the local
  node and its interface, and its interfaces belong to its nodes.
\<close>

theorem catalog_loads:
  assumes "catalog_reach db"
  shows "(\<forall>e. get_local_node env (sd_node db) True = Inl e \<longrightarrow> (\<exists>txt. e = Tiebreaker_invalid txt)) \<and>
    (\<forall>s \<in> set (nd_subs (sd_node db)).
       case get_subscription env (sd_node db) (su_id s) of
         Inl e \<Rightarrow> \<exists>txt. e = Tiebreaker_invalid txt
       | Inr sub \<Rightarrow> sub_id sub = su_id s \<and>
           nd_local (sd_node db) = [(node_id (sub_target sub), if_id (sub_target_if sub))] \<and>
           if_nodeid (sub_origin_if sub) = node_id (sub_origin sub) \<and>
           if_nodeid (sub_target_if sub) = node_id (sub_target sub))"
proof (intro conjI allI impI ballI)
  note ok = catalog_reach_refs [OF assms]
  show "\<exists>txt. e = Tiebreaker_invalid txt" if "get_local_node env (sd_node db) True = Inl e" for e
    by (rule local_node_loads [OF ok that])
  fix s assume "s \<in> set (nd_subs (sd_node db))"
  then obtain t where t: "find (\<lambda>t. su_id t = su_id s) (nd_subs (sd_node db)) = Some t" "t \<in> set (nd_subs (sd_node db))"
    "su_id t = su_id s" using find_in [of s "nd_subs (sd_node db)" "\<lambda>t. su_id t = su_id s"] by blast
  show "case get_subscription env (sd_node db) (su_id s) of
         Inl e \<Rightarrow> \<exists>txt. e = Tiebreaker_invalid txt
       | Inr sub \<Rightarrow> sub_id sub = su_id s \<and>
           nd_local (sd_node db) = [(node_id (sub_target sub), if_id (sub_target_if sub))] \<and>
           if_nodeid (sub_origin_if sub) = node_id (sub_origin sub) \<and>
           if_nodeid (sub_target_if sub) = node_id (sub_target sub)"
    using subscription_loads [OF ok t(2), of env] t(1, 3) by (simp add: get_subscription_def split: sum.splits)
qed

text \<open>
  C32: \<open>spock.node_drop_interface\<close> looks only at subscriptions from the node, so the interface
  of the local node, which is the target of its subscriptions, can be dropped.  After that the server
  is no node for any function that asks for the local node, and the node cannot be dropped either.
\<close>

theorem drop_interface_breaks_local_node:
  assumes "refs_ok (sd_node db)"
    and local: "get_local_node (se_node env) (sd_node db) True = Inr (Some (node, nodeif))"
    and name: "get_node_by_name (se_node env) (sd_node db) (node_name node) False = Inr (Some node)"
    and ifname: "get_node_interface_by_name (sd_node db) (node_id node) (if_name nodeif) True = Inr (Some nodeif)"
    and provider: "\<forall>s \<in> set (nd_subs (sd_node db)). su_origin s \<noteq> node_id node"
  shows "\<exists>db'. spock_alter_node_drop_interface env (node_name node) (if_name nodeif) db = Inr (True, db') \<and>
    check_local_node env db' = Inl (Sql_node (Interface_not_found (if_id nodeif))) \<and>
    (\<exists>e. spock_drop_node env (node_name node) False db' = Some (Inl e))"
proof -
  let ?db = "sd_node db"
  note row = get_local_node_row [OF local assms(1)]
  obtain rows where rows: "delete_first (\<lambda>t. if_id t = if_id nodeif) (nd_ifs ?db) = Some rows"
    using row by (cases "delete_first (\<lambda>t. if_id t = if_id nodeif) (nd_ifs ?db)") (auto simp: delete_first_None)
  let ?db' = "db\<lparr>sd_node := ?db\<lparr>nd_ifs := rows\<rparr>\<rparr>"
  have "get_node_subscriptions (se_node env) ?db (node_id node) True = Inr []"
    using provider by (simp add: get_node_subscriptions_def filter_False)
  then have drop: "spock_alter_node_drop_interface env (node_name node) (if_name nodeif) db = Inr (True, ?db')"
    using name ifname rows by (simp add: spock_alter_node_drop_interface_def in_node_def need_def drop_node_interface_def res_bind_def)
  have gone: "find (\<lambda>t. if_id t = if_id nodeif) rows = None"
    using delete_first_cases [OF rows] refs_okD(1) [OF assms(1)] by (auto simp: find_None_iff) (metis imageI)
  have node: "get_node (se_node env) ?db (node_id node) False = Inr (Some node)"
    using local row by (auto simp: get_local_node_def split: option.splits dest!: res_bind_InrD)
  have same: "get_node (se_node env) (?db\<lparr>nd_ifs := rows\<rparr>) n b = get_node (se_node env) ?db n b"
    "get_node_by_name (se_node env) (?db\<lparr>nd_ifs := rows\<rparr>) nm b = get_node_by_name (se_node env) ?db nm b" for n nm b
    by (simp_all add: get_node_def get_node_by_name_def)
  have lost: "get_local_node (se_node env) (sd_node ?db') True = Inl (Interface_not_found (if_id nodeif))"
    using row node same gone by (simp add: get_local_node_def get_node_interface_def res_bind_def)
  have "\<exists>e. spock_drop_node env (node_name node) False ?db' = Some (Inl e)"
    using lost name same
    by (cases "get_node_subscriptions (se_node env) (sd_node ?db') (node_id node) True";
        cases "get_node_subscriptions (se_node env) (sd_node ?db') (node_id node) False")
      (auto simp: spock_drop_node_def er_bind_def in_node_def)
  with drop lost show ?thesis by (auto simp: check_local_node_def in_node_def need_def res_bind_def)
qed

section \<open>A concrete catalog\<close>

text \<open>A server whose provider is the node \<open>n2\<close>; the hash is a polynomial one.\<close>

definition demo_hash :: "bytes \<Rightarrow> uint32" where
  "demo_hash s = foldl (\<lambda>h c. 31 * h + ucast c) 0 s"

definition demo_sql_env :: "(nat, nat, bytes) sql_env" where
  "demo_sql_env =
     \<lparr>se_node = \<lparr>ne_hash_any = demo_hash, ne_hash_pair = (\<lambda>a b. 31 * a + b), ne_tiebreaker_field = (\<lambda>_. None),
        ne_strtoint32 = (\<lambda>_. None), ne_now = 100\<rparr>,
      se_repset = demo_repset_env\<lparr>hash_any := demo_hash, hash_pair := (\<lambda>a b. 31 * a + b)\<rparr>,
      se_depth = 3, se_dboid = 5, se_dbname = cs ''db'', se_role = cs ''u'', se_now = 100, se_room = (\<lambda>_. True),
      se_workers = \<lparr>ctx_supervisor = None, ctx_subscriptions_changed = False, ctx_workers = []\<rparr>,
      se_remote = (\<lambda>_. \<lparr>rp_connect = True, rp_replica = True, rp_local = True, rp_structure = True,
        rp_node = \<lparr>nt_id = 77, nt_name = cs ''n2'', nt_location = None, nt_country = None, nt_info = None\<rparr>\<rparr>),
      se_in_transaction = False, se_interval_in = (\<lambda>_. None), se_readonly = False, se_escape_json = (\<lambda>s. s),
      se_json_valid = (\<lambda>_. True), se_rel_name = (\<lambda>_. (cs ''public'', cs ''t'')), se_inheritors = (\<lambda>i. [i]),
      se_relkind = (\<lambda>_. ch CHR ''r''), se_ispartition = (\<lambda>_. False), se_namespace = (\<lambda>_. None),
      se_table_open = (\<lambda>_. None), se_quote_qualified = (\<lambda>n r. n @ cs ''.'' @ r), se_parse_query = (\<lambda>_. None),
      se_transform_filter = (\<lambda>_ _. None), se_simple_filter = (\<lambda>_. True)\<rparr>"

definition demo_sql0 :: "(nat, nat, bytes) spock_db" where
  "demo_sql0 =
     \<lparr>sd_node = \<lparr>nd_nodes = [], nd_ifs = [], nd_local = [], nd_subs = [], nd_next_subid = 1, nd_signals = []\<rparr>,
      sd_repset = \<lparr>db_sets = [], db_tables = [], db_seqs = [], db_depend = [], db_seq_state = [], db_inval = []\<rparr>,
      sd_sync = [], sd_queue = [], sd_slots = [], sd_origins = [], sd_groups = [], sd_signals = [], sd_truncated = []\<rparr>"

definition demo_sql1 :: "(nat, nat, bytes) spock_db" where
  "demo_sql1 = snd (projr (spock_create_node demo_sql_env (Some (cs ''n1'')) (Some (cs ''host=a'')) None None None demo_sql0))"

definition demo_sql2 :: "(nat, nat, bytes) spock_db" where
  "demo_sql2 = snd (projr (spock_create_subscription demo_sql_env (cs ''sub1'') (cs ''host=b'') [cs ''default''] False False
     [] 0 False True [] demo_sql1))"

lemma projr_run: "\<not> isl r \<Longrightarrow> db' = snd (projr r) \<Longrightarrow> \<exists>x. r = Inr (x, db')"
  by (cases r) (auto simp: prod_eq_iff)

lemma demo_sql_reach: "catalog_reach demo_sql2"
proof -
  have 0: "catalog_reach demo_sql0" by (rule catalog_reach.empty) (simp_all add: demo_sql0_def)
  have "\<not> isl (spock_create_node demo_sql_env (Some (cs ''n1'')) (Some (cs ''host=a'')) None None None demo_sql0)"
    by code_simp
  from projr_run [OF this demo_sql1_def] have 1: "catalog_reach demo_sql1"
    by (blast intro: catalog_reach.step [OF 0] catalog_step.create_node)
  have "\<not> isl (spock_create_subscription demo_sql_env (cs ''sub1'') (cs ''host=b'') [cs ''default''] False False
     [] 0 False True [] demo_sql1)"
    by code_simp
  from projr_run [OF this demo_sql2_def] show ?thesis
    by (blast intro: catalog_reach.step [OF 1] catalog_step.create_subscription)
qed

theorem catalog_loads_witness:
  "catalog_reach demo_sql2 \<and> map su_id (nd_subs (sd_node demo_sql2)) = [1] \<and>
   (\<exists>sub. get_subscription (se_node demo_sql_env) (sd_node demo_sql2) 1 = Inr sub \<and>
      nd_local (sd_node demo_sql2) = [(node_id (sub_target sub), if_id (sub_target_if sub))])"
proof -
  have ids: "map su_id (nd_subs (sd_node demo_sql2)) = [1]" by code_simp
  have ok: "\<not> isl (get_subscription (se_node demo_sql_env) (sd_node demo_sql2) 1)" by code_simp
  from ids obtain s where s: "s \<in> set (nd_subs (sd_node demo_sql2))" "su_id s = 1"
    by (cases "nd_subs (sd_node demo_sql2)") auto
  with catalog_loads [OF demo_sql_reach, of "se_node demo_sql_env"]
  have "case get_subscription (se_node demo_sql_env) (sd_node demo_sql2) 1 of
         Inl e \<Rightarrow> \<exists>txt. e = Tiebreaker_invalid txt
       | Inr sub \<Rightarrow> nd_local (sd_node demo_sql2) = [(node_id (sub_target sub), if_id (sub_target_if sub))]"
    by (auto split: sum.splits)
  with ok ids demo_sql_reach show ?thesis by (auto split: sum.splits)
qed

theorem drop_interface_breaks_local_node_witness:
  "\<exists>db'. spock_alter_node_drop_interface demo_sql_env (cs ''n1'') (cs ''n1'') demo_sql2 = Inr (True, db') \<and>
    isl (check_local_node demo_sql_env db')"
proof -
  have "\<exists>node nodeif. get_local_node (se_node demo_sql_env) (sd_node demo_sql2) True = Inr (Some (node, nodeif)) \<and>
    node_name node = cs ''n1'' \<and> if_name nodeif = cs ''n1'' \<and>
    get_node_by_name (se_node demo_sql_env) (sd_node demo_sql2) (node_name node) False = Inr (Some node) \<and>
    get_node_interface_by_name (sd_node demo_sql2) (node_id node) (if_name nodeif) True = Inr (Some nodeif) \<and>
    (\<forall>s \<in> set (nd_subs (sd_node demo_sql2)). su_origin s \<noteq> node_id node)"
    by (rule exI [of _ "fst (the (projr (get_local_node (se_node demo_sql_env) (sd_node demo_sql2) True)))"],
        rule exI [of _ "snd (the (projr (get_local_node (se_node demo_sql_env) (sd_node demo_sql2) True)))"]) code_simp
  then obtain node nodeif where n: "get_local_node (se_node demo_sql_env) (sd_node demo_sql2) True = Inr (Some (node, nodeif))"
    "node_name node = cs ''n1''" "if_name nodeif = cs ''n1''"
    "get_node_by_name (se_node demo_sql_env) (sd_node demo_sql2) (node_name node) False = Inr (Some node)"
    "get_node_interface_by_name (sd_node demo_sql2) (node_id node) (if_name nodeif) True = Inr (Some nodeif)"
    "\<forall>s \<in> set (nd_subs (sd_node demo_sql2)). su_origin s \<noteq> node_id node" by blast
  from drop_interface_breaks_local_node [OF catalog_reach_refs [OF demo_sql_reach] n(1, 4-6)] n(2, 3) show ?thesis
    by auto
qed

end
