(* ===== verification/Spock_Proto_Json.thy ===== *)
theory Spock_Proto_Json
  imports Spock_Proto_Native
begin

text \<open>
  The JSON replication protocol (\<open>src/spock_proto_json.c\<close>): the writers of the messages, the
  conversion of a column to JSON by the category of its type, and the grammar of JSON with the
  theorem that the messages are texts of it.
\<close>

section \<open>Data\<close>

text \<open>Oids of built-in types, from PostgreSQL's \<open>pg_type.dat\<close>.\<close>

definition BOOLOID :: Oid where "BOOLOID = 16"
definition INT8OID :: Oid where "INT8OID = 20"
definition INT2OID :: Oid where "INT2OID = 21"
definition INT4OID :: Oid where "INT4OID = 23"
definition JSONOID :: Oid where "JSONOID = 114"
definition FLOAT4OID :: Oid where "FLOAT4OID = 700"
definition FLOAT8OID :: Oid where "FLOAT8OID = 701"
definition DATEOID :: Oid where "DATEOID = 1082"
definition TIMESTAMPOID :: Oid where "TIMESTAMPOID = 1114"
definition TIMESTAMPTZOID :: Oid where "TIMESTAMPTZOID = 1184"
definition NUMERICOID :: Oid where "NUMERICOID = 1700"
definition ANYARRAYOID :: Oid where "ANYARRAYOID = 2277"
definition RECORDARRAYOID :: Oid where "RECORDARRAYOID = 2287"
definition JSONBOID :: Oid where "JSONBOID = 3802"

lemmas type_oids = BOOLOID_def INT8OID_def INT2OID_def INT4OID_def JSONOID_def FLOAT4OID_def
  FLOAT8OID_def DATEOID_def TIMESTAMPOID_def TIMESTAMPTZOID_def NUMERICOID_def ANYARRAYOID_def
  RECORDARRAYOID_def JSONBOID_def

datatype JsonTypeCategory =
    JSONTYPE_NULL | JSONTYPE_BOOL | JSONTYPE_NUMERIC | JSONTYPE_DATE | JSONTYPE_TIMESTAMP
  | JSONTYPE_TIMESTAMPTZ | JSONTYPE_JSON | JSONTYPE_ARRAY | JSONTYPE_COMPOSITE | JSONTYPE_CAST
  | JSONTYPE_OTHER

text \<open>
  \<open>Stack_depth_exceeded\<close> is what \<open>check_stack_depth\<close> raises; \<open>Elements_exhausted\<close> marks a read past
  the elements of an array.
\<close>

datatype json_error =
    Stack_depth_exceeded
  | Key_not_scalar
  | Timestamp_out_of_range
  | Elements_exhausted

text \<open>
  What the writers call in the server, beyond the type system of the native protocol.  An array is
  seen as its element type, its dimensions, what \<open>ArrayGetNItems\<close> says and its elements; a composite
  as the attributes of its row type with their values.  \<open>find_json_cast\<close> is
  \<open>find_coercion_pathway (JSONOID, \<dots>, COERCION_EXPLICIT, \<dots>)\<close>: whether the path is a function, and
  which.  \<open>encode_timestamp\<close> is \<open>timestamp2tm\<close> and \<open>EncodeDateTime\<close>, with or without a time zone.
\<close>

record 'd json_ops = "'d datum_ops" +
  escape_json :: "bytes \<Rightarrow> bytes"
  IsValidJsonNumber :: "bytes \<Rightarrow> bool"
  getBaseType :: "Oid \<Rightarrow> Oid"
  type_output :: "Oid \<Rightarrow> Oid"
  get_element_type :: "Oid \<Rightarrow> Oid"
  type_is_rowtype :: "Oid \<Rightarrow> bool"
  find_json_cast :: "Oid \<Rightarrow> bool \<times> Oid"
  DatumGetBool :: "'d \<Rightarrow> bool"
  DATE_NOT_FINITE :: "'d \<Rightarrow> bool"
  EncodeSpecialDate :: "'d \<Rightarrow> bytes"
  EncodeDateOnly :: "'d \<Rightarrow> bytes"
  TIMESTAMP_NOT_FINITE :: "'d \<Rightarrow> bool"
  EncodeSpecialTimestamp :: "'d \<Rightarrow> bytes"
  encode_timestamp :: "bool \<Rightarrow> 'd \<Rightarrow> bytes option"
  cast_call :: "Oid \<Rightarrow> 'd \<Rightarrow> bytes"
  array_view :: "'d \<Rightarrow> Oid \<times> nat list \<times> int \<times> 'd option list"
  composite_view :: "'d \<Rightarrow> (pg_attribute \<times> 'd option) list"
  timestamptz_to_str :: "TimestampTz \<Rightarrow> bytes"

section \<open>Values\<close>

definition json_categorize_type :: "'d json_ops \<Rightarrow> Oid \<Rightarrow> JsonTypeCategory \<times> Oid" where
  "json_categorize_type ops typoid =
     (let typoid = getBaseType ops typoid
      in if typoid = BOOLOID then (JSONTYPE_BOOL, InvalidOid)
         else if typoid \<in> {INT2OID, INT4OID, INT8OID, FLOAT4OID, FLOAT8OID, NUMERICOID}
         then (JSONTYPE_NUMERIC, type_output ops typoid)
         else if typoid = DATEOID then (JSONTYPE_DATE, InvalidOid)
         else if typoid = TIMESTAMPOID then (JSONTYPE_TIMESTAMP, InvalidOid)
         else if typoid = TIMESTAMPTZOID then (JSONTYPE_TIMESTAMPTZ, InvalidOid)
         else if typoid \<in> {JSONOID, JSONBOID} then (JSONTYPE_JSON, type_output ops typoid)
         else if get_element_type ops typoid \<noteq> InvalidOid \<or> typoid = ANYARRAYOID \<or> typoid = RECORDARRAYOID
         then (JSONTYPE_ARRAY, InvalidOid)
         else if type_is_rowtype ops typoid then (JSONTYPE_COMPOSITE, InvalidOid)
         else if typoid \<ge> FirstNormalObjectId then
           (case find_json_cast ops typoid of (is_func, castfunc) \<Rightarrow>
              if is_func \<and> castfunc \<noteq> InvalidOid then (JSONTYPE_CAST, castfunc)
              else (JSONTYPE_OTHER, type_output ops typoid))
         else (JSONTYPE_OTHER, type_output ops typoid))"

definition quoted :: "bytes \<Rightarrow> bytes" where
  "quoted s = cs ''\"'' @ s @ cs ''\"''"

text \<open>The separator of the elements of an array and of the fields of a composite.\<close>

definition json_sep :: "bool \<Rightarrow> bytes" where
  "json_sep use_line_feeds = (if use_line_feeds then cs '','' @ [10] @ cs '' '' else cs '','')"

text \<open>
  One dimension of an array: \<open>f\<close> writes one item and returns the elements that are left.
\<close>

primrec dim_loop ::
    "nat \<Rightarrow> bool \<Rightarrow> bytes \<Rightarrow> ('v \<Rightarrow> json_error + bytes \<times> 'v) \<Rightarrow> 'v \<Rightarrow> json_error + bytes \<times> 'v" where
  "dim_loop 0 first sep f vs = Inr ([], vs)"
| "dim_loop (Suc n) first sep f vs =
     res_bind (f vs) (\<lambda>(item, vs). res_bind (dim_loop n False sep f vs) (\<lambda>(rest, vs).
       Inr ((if first then [] else sep) @ item @ rest, vs)))"

definition next_element ::
    "('d option \<Rightarrow> json_error + bytes) \<Rightarrow> 'd option list \<Rightarrow> json_error + bytes \<times> 'd option list" where
  "next_element elem vs = (case vs of [] \<Rightarrow> Inl Elements_exhausted
     | v # vs \<Rightarrow> res_bind (elem v) (\<lambda>b. Inr (b, vs)))"

text \<open>\<open>array_dim_to_json\<close>, with the dimensions from \<open>dim\<close> on and the elements from \<open>*valcount\<close> on.\<close>

primrec array_dim_to_json ::
    "('d option \<Rightarrow> json_error + bytes) \<Rightarrow> nat list \<Rightarrow> bool \<Rightarrow> 'd option list
     \<Rightarrow> json_error + bytes \<times> 'd option list" where
  "array_dim_to_json elem [] use_line_feeds vs = Inl Elements_exhausted"
| "array_dim_to_json elem (n # dims) use_line_feeds vs =
     res_bind (dim_loop n True (json_sep use_line_feeds)
                 (if dims = [] then next_element elem else array_dim_to_json elem dims False) vs) (\<lambda>(b, vs).
       Inr (cs ''['' @ b @ cs '']'', vs))"

text \<open>\<open>val\<close> converts a value of a given category: \<open>datum_to_json\<close> itself.\<close>

definition array_to_json_internal ::
    "'d json_ops \<Rightarrow> ('d option \<Rightarrow> JsonTypeCategory \<times> Oid \<Rightarrow> json_error + bytes) \<Rightarrow> 'd \<Rightarrow> bool
     \<Rightarrow> json_error + bytes" where
  "array_to_json_internal ops val array use_line_feeds =
     (case array_view ops array of (element_type, dims, nitems, elements) \<Rightarrow>
        if nitems \<le> 0 then Inr (cs ''[]'')
        else
          let cat = json_categorize_type ops element_type
          in res_bind (array_dim_to_json (\<lambda>v. val v cat) dims use_line_feeds elements) (\<lambda>(b, _). Inr b))"

text \<open>The fields of a JSON object that a loop over columns writes, \<open>needsep\<close> after the first.\<close>

primrec json_columns ::
    "'d json_ops \<Rightarrow> ('d option \<Rightarrow> JsonTypeCategory \<times> Oid \<Rightarrow> json_error + bytes) \<Rightarrow> bytes \<Rightarrow> bool
     \<Rightarrow> (pg_attribute \<times> 'd option) list \<Rightarrow> json_error + bytes" where
  "json_columns ops val sep needsep [] = Inr []"
| "json_columns ops val sep needsep (col # cols) =
     (case col of (att, v) \<Rightarrow>
        let cat = (if v = None then (JSONTYPE_NULL, InvalidOid) else json_categorize_type ops (atttypid att))
        in res_bind (val v cat) (\<lambda>b. res_bind (json_columns ops val sep True cols) (\<lambda>rest.
             Inr ((if needsep then sep else []) @ escape_json ops (attname att) @ cs '':'' @ b @ rest))))"

definition spock_composite_to_json ::
    "'d json_ops \<Rightarrow> ('d option \<Rightarrow> JsonTypeCategory \<times> Oid \<Rightarrow> json_error + bytes) \<Rightarrow> 'd \<Rightarrow> bool
     \<Rightarrow> json_error + bytes" where
  "spock_composite_to_json ops val composite use_line_feeds =
     res_bind (json_columns ops val (json_sep use_line_feeds) False
                 (filter (\<lambda>(att, _). \<not> (attisdropped att \<or> attgenerated att)) (composite_view ops composite)))
       (\<lambda>b. Inr (cs ''{'' @ b @ cs ''}''))"

text \<open>
  A value of a category that does not recurse.
\<close>

definition scalar_to_json ::
    "'d json_ops \<Rightarrow> 'd \<Rightarrow> JsonTypeCategory \<Rightarrow> Oid \<Rightarrow> bool \<Rightarrow> json_error + bytes" where
  "scalar_to_json ops val tcategory outfuncoid key_scalar =
     (case tcategory of
        JSONTYPE_BOOL \<Rightarrow>
          let outputstr = (if DatumGetBool ops val then cs ''true'' else cs ''false'')
          in Inr (if key_scalar then escape_json ops outputstr else outputstr)
      | JSONTYPE_NUMERIC \<Rightarrow>
          let outputstr = output_call ops outfuncoid val
          in Inr (if \<not> key_scalar \<and> IsValidJsonNumber ops outputstr then outputstr
                  else escape_json ops outputstr)
      | JSONTYPE_DATE \<Rightarrow>
          Inr (quoted (if DATE_NOT_FINITE ops val then EncodeSpecialDate ops val else EncodeDateOnly ops val))
      | JSONTYPE_TIMESTAMP \<Rightarrow>
          if TIMESTAMP_NOT_FINITE ops val then Inr (quoted (EncodeSpecialTimestamp ops val))
          else (case encode_timestamp ops False val of None \<Rightarrow> Inl Timestamp_out_of_range
                | Some buf \<Rightarrow> Inr (quoted buf))
      | JSONTYPE_TIMESTAMPTZ \<Rightarrow>
          if TIMESTAMP_NOT_FINITE ops val then Inr (quoted (EncodeSpecialTimestamp ops val))
          else (case encode_timestamp ops True val of None \<Rightarrow> Inl Timestamp_out_of_range
                | Some buf \<Rightarrow> Inr (quoted buf))
      | JSONTYPE_JSON \<Rightarrow> Inr (output_call ops outfuncoid val)
      | JSONTYPE_CAST \<Rightarrow> Inr (cast_call ops outfuncoid val)
      | _ \<Rightarrow> Inr (escape_json ops (output_call ops outfuncoid val)))"

text \<open>
  The conversion, with the number of nested calls that \<open>check_stack_depth\<close> still admits.
\<close>

primrec datum_to_json ::
    "nat \<Rightarrow> 'd json_ops \<Rightarrow> bool \<Rightarrow> 'd option \<Rightarrow> JsonTypeCategory \<times> Oid \<Rightarrow> json_error + bytes" where
  "datum_to_json 0 ops key_scalar v cat = Inl Stack_depth_exceeded"
| "datum_to_json (Suc depth) ops key_scalar v cat =
     (case v of
        None \<Rightarrow> Inr (cs ''null'')
      | Some val \<Rightarrow>
          if key_scalar \<and> fst cat \<in> {JSONTYPE_ARRAY, JSONTYPE_COMPOSITE, JSONTYPE_JSON, JSONTYPE_CAST}
          then Inl Key_not_scalar
          else if fst cat = JSONTYPE_ARRAY
          then array_to_json_internal ops (datum_to_json depth ops False) val False
          else if fst cat = JSONTYPE_COMPOSITE
          then spock_composite_to_json ops (datum_to_json depth ops False) val False
          else scalar_to_json ops val (fst cat) (snd cat) key_scalar)"

section \<open>Messages\<close>

text \<open>
  The columns of a tuple that are written: those of the native protocol, without an unchanged
  out-of-line value.
\<close>

definition json_column_sent :: "'d json_ops \<Rightarrow> att_list \<Rightarrow> pg_attribute \<times> 'd option \<Rightarrow> bool" where
  "json_column_sent ops att_list = (\<lambda>(att, v).
     att_sent att_list att \<and>
     \<not> (case v of None \<Rightarrow> False | Some d \<Rightarrow> attlen att = - 1 \<and> is_external_ondisk ops d))"

definition json_write_tuple ::
    "nat \<Rightarrow> 'd json_ops \<Rightarrow> Relation \<Rightarrow> 'd option list \<Rightarrow> att_list \<Rightarrow> json_error + bytes" where
  "json_write_tuple depth ops rel tuple att_list =
     res_bind (json_columns ops (datum_to_json depth ops False) (cs '','') False
                 (filter (json_column_sent ops att_list) (zip (rd_att rel) tuple)))
       (\<lambda>b. Inr (cs ''{'' @ b @ cs ''}''))"

text \<open>
  \<open>get_namespace_name\<close> of a namespace that is gone is a NULL, which \<open>appendStringInfo\<close> prints as
  \<open>(null)\<close>.
\<close>

definition namespace_text :: "Relation \<Rightarrow> bytes" where
  "namespace_text rel = (case rd_nspname rel of None \<Rightarrow> cs ''(null)'' | Some n \<Rightarrow> n)"

definition json_optional ::
    "bytes \<Rightarrow> ('a \<Rightarrow> json_error + bytes) \<Rightarrow> 'a option \<Rightarrow> json_error + bytes" where
  "json_optional key write x = (case x of None \<Rightarrow> Inr []
     | Some t \<Rightarrow> res_bind (write t) (\<lambda>b. Inr (key @ b)))"

definition spock_json_write_change ::
    "nat \<Rightarrow> 'd json_ops \<Rightarrow> bytes \<Rightarrow> Relation \<Rightarrow> 'd option list option \<Rightarrow> 'd option list option \<Rightarrow> att_list
     \<Rightarrow> json_error + bytes" where
  "spock_json_write_change depth ops change rel oldtuple newtuple att_list =
     res_bind (json_optional (cs '',\"oldtuple\":'') (\<lambda>t. json_write_tuple depth ops rel t att_list) oldtuple) (\<lambda>old.
     res_bind (json_optional (cs '',\"newtuple\":'') (\<lambda>t. json_write_tuple depth ops rel t att_list) newtuple) (\<lambda>new.
       Inr (cs ''{'' @ cs ''\"action\":\"'' @ change @ cs ''\",\"relation\":[\"'' @ namespace_text rel @
            cs ''\",\"'' @ rd_relname rel @ cs ''\"]'' @ old @ new @ cs ''}'')))"

definition spock_json_write_insert ::
    "nat \<Rightarrow> 'd json_ops \<Rightarrow> Relation \<Rightarrow> 'd option list \<Rightarrow> att_list \<Rightarrow> json_error + bytes" where
  "spock_json_write_insert depth ops rel newtuple att_list =
     spock_json_write_change depth ops (cs ''I'') rel None (Some newtuple) att_list"

definition spock_json_write_update ::
    "nat \<Rightarrow> 'd json_ops \<Rightarrow> Relation \<Rightarrow> 'd option list option \<Rightarrow> 'd option list \<Rightarrow> att_list
     \<Rightarrow> json_error + bytes" where
  "spock_json_write_update depth ops rel oldtuple newtuple att_list =
     spock_json_write_change depth ops (cs ''U'') rel oldtuple (Some newtuple) att_list"

definition spock_json_write_delete ::
    "nat \<Rightarrow> 'd json_ops \<Rightarrow> Relation \<Rightarrow> 'd option list \<Rightarrow> att_list \<Rightarrow> json_error + bytes" where
  "spock_json_write_delete depth ops rel oldtuple att_list =
     spock_json_write_change depth ops (cs ''D'') rel (Some oldtuple) None att_list"

text \<open>The rest of a decoded transaction, which the native writers do not read.\<close>

record DecodedTXN = ReorderBufferTXN +
  txn_has_catalog_changes :: bool
  txn_origin_id :: RepOriginId
  txn_origin_lsn :: XLogRecPtr
  txn_first_lsn :: XLogRecPtr

definition hex_digit :: "nat \<Rightarrow> byte" where
  "hex_digit n = (if n < 10 then word_of_nat (48 + n) else word_of_nat (55 + n))"

fun show_hex :: "nat \<Rightarrow> bytes" where
  "show_hex n = (if n < 16 then [hex_digit n] else show_hex (n div 16) @ [hex_digit (n mod 16)])"

text \<open>An LSN as \<open>%X/%X\<close> prints it.\<close>

definition show_lsn :: "XLogRecPtr \<Rightarrow> bytes" where
  "show_lsn lsn = show_hex (unat (ucast (drop_bit 32 lsn) :: uint32)) @ cs ''/'' @
     show_hex (unat (ucast lsn :: uint32))"

definition json_field :: "string \<Rightarrow> bytes \<Rightarrow> bytes" where
  "json_field key val = cs '', '' @ quoted (cs key) @ cs '':'' @ quoted val"

definition spock_json_write_begin :: "'d json_ops \<Rightarrow> bool \<Rightarrow> DecodedTXN \<Rightarrow> bytes" where
  "spock_json_write_begin ops client_no_txinfo txn =
     cs ''{'' @ cs ''\"action\":\"B\"'' @
     json_field ''has_catalog_changes'' (if txn_has_catalog_changes txn then cs ''t'' else cs ''f'') @
     (if txn_origin_id txn \<noteq> InvalidRepOriginId
      then json_field ''origin_id'' (show_nat (unat (txn_origin_id txn))) else []) @
     (if client_no_txinfo then []
      else json_field ''xid'' (show_nat (unat (txn_xid txn))) @
           json_field ''first_lsn'' (show_lsn (txn_first_lsn txn)) @
           json_field ''origin_lsn'' (show_lsn (txn_origin_lsn txn)) @
           (if txn_commit_time txn \<noteq> 0
            then json_field ''commit_time'' (timestamptz_to_str ops (txn_commit_time txn)) else [])) @
     cs ''}''"

definition spock_json_write_commit :: "bool \<Rightarrow> DecodedTXN \<Rightarrow> bytes" where
  "spock_json_write_commit client_no_txinfo txn =
     cs ''{'' @ cs ''\"action\":\"C\"'' @
     (if client_no_txinfo then []
      else json_field ''final_lsn'' (show_lsn (txn_final_lsn txn)) @
           json_field ''end_lsn'' (show_lsn (txn_end_lsn txn))) @
     cs ''}''"

primrec json_params :: "'d json_ops \<Rightarrow> bool \<Rightarrow> (bytes \<times> bytes) list \<Rightarrow> bytes" where
  "json_params ops first [] = []"
| "json_params ops first (p # msg) =
     (if first then [] else cs '','') @ escape_json ops (fst p) @ cs '':'' @ escape_json ops (snd p) @
     json_params ops False msg"

definition json_write_startup_message :: "'d json_ops \<Rightarrow> (bytes \<times> bytes) list \<Rightarrow> bytes" where
  "json_write_startup_message ops msg =
     cs ''{\"action\":\"S\", \"params\": {'' @ json_params ops True msg @ cs ''}}''"

section \<open>The grammar of JSON\<close>

text \<open>
  RFC 8259 over bytes, with spaces allowed after a comma and after a colon, which is where the
  writers put some.
\<close>

definition json_digit :: "byte \<Rightarrow> bool" where
  "json_digit c \<longleftrightarrow> 48 \<le> c \<and> c \<le> 57"

definition json_hex_digit :: "byte \<Rightarrow> bool" where
  "json_hex_digit c \<longleftrightarrow> json_digit c \<or> (65 \<le> c \<and> c \<le> 70) \<or> (97 \<le> c \<and> c \<le> 102)"

definition plain_char :: "byte \<Rightarrow> bool" where
  "plain_char c \<longleftrightarrow> 32 \<le> c \<and> c \<noteq> 34 \<and> c \<noteq> 92"

inductive json_chars :: "bytes \<Rightarrow> bool" where
  json_chars_nil: "json_chars []"
| json_chars_plain: "plain_char c \<Longrightarrow> json_chars s \<Longrightarrow> json_chars (c # s)"
| json_chars_escape: "c \<in> set (cs ''\"/bfnrt'') \<union> {92} \<Longrightarrow> json_chars s \<Longrightarrow> json_chars (92 # c # s)"
| json_chars_unicode: "list_all json_hex_digit [a, b, c, d] \<Longrightarrow> json_chars s \<Longrightarrow>
    json_chars (92 # 117 # a # b # c # d # s)"

definition json_digits :: "bytes \<Rightarrow> bool" where
  "json_digits s \<longleftrightarrow> s \<noteq> [] \<and> list_all json_digit s"

definition json_int :: "bytes \<Rightarrow> bool" where
  "json_int s \<longleftrightarrow> json_digits s \<and> (hd s = 48 \<longrightarrow> s = [48])"

definition json_frac :: "bytes \<Rightarrow> bool" where
  "json_frac s \<longleftrightarrow> s = [] \<or> hd s = 46 \<and> json_digits (tl s)"

definition json_exp :: "bytes \<Rightarrow> bool" where
  "json_exp s \<longleftrightarrow> s = [] \<or> hd s \<in> {69, 101} \<and>
     (json_digits (tl s) \<or> tl s \<noteq> [] \<and> hd (tl s) \<in> {43, 45} \<and> json_digits (tl (tl s)))"

definition json_number :: "bytes \<Rightarrow> bool" where
  "json_number s \<longleftrightarrow>
     (\<exists>m i f e. s = m @ i @ f @ e \<and> m \<in> {[], [45]} \<and> json_int i \<and> json_frac f \<and> json_exp e)"

definition json_string :: "bytes \<Rightarrow> bool" where
  "json_string s \<longleftrightarrow> (\<exists>b. s = quoted b \<and> json_chars b)"

definition json_ws :: "bytes \<Rightarrow> bool" where
  "json_ws s \<longleftrightarrow> set s \<subseteq> {9, 10, 13, 32}"

inductive json_value :: "bytes \<Rightarrow> bool"
  and json_elems :: "bytes \<Rightarrow> bool"
  and json_members :: "bytes \<Rightarrow> bool" where
  jv_null: "json_value (cs ''null'')"
| jv_true: "json_value (cs ''true'')"
| jv_false: "json_value (cs ''false'')"
| jv_number: "json_number s \<Longrightarrow> json_value s"
| jv_string: "json_string s \<Longrightarrow> json_value s"
| jv_empty_array: "json_value (cs ''[]'')"
| jv_array: "json_elems s \<Longrightarrow> json_value (cs ''['' @ s @ cs '']'')"
| jv_empty_object: "json_value (cs ''{}'')"
| jv_object: "json_members s \<Longrightarrow> json_value (cs ''{'' @ s @ cs ''}'')"
| je_one: "json_value v \<Longrightarrow> json_elems v"
| je_more: "json_value v \<Longrightarrow> json_ws w \<Longrightarrow> json_elems s \<Longrightarrow> json_elems (v @ cs '','' @ w @ s)"
| jm_one: "json_string k \<Longrightarrow> json_ws w \<Longrightarrow> json_value v \<Longrightarrow> json_members (k @ cs '':'' @ w @ v)"
| jm_more: "json_string k \<Longrightarrow> json_ws w \<Longrightarrow> json_value v \<Longrightarrow> json_ws w' \<Longrightarrow> json_members s \<Longrightarrow>
    json_members (k @ cs '':'' @ w @ v @ cs '','' @ w' @ s)"

text \<open>A text that a writer puts between quotes as it is.\<close>

definition plain_text :: "bytes \<Rightarrow> bool" where
  "plain_text s \<longleftrightarrow> list_all plain_char s"

lemma plain_text_chars: "plain_text s \<Longrightarrow> json_chars s"
  unfolding plain_text_def by (induction s) (auto intro: json_chars.intros)

lemma json_string_quoted: "json_chars s \<Longrightarrow> json_string (quoted s)"
  unfolding json_string_def by blast

text \<open>
  What the server promises of the routines the writers call, for the values \<open>typed\<close> of a type:
  \<open>escape_json\<close> gives a string, a number that passes \<open>IsValidJsonNumber\<close> is one, the output of
  \<open>json\<close>, \<open>jsonb\<close> and of a cast to \<open>json\<close> is a JSON value, dates and timestamps print without quotes,
  backslashes and control characters, an array of at least one element has as many elements as its
  dimensions say and none of these is zero, and the parts of arrays and composites have their types.
\<close>

definition json_io :: "'d json_ops \<Rightarrow> (Oid \<Rightarrow> 'd \<Rightarrow> bool) \<Rightarrow> bool" where
  "json_io ops typed \<longleftrightarrow>
     (\<forall>s. json_string (escape_json ops s)) \<and>
     (\<forall>s. IsValidJsonNumber ops s \<longrightarrow> json_number s) \<and>
     (\<forall>t d. typed t d \<longrightarrow> fst (json_categorize_type ops t) = JSONTYPE_JSON \<longrightarrow>
        json_value (output_call ops (snd (json_categorize_type ops t)) d)) \<and>
     (\<forall>t d. typed t d \<longrightarrow> fst (json_categorize_type ops t) = JSONTYPE_CAST \<longrightarrow>
        json_value (cast_call ops (snd (json_categorize_type ops t)) d)) \<and>
     (\<forall>d. plain_text (EncodeSpecialDate ops d) \<and> plain_text (EncodeDateOnly ops d) \<and>
        plain_text (EncodeSpecialTimestamp ops d) \<and>
        (\<forall>tz buf. encode_timestamp ops tz d = Some buf \<longrightarrow> plain_text buf)) \<and>
     (\<forall>ts. plain_text (timestamptz_to_str ops ts)) \<and>
     (\<forall>t d et dims n elems. typed t d \<longrightarrow> fst (json_categorize_type ops t) = JSONTYPE_ARRAY \<longrightarrow>
        array_view ops d = (et, dims, n, elems) \<longrightarrow>
        (\<forall>v. Some v \<in> set elems \<longrightarrow> typed et v) \<and>
        (n > 0 \<longrightarrow> dims \<noteq> [] \<and> 0 \<notin> set dims \<and> length elems = prod_list dims)) \<and>
     (\<forall>t d att v. typed t d \<longrightarrow> fst (json_categorize_type ops t) = JSONTYPE_COMPOSITE \<longrightarrow>
        (att, Some v) \<in> set (composite_view ops d) \<longrightarrow> typed (atttypid att) v)"

section \<open>The messages are JSON\<close>

text \<open>
  A result that is what it should be, or one of the two errors a well-typed value can cause.
\<close>

definition json_ok :: "('a \<Rightarrow> bool) \<Rightarrow> json_error + 'a \<Rightarrow> bool" where
  "json_ok P r = (case r of Inl e \<Rightarrow> e \<in> {Stack_depth_exceeded, Timestamp_out_of_range} | Inr b \<Rightarrow> P b)"

lemma json_ok_Inr [simp]: "json_ok P (Inr b) = P b"
  by (simp add: json_ok_def)

lemma json_ok_Inl [simp]: "json_ok P (Inl e) = (e \<in> {Stack_depth_exceeded, Timestamp_out_of_range})"
  by (simp add: json_ok_def)

lemma json_ok_bind: "json_ok P r \<Longrightarrow> (\<And>b. P b \<Longrightarrow> json_ok Q (f b)) \<Longrightarrow> json_ok Q (res_bind r f)"
  by (cases r) (auto simp: res_bind_def)

lemma json_ok_mono: "json_ok P r \<Longrightarrow> (\<And>b. P b \<Longrightarrow> Q b) \<Longrightarrow> json_ok Q r"
  by (cases r) auto

text \<open>The items after the first, each behind a separator.\<close>

definition listed :: "(bytes \<Rightarrow> bool) \<Rightarrow> bytes \<Rightarrow> bool \<Rightarrow> bytes \<Rightarrow> bool" where
  "listed P sep first b \<longleftrightarrow> (if first then P b else \<exists>r. b = sep @ r \<and> P r)"

lemma json_sep_ws: "\<exists>w. json_sep u = cs '','' @ w \<and> json_ws w"
  by (auto simp: json_sep_def json_ws_def cs_def ch_def intro: exI [of _ "[10, 32]"])

lemma dim_loop_ok:
  assumes f: "\<And>vs. set vs \<subseteq> V \<Longrightarrow> k \<le> length vs \<Longrightarrow>
      json_ok (\<lambda>(b, vs'). json_value b \<and> vs' = drop k vs) (f vs)"
    and sep: "sep = cs '','' @ w" "json_ws w"
  shows "set vs \<subseteq> V \<Longrightarrow> n * k \<le> length vs \<Longrightarrow>
    json_ok (\<lambda>(b, vs'). vs' = drop (n * k) vs \<and> (if n = 0 then b = [] else listed json_elems sep first b))
      (dim_loop n first sep f vs)"
proof (induction n arbitrary: vs first)
  case (Suc n)
  have sub: "set (drop k vs) \<subseteq> V" using Suc.prems(1) set_drop_subset by fastforce
  have "n * k \<le> length (drop k vs)" using Suc.prems(2) by simp
  note IH = Suc.IH [OF sub this, of False]
  have here: "json_ok (\<lambda>(b, vs'). json_value b \<and> vs' = drop k vs) (f vs)"
    by (rule f) (use Suc.prems in simp_all)
  show ?case unfolding dim_loop.simps
  proof (rule json_ok_bind [OF here], clarify)
    fix item vs' assume item: "json_value item"
    show "json_ok (\<lambda>(b, vs''). vs'' = drop (Suc n * k) vs \<and>
             (if Suc n = 0 then b = [] else listed json_elems sep first b))
           (res_bind (dim_loop n False sep f (drop k vs)) (\<lambda>(rest, vs).
             Inr ((if first then [] else sep) @ item @ rest, vs)))"
      by (rule json_ok_bind [OF IH])
        (use item sep in \<open>auto simp: listed_def add.commute intro: json_value_json_elems_json_members.intros split: if_splits\<close>)
  qed
qed simp

lemma array_dim_ok:
  assumes elem: "\<And>v. v \<in> V \<Longrightarrow> json_ok json_value (elem v)"
  shows "set vs \<subseteq> V \<Longrightarrow> dims \<noteq> [] \<Longrightarrow> 0 \<notin> set dims \<Longrightarrow> prod_list dims \<le> length vs \<Longrightarrow>
    json_ok (\<lambda>(b, vs'). json_value b \<and> vs' = drop (prod_list dims) vs)
      (array_dim_to_json elem dims u vs)"
proof (induction dims arbitrary: vs u)
  case (Cons n dims)
  let ?f = "if dims = [] then next_element elem else array_dim_to_json elem dims False"
  obtain w where w: "json_sep u = cs '','' @ w" "json_ws w" using json_sep_ws by blast
  have f: "json_ok (\<lambda>(b, vs'). json_value b \<and> vs' = drop (prod_list dims) vs) (?f vs)"
    if "set vs \<subseteq> V" "prod_list dims \<le> length vs" for vs
  proof (cases "dims = []")
    case True
    with that obtain v r where "vs = v # r" "v \<in> V" by (cases vs) auto
    then show ?thesis using True elem [of v]
      by (auto simp: next_element_def elim!: json_ok_bind)
  next
    case False then show ?thesis using that Cons by simp
  qed
  have "json_ok (\<lambda>(b, vs'). vs' = drop (n * prod_list dims) vs \<and>
      (if n = 0 then b = [] else listed json_elems (json_sep u) True b))
      (dim_loop n True (json_sep u) ?f vs)"
    by (rule dim_loop_ok [OF f w]) (use Cons.prems in auto)
  then show ?case unfolding array_dim_to_json.simps
    by (rule json_ok_bind)
      (use Cons.prems in \<open>auto simp: listed_def intro: json_value_json_elems_json_members.intros split: if_splits\<close>)
qed simp

lemma json_columns_ok:
  assumes val: "\<And>att v. (att, v) \<in> set cols \<Longrightarrow>
      json_ok json_value (val v (if v = None then (JSONTYPE_NULL, InvalidOid) else json_categorize_type ops (atttypid att)))"
    and esc: "\<And>s. json_string (escape_json ops s)"
    and sep: "sep = cs '','' @ w" "json_ws w"
  shows "json_ok (\<lambda>b. if cols = [] then b = [] else listed json_members sep (\<not> needsep) b)
    (json_columns ops val sep needsep cols)"
  using val
proof (induction cols arbitrary: needsep)
  case (Cons col cols)
  obtain att v where col: "col = (att, v)" by fastforce
  have IH: "json_ok (\<lambda>b. if cols = [] then b = [] else listed json_members sep False b)
      (json_columns ops val sep True cols)"
    using Cons.IH [OF Cons.prems [OF list.set_intros(2)], of True] by (simp add: if_bool_eq_conj)
  have ws: "json_ws []" by (simp add: json_ws_def)
  have one: "json_members (escape_json ops s @ cs '':'' @ b)" if "json_value b" for s b
    using jm_one [OF esc ws that] by simp
  have members: "json_members (escape_json ops s @ cs '':'' @ b @ cs '','' @ w @ r)"
    if "json_value b" "json_members r" for s b r
    using jm_more [OF esc ws that(1) sep(2) that(2)] by simp
  show ?case unfolding json_columns.simps col prod.case Let_def
    by (rule json_ok_bind [OF Cons.prems [unfolded col, OF list.set_intros(1)]], rule json_ok_bind [OF IH])
      (use one members sep(1) in \<open>auto simp: listed_def split: if_splits\<close>)
qed simp


lemma json_ioD:
  assumes "json_io ops typed"
  shows "json_string (escape_json ops s)"
    and "IsValidJsonNumber ops s \<Longrightarrow> json_number s"
    and "typed t d \<Longrightarrow> json_categorize_type ops t = (JSONTYPE_JSON, f) \<Longrightarrow> json_value (output_call ops f d)"
    and "typed t d \<Longrightarrow> json_categorize_type ops t = (JSONTYPE_CAST, f) \<Longrightarrow> json_value (cast_call ops f d)"
    and "plain_text (EncodeSpecialDate ops d)" "plain_text (EncodeDateOnly ops d)"
    and "plain_text (EncodeSpecialTimestamp ops d)"
    and "encode_timestamp ops tz d = Some buf \<Longrightarrow> plain_text buf"
    and "plain_text (timestamptz_to_str ops ts)"
proof -
  note io = assms [unfolded json_io_def]
  show "json_string (escape_json ops s)" "IsValidJsonNumber ops s \<Longrightarrow> json_number s"
    "plain_text (EncodeSpecialDate ops d)" "plain_text (EncodeDateOnly ops d)"
    "plain_text (EncodeSpecialTimestamp ops d)" "plain_text (timestamptz_to_str ops ts)"
    using io by simp_all
  show "encode_timestamp ops tz d = Some buf \<Longrightarrow> plain_text buf" using io by meson
  show "json_value (output_call ops f d)" if "typed t d" "json_categorize_type ops t = (JSONTYPE_JSON, f)"
    using io that by (metis fst_conv snd_conv)
  show "json_value (cast_call ops f d)" if "typed t d" "json_categorize_type ops t = (JSONTYPE_CAST, f)"
    using io that by (metis fst_conv snd_conv)
qed

lemma json_io_array:
  assumes "json_io ops typed" "typed t d" "fst (json_categorize_type ops t) = JSONTYPE_ARRAY"
    "array_view ops d = (et, dims, n, elems)"
  shows "Some v \<in> set elems \<Longrightarrow> typed et v"
    and "n > 0 \<Longrightarrow> dims \<noteq> [] \<and> 0 \<notin> set dims \<and> length elems = prod_list dims"
  using assms unfolding json_io_def by blast+

lemma json_io_composite:
  assumes "json_io ops typed" "typed t d" "fst (json_categorize_type ops t) = JSONTYPE_COMPOSITE"
    "(att, Some v) \<in> set (composite_view ops d)"
  shows "typed (atttypid att) v"
  using assms unfolding json_io_def by blast

lemma categorize_not_null: "fst (json_categorize_type ops t) \<noteq> JSONTYPE_NULL"
  by (auto simp: json_categorize_type_def Let_def split: prod.splits)

lemma scalar_ok:
  assumes io: "json_io ops typed" and typed: "typed t d"
    and cat: "json_categorize_type ops t = (c, f)" "c \<noteq> JSONTYPE_ARRAY" "c \<noteq> JSONTYPE_COMPOSITE"
  shows "json_ok json_value (scalar_to_json ops d c f False)"
proof -
  note D = json_ioD [OF io]
  have q: "json_value (quoted s)" if "plain_text s" for s
    by (intro jv_string json_string_quoted plain_text_chars that)
  have e: "json_value (escape_json ops s)" for s by (rule jv_string [OF D(1)])
  show ?thesis
    using cat D(3, 4) [OF typed] q [OF D(5)] q [OF D(6)] q [OF D(7)]
    by (cases c) (auto simp: scalar_to_json_def Let_def e jv_true jv_false
        intro: jv_number D(2) q D(8) split: option.splits)
qed

lemma datum_to_json_ok:
  assumes io: "json_io ops typed"
  shows "(\<And>d. v = Some d \<Longrightarrow> typed t d) \<Longrightarrow>
    json_ok json_value (datum_to_json depth ops False v
      (if v = None then (JSONTYPE_NULL, InvalidOid) else json_categorize_type ops t))"
proof (induction depth arbitrary: v t)
  case (Suc depth)
  let ?val = "datum_to_json depth ops False"
  have IH: "json_ok json_value (?val v (json_categorize_type ops t'))"
    if "\<And>d. v = Some d \<Longrightarrow> typed t' d" for v t'
    using Suc.IH [of v t'] that jv_null by (cases v; cases depth) auto
  show ?case
  proof (cases v)
    case None then show ?thesis by (simp add: jv_null)
  next
    case (Some d)
    with Suc.prems have typed: "typed t d" by simp
    obtain c f where cat: "json_categorize_type ops t = (c, f)" by fastforce
    consider "c = JSONTYPE_ARRAY" | "c = JSONTYPE_COMPOSITE" | "c \<noteq> JSONTYPE_ARRAY" "c \<noteq> JSONTYPE_COMPOSITE"
      by blast
    then show ?thesis
    proof cases
      case 1
      obtain et dims n elems where view: "array_view ops d = (et, dims, n, elems)" by (cases "array_view ops d") auto
      note arr = json_io_array [OF io typed _ view]
      have elem: "json_ok json_value (?val v (json_categorize_type ops et))" if "v \<in> set elems" for v
        by (rule IH) (use that arr(1) cat 1 in auto)
      have "json_ok (\<lambda>(b, vs'). json_value b \<and> vs' = drop (prod_list dims) elems)
          (array_dim_to_json (\<lambda>v. ?val v (json_categorize_type ops et)) dims False elems)" if "n > 0"
        by (rule array_dim_ok [of "set elems"]) (use elem arr(2) cat 1 that in auto)
      then show ?thesis using Some cat 1
        by (auto simp: array_to_json_internal_def view Let_def jv_empty_array elim!: json_ok_bind)
    next
      case 2
      have col: "json_ok json_value (?val v (if v = None then (JSONTYPE_NULL, InvalidOid)
            else json_categorize_type ops (atttypid att)))"
        if "(att, v) \<in> set (filter (\<lambda>(att, _). \<not> (attisdropped att \<or> attgenerated att)) (composite_view ops d))"
        for att v
        by (rule Suc.IH) (use that json_io_composite [OF io typed] cat 2 in auto)
      have "json_ok (\<lambda>b. if filter (\<lambda>(att, _). \<not> (attisdropped att \<or> attgenerated att)) (composite_view ops d) = []
           then b = [] else listed json_members (json_sep False) (\<not> False) b)
         (json_columns ops ?val (json_sep False) False
            (filter (\<lambda>(att, _). \<not> (attisdropped att \<or> attgenerated att)) (composite_view ops d)))"
        by (rule json_columns_ok [where w = "[]"], erule col)
          (simp_all add: json_ioD(1) [OF io] json_sep_def json_ws_def)
      then show ?thesis using Some cat 2 jv_empty_object
        by (auto simp: spock_composite_to_json_def listed_def cs_def
            intro: jv_object [unfolded cs_def, simplified] elim!: json_ok_bind split: if_splits)
    next
      case 3
      then show ?thesis using Some cat scalar_ok [OF io typed cat] by simp
    qed
  qed
qed simp

text \<open>What may follow a field of an object: nothing, or a comma and more fields.\<close>

definition json_tail :: "bytes \<Rightarrow> bool" where
  "json_tail t \<longleftrightarrow> t = [] \<or> (\<exists>w m. t = cs '','' @ w @ m \<and> json_ws w \<and> json_members m)"

lemma json_tail_nil [simp]: "json_tail []"
  by (simp add: json_tail_def)

lemma json_field_members:
  assumes "json_string k" "json_ws w" "json_value v" "json_tail t"
  shows "json_members (k @ cs '':'' @ w @ v @ t)"
  using assms(4) jm_one [OF assms(1-3)] jm_more [OF assms(1-3)] by (auto simp: json_tail_def)

lemma json_tail_members: "json_ws w \<Longrightarrow> json_members m \<Longrightarrow> json_tail (cs '','' @ w @ m)"
  unfolding json_tail_def by blast

lemma json_ws_simps [simp]: "json_ws []" "json_ws (cs '' '')"
  by (simp_all add: json_ws_def cs_def ch_def)

lemma plain_text_cs: "list_all (\<lambda>c. plain_char (ch c)) s \<Longrightarrow> plain_text (cs s)"
  by (simp add: plain_text_def cs_def list.pred_map comp_def)

lemma plain_string: "plain_text s \<Longrightarrow> json_string (quoted s)"
  by (intro json_string_quoted plain_text_chars)

lemma json_field_tail:
  assumes "list_all (\<lambda>c. plain_char (ch c)) key" "plain_text val" "json_tail t"
  shows "json_tail (json_field key val @ t)"
proof -
  have "json_members (quoted (cs key) @ cs '':'' @ [] @ quoted val @ t)"
    by (intro json_field_members plain_string plain_text_cs jv_string assms json_ws_simps)
  from json_tail_members [OF json_ws_simps(2) this] show ?thesis
    by (simp add: json_field_def cs_def)
qed

lemma plain_word:
  assumes "48 \<le> m" "m < 92"
  shows "plain_char (word_of_nat m)"
proof -
  have "unat (word_of_nat m :: byte) = m" using assms by (simp add: unat_of_nat)
  then show ?thesis using assms by (auto simp: plain_char_def word_le_nat_alt word_unat_eq_iff)
qed

lemma show_nat_plain: "plain_text (show_nat n)"
proof (induction n rule: show_nat.induct)
  case (1 n)
  have digit: "plain_char (word_of_nat (48 + k))" if "k < 10" for k
    by (rule plain_word) (use that in simp_all)
  show ?case
  proof (cases "n < 10")
    case True then show ?thesis by (subst show_nat.simps) (simp add: plain_text_def digit [simplified])
  next
    case False then show ?thesis using 1
      by (subst show_nat.simps) (simp add: plain_text_def digit [of "n mod 10", simplified])
  qed
qed

lemma hex_digit_plain: "k < 16 \<Longrightarrow> plain_char (hex_digit k)"
  using plain_word [of "48 + k"] plain_word [of "55 + k"] by (cases "k < 10") (simp_all add: hex_digit_def)

lemma show_hex_plain: "plain_text (show_hex n)"
proof (induction n rule: show_hex.induct)
  case (1 n)
  show ?case
  proof (cases "n < 16")
    case True then show ?thesis by (subst show_hex.simps) (simp add: plain_text_def hex_digit_plain)
  next
    case False then show ?thesis using 1 by (subst show_hex.simps) (simp add: plain_text_def hex_digit_plain)
  qed
qed

lemma show_lsn_plain: "plain_text (show_lsn lsn)"
  using show_hex_plain by (simp add: show_lsn_def plain_text_def cs_def ch_def plain_char_def)

lemma json_write_tuple_ok:
  assumes io: "json_io ops typed"
    and typed: "\<And>att d. (att, Some d) \<in> set (zip (rd_att rel) tuple) \<Longrightarrow> typed (atttypid att) d"
  shows "json_ok json_value (json_write_tuple depth ops rel tuple att_list)"
proof -
  let ?cols = "filter (json_column_sent ops att_list) (zip (rd_att rel) tuple)"
  have col: "json_ok json_value (datum_to_json depth ops False v (if v = None then (JSONTYPE_NULL, InvalidOid)
      else json_categorize_type ops (atttypid att)))" if "(att, v) \<in> set ?cols" for att v
    by (rule datum_to_json_ok [OF io]) (use that typed in auto)
  have "json_ok (\<lambda>b. if ?cols = [] then b = [] else listed json_members (cs '','') (\<not> False) b)
      (json_columns ops (datum_to_json depth ops False) (cs '','') False ?cols)"
    by (rule json_columns_ok [where w = "[]"], erule col) (simp_all add: json_ioD(1) [OF io])
  then show ?thesis unfolding json_write_tuple_def
    by (rule json_ok_bind)
      (use jv_empty_object jv_object in \<open>auto simp: listed_def cs_def split: if_splits\<close>)
qed


lemma json_change_ok:
  assumes io: "json_io ops typed"
    and names: "plain_text (namespace_text rel)" "plain_text (rd_relname rel)" "plain_text change"
    and typed: "\<And>t att d. oldtuple = Some t \<or> newtuple = Some t \<Longrightarrow>
      (att, Some d) \<in> set (zip (rd_att rel) t) \<Longrightarrow> typed (atttypid att) d"
  shows "json_ok json_value (spock_json_write_change depth ops change rel oldtuple newtuple att_list)"
proof -
  have part: "json_ok (\<lambda>b. \<forall>t. json_tail t \<longrightarrow> json_tail (b @ t))
      (json_optional (cs ('',\"'' @ key @ ''\":'')) (\<lambda>t. json_write_tuple depth ops rel t att_list) x)"
    if "list_all (\<lambda>c. plain_char (ch c)) key" "x = oldtuple \<or> x = newtuple" for key x
  proof (cases x)
    case (Some t)
    have "json_ok json_value (json_write_tuple depth ops rel t att_list)"
      by (rule json_write_tuple_ok [OF io]) (use typed Some that(2) in auto)
    then show ?thesis unfolding json_optional_def Some option.case
    proof (rule json_ok_bind)
      fix b assume b: "json_value b"
      have "json_tail (cs '','' @ [] @ quoted (cs key) @ cs '':'' @ [] @ b @ r)" if "json_tail r" for r
        by (intro json_tail_members json_field_members plain_string plain_text_cs b that json_ws_simps)
          (use \<open>list_all _ key\<close> in simp)
      then show "json_ok (\<lambda>b. \<forall>t. json_tail t \<longrightarrow> json_tail (b @ t)) (Inr (cs ('',\"'' @ key @ ''\":'') @ b))"
        by (simp add: cs_def quoted_def)
    qed
  qed (simp add: json_optional_def)
  have whole: "json_value (cs ''{'' @ cs ''\"action\":\"'' @ change @ cs ''\",\"relation\":[\"'' @ namespace_text rel @
      cs ''\",\"'' @ rd_relname rel @ cs ''\"]'' @ t @ cs ''}'')" if t: "json_tail t" for t
  proof -
    have "json_value (cs ''['' @ (quoted (namespace_text rel) @ cs '','' @ [] @ quoted (rd_relname rel)) @ cs '']'')"
      by (intro jv_array je_more je_one jv_string plain_string names json_ws_simps)
    then have "json_members (quoted (cs ''relation'') @ cs '':'' @ [] @
        (cs ''['' @ (quoted (namespace_text rel) @ cs '','' @ [] @ quoted (rd_relname rel)) @ cs '']'') @ t)"
      by (intro json_field_members plain_string plain_text_cs t json_ws_simps) (simp_all add: plain_char_def ch_def)
    from json_tail_members [OF json_ws_simps(1) this]
    have "json_members (quoted (cs ''action'') @ cs '':'' @ [] @ quoted change @ cs '','' @ [] @ quoted (cs ''relation'') @
        cs '':'' @ [] @ (cs ''['' @ (quoted (namespace_text rel) @ cs '','' @ [] @ quoted (rd_relname rel)) @ cs '']'') @ t)"
      by (intro json_field_members plain_string plain_text_cs jv_string names json_ws_simps)
        (simp_all add: plain_char_def ch_def)
    from jv_object [OF this] show ?thesis by (simp add: cs_def quoted_def)
  qed
  show ?thesis unfolding spock_json_write_change_def
  proof (rule json_ok_bind [OF part [of "''oldtuple''", simplified]], goal_cases)
    case (3 old)
    show ?case
    proof (rule json_ok_bind [OF part [of "''newtuple''", simplified]], goal_cases)
      case (3 new)
      have "json_tail (old @ new)" using 3 \<open>\<forall>t. json_tail t \<longrightarrow> json_tail (old @ t)\<close> by (metis append_Nil2 json_tail_nil)
      then show ?case using whole [of "old @ new"] by simp
    qed (simp_all add: plain_char_def ch_def)
  qed (simp_all add: plain_char_def ch_def)
qed


lemma json_object_of_tail:
  assumes "json_string k" "json_value v" "json_tail t"
  shows "json_value (cs ''{'' @ k @ cs '':'' @ v @ t @ cs ''}'')"
  using jv_object [OF json_field_members [OF assms(1) json_ws_simps(1) assms(2, 3)]] by simp

lemma json_begin_ok:
  assumes "json_io ops typed"
  shows "json_value (spock_json_write_begin ops no_txinfo txn)"
proof -
  have flag: "plain_text (if b then cs ''t'' else cs ''f'')" for b
    by (simp add: plain_text_def cs_def ch_def plain_char_def)
  have opt: "json_tail ((if c then json_field key v else []) @ t)"
    if "list_all (\<lambda>c. plain_char (ch c)) key" "plain_text v" "json_tail t" for c key v t
    using json_field_tail [OF that] that(3) by simp
  let ?time = "(if txn_commit_time txn \<noteq> 0
      then json_field ''commit_time'' (timestamptz_to_str ops (txn_commit_time txn)) else [])"
  have time: "json_tail ?time" using opt [of "''commit_time''" _ "[]"] json_ioD(9) [OF assms]
    by (simp add: plain_char_def ch_def)
  have "json_tail (json_field ''xid'' (show_nat (unat (txn_xid txn))) @
      json_field ''first_lsn'' (show_lsn (txn_first_lsn txn)) @
      json_field ''origin_lsn'' (show_lsn (txn_origin_lsn txn)) @ ?time)"
    by (intro json_field_tail show_nat_plain show_lsn_plain time) (simp_all add: plain_char_def ch_def)
  then have "json_tail (if no_txinfo then [] else json_field ''xid'' (show_nat (unat (txn_xid txn))) @
      json_field ''first_lsn'' (show_lsn (txn_first_lsn txn)) @
      json_field ''origin_lsn'' (show_lsn (txn_origin_lsn txn)) @ ?time)" (is "json_tail ?info")
    by simp
  then have "json_tail (json_field ''has_catalog_changes'' (if txn_has_catalog_changes txn then cs ''t'' else cs ''f'') @
      (if txn_origin_id txn \<noteq> InvalidRepOriginId
       then json_field ''origin_id'' (show_nat (unat (txn_origin_id txn))) else []) @ ?info)" (is "json_tail ?t")
    by (intro json_field_tail opt show_nat_plain flag) (simp_all add: plain_char_def ch_def)
  then have "json_value (cs ''{'' @ quoted (cs ''action'') @ cs '':'' @ quoted (cs ''B'') @ ?t @ cs ''}'')"
    by (intro json_object_of_tail plain_string plain_text_cs jv_string) (simp_all add: plain_char_def ch_def)
  then show ?thesis by (simp only: spock_json_write_begin_def quoted_def cs_def append_assoc list.map append.simps)
qed

lemma json_commit_ok: "json_value (spock_json_write_commit no_txinfo txn)"
proof -
  have "json_tail (json_field ''final_lsn'' (show_lsn (txn_final_lsn txn)) @
      json_field ''end_lsn'' (show_lsn (txn_end_lsn txn)) @ [])"
    by (intro json_field_tail show_lsn_plain json_tail_nil) (simp_all add: plain_char_def ch_def)
  then have "json_tail (if no_txinfo then [] else json_field ''final_lsn'' (show_lsn (txn_final_lsn txn)) @
      json_field ''end_lsn'' (show_lsn (txn_end_lsn txn)))" (is "json_tail ?t") by simp
  then have "json_value (cs ''{'' @ quoted (cs ''action'') @ cs '':'' @ quoted (cs ''C'') @ ?t @ cs ''}'')"
    by (intro json_object_of_tail plain_string plain_text_cs jv_string) (simp_all add: plain_char_def ch_def)
  then show ?thesis by (simp only: spock_json_write_commit_def quoted_def cs_def append_assoc list.map append.simps)
qed

lemma json_params_listed:
  assumes "\<And>s. json_string (escape_json ops s)"
  shows "if msg = [] then json_params ops first msg = [] else listed json_members (cs '','') first (json_params ops first msg)"
proof (induction msg arbitrary: first)
  case (Cons p msg)
  let ?rest = "json_params ops False msg"
  have "json_tail ?rest"
    using Cons.IH [of False] json_tail_members [OF json_ws_simps(1)]
    by (cases "msg = []") (auto simp: listed_def)
  then have "json_members (escape_json ops (fst p) @ cs '':'' @ [] @ escape_json ops (snd p) @ ?rest)"
    by (intro json_field_members assms json_ws_simps jv_string)
  then show ?case by (auto simp: listed_def)
qed simp

lemma json_startup_ok:
  assumes "json_io ops typed"
  shows "json_value (json_write_startup_message ops msg)"
proof -
  have "json_value (cs ''{'' @ json_params ops True msg @ cs ''}'')"
    using json_params_listed [OF json_ioD(1) [OF assms], of msg True] jv_object jv_empty_object
    by (auto simp: listed_def cs_def split: if_splits)
  then have "json_members (quoted (cs ''params'') @ cs '':'' @ cs '' '' @ (cs ''{'' @ json_params ops True msg @ cs ''}'') @ [])"
    by (intro json_field_members plain_string plain_text_cs json_ws_simps json_tail_nil) (simp_all add: plain_char_def ch_def)
  from json_tail_members [OF json_ws_simps(2) this]
  have "json_value (cs ''{'' @ quoted (cs ''action'') @ cs '':'' @ quoted (cs ''S'') @
      (cs '','' @ cs '' '' @ quoted (cs ''params'') @ cs '':'' @ cs '' '' @ (cs ''{'' @ json_params ops True msg @ cs ''}'') @ []) @
      cs ''}'')"
    by (intro json_object_of_tail plain_string plain_text_cs jv_string) (simp_all add: plain_char_def ch_def)
  then show ?thesis
    by (simp only: json_write_startup_message_def quoted_def cs_def append_assoc list.map append.simps)
qed


text \<open>
  A server whose values are lists of texts: an integer is a list of one, an array of integers any
  list.
\<close>

definition demo_json_ops :: "bytes list json_ops" where
  "demo_json_ops = \<lparr>type_lookup = \<lambda>_. None, is_external_ondisk = \<lambda>_. False, store_att_byval = \<lambda>_ _. [],
     byref_octets = \<lambda>_ _. [], varlena_octets = \<lambda>_. [], send_call = \<lambda>_ _. [], output_call = \<lambda>_ d. concat d,
     fetch_att = \<lambda>_ s. [s], pointer_datum = \<lambda>s. [s], binary_input_info = \<lambda>_. (0, 0),
     receive_call = \<lambda>_ _ _ _. None, input_info = \<lambda>_. (0, 0), input_call = \<lambda>_ _ _ _. None,
     escape_json = \<lambda>s. quoted (filter plain_char s), IsValidJsonNumber = json_int, getBaseType = id,
     type_output = \<lambda>_. 43, get_element_type = \<lambda>t. if t = 1007 then 23 else 0,
     type_is_rowtype = \<lambda>_. False, find_json_cast = \<lambda>_. (False, 0), DatumGetBool = \<lambda>_. True,
     DATE_NOT_FINITE = \<lambda>_. False, EncodeSpecialDate = \<lambda>_. [], EncodeDateOnly = \<lambda>_. [],
     TIMESTAMP_NOT_FINITE = \<lambda>_. False, EncodeSpecialTimestamp = \<lambda>_. [], encode_timestamp = \<lambda>_ _. None,
     cast_call = \<lambda>_ _. [],
     array_view = \<lambda>d. (23, [length d], int (length d), map (\<lambda>s. Some [s]) d),
     composite_view = \<lambda>_. [], timestamptz_to_str = \<lambda>_. []\<rparr>"

definition demo_json_typed :: "Oid \<Rightarrow> bytes list \<Rightarrow> bool" where
  "demo_json_typed t d \<longleftrightarrow> t = 23 \<and> length d = 1 \<or> t = 1007"

definition demo_json_att :: "string \<Rightarrow> Oid \<Rightarrow> int \<Rightarrow> pg_attribute" where
  "demo_json_att name typ n = \<lparr>attname = cs name, atttypid = typ, atttypmod = - 1, attlen = - 1,
     attbyval = False, attnum = n, attisdropped = False, attgenerated = False\<rparr>"

definition demo_json_rel :: Relation where
  "demo_json_rel = \<lparr>rd_id = 20000, rd_nspname = Some (cs ''public''), rd_relname = cs ''t'',
     rd_att = [demo_json_att ''id'' 23 1, demo_json_att ''xs'' 1007 2], rd_idattrs = [1],
     rd_replidindex = 0, rd_triggers = []\<rparr>"

lemma demo_json_io: "json_io demo_json_ops demo_json_typed"
proof -
  have str: "json_string (escape_json demo_json_ops s)" for s
    unfolding demo_json_ops_def by (simp add: plain_string plain_text_def list_all_iff)
  have num: "json_int s \<Longrightarrow> json_number s" for s
    unfolding json_number_def by (rule exI [of _ "[]"], rule exI [of _ s], rule exI [of _ "[]"], rule exI [of _ "[]"])
      (simp add: json_frac_def json_exp_def)
  have cat: "json_categorize_type demo_json_ops 23 = (JSONTYPE_NUMERIC, 43)"
    "json_categorize_type demo_json_ops 1007 = (JSONTYPE_ARRAY, 0)"
    by (simp_all add: json_categorize_type_def demo_json_ops_def type_oids)
  show ?thesis unfolding json_io_def
    using str num cat
    by (auto simp: demo_json_typed_def) (auto simp: demo_json_ops_def demo_json_typed_def plain_text_def)
qed


end
