(* ===== verification/Spock_Output_Config.thy ===== *)
theory Spock_Output_Config
  imports Spock_Node Spock_Proto_Json
begin

text \<open>
  The options of the output plugin (\<open>src/spock_output_config.c\<close>), the options a subscriber sends with
  \<open>START_REPLICATION\<close> (\<open>spock_start_replication\<close> in \<open>src/spock.c\<close>), the startup message the publisher
  answers with, and what the subscriber takes from it (\<open>handle_startup\<close> in \<open>src/spock_apply.c\<close>).
\<close>

section \<open>Data\<close>

definition SPOCK_VERSION :: bytes where "SPOCK_VERSION = cs ''6.0.0''"
definition SPOCK_VERSION_NUM :: uint32 where "SPOCK_VERSION_NUM = 60000"
definition SPOCK_MIN_VERSION_NUM_FOR_MULTI_PROTO :: uint32 where
  "SPOCK_MIN_VERSION_NUM_FOR_MULTI_PROTO = 50000"
definition SPOCK_STARTUP_PARAM_FORMAT_FLAT :: uint32 where "SPOCK_STARTUP_PARAM_FORMAT_FLAT = 1"
definition REPLICATION_ORIGIN_ALL :: bytes where "REPLICATION_ORIGIN_ALL = cs ''all''"

datatype SpockProtoType = SpockProtoNative | SpockProtoJson

text \<open>An option: its name, and its value unless that is NULL.\<close>

record DefElem =
  defname :: bytes
  de_arg :: "bytes option"

text \<open>
  Every error of the options and of the callbacks.  \<open>List_too_short\<close> marks \<open>lsecond\<close> of a list of one
  element, \<open>Null_call\<close> a call through a NULL function pointer and \<open>Null_tuple\<close> a NULL tuple, where C
  gives no meaning;
  \<open>Null_group\<close> is a write through the NULL group of \<open>spock_output_join_slot_group\<close>.
\<close>

datatype output_error =
    Param_null bytes
  | Missing_param bytes
  | Bool_unparsed bytes bytes
  | Integer_unparsed bytes bytes
  | Value_out_of_range bytes bytes
  | Params_format_unsupported uint32
  | Origins_unparsed bytes
  | Origin_not_allowed bytes
  | Sets_unparsed bytes
  | Only_table_unparsed bytes
  | List_too_short
  | Catalog catalog_error
  | Client_min_too_new uint32
  | Client_max_too_old uint32
  | Cannot_negotiate
  | Proto_4_unsupported uint32
  | Protocol_unsupported bytes
  | Encoding_unrecognised bytes
  | Client_encoding_mismatch
  | Server_encoding_mismatch
  | Local_node node_error
  | Already_in_group
  | Null_group
  | Null_call
  | Null_tuple
  | Native proto_error
  | Json json_error
  | Queue_tuple queue_error
  | Set_deleted bytes
  | Unhandled_change_type
  | Spill_unlink_failed bytes

text \<open>
  The server the plugin runs in; the \<open>server_\<close> values are settings of the build.
\<close>

record output_server =
  parse_bool :: "bytes \<Rightarrow> bool option"
  pg_strcasecmp :: "bytes \<Rightarrow> bytes \<Rightarrow> int"
  SplitIdentifierString :: "bytes \<Rightarrow> byte \<Rightarrow> bytes list option"
  pg_char_to_encoding :: "bytes \<Rightarrow> int"
  pg_encoding_to_char :: "int \<Rightarrow> bytes"
  pg_get_client_encoding :: int
  GetDatabaseEncoding :: int
  GetDatabaseEncodingName :: bytes
  PG_VERSION :: bytes
  PG_VERSION_NUM :: uint32
  CATALOG_VERSION_NO :: uint32
  MyProcPid :: uint32
  sizeof_Datum :: uint32
  sizeof_int :: uint32
  sizeof_long :: uint32
  MAXIMUM_ALIGNOF :: uint32
  server_bigendian :: bool
  server_float4_byval :: bool
  server_float8_byval :: bool
  server_integer_datetimes :: bool

record SpockOutputData = SpockOutputOpts +
  od_api :: "SpockProtoType option"
  od_local_node_id :: Oid
  forward_changeset_origins :: bool
  field_datum_encoding :: int
  client_pg_version :: uint32
  client_max_proto_version :: uint32
  client_min_proto_version :: uint32
  client_expected_encoding :: "bytes option"
  client_protocol_format :: "bytes option"
  client_binary_basetypes_major_version :: uint32
  client_want_internal_basetypes_set :: bool
  client_want_internal_basetypes :: bool
  client_want_binary_basetypes_set :: bool
  client_want_binary_basetypes :: bool
  client_binary_bigendian_set :: bool
  client_binary_bigendian :: bool
  client_binary_sizeofdatum :: uint32
  client_binary_sizeofint :: uint32
  client_binary_sizeoflong :: uint32
  client_binary_float4byval_set :: bool
  client_binary_float4byval :: bool
  client_binary_float8byval_set :: bool
  client_binary_float8byval :: bool
  client_binary_intdatetimes_set :: bool
  client_binary_intdatetimes :: bool
  client_no_txinfo :: bool
  startup_params_format :: uint32
  od_spock_version :: "bytes option"
  spock_version_num :: uint32
  negotiated_proto_version :: uint32
  od_forward_origins :: "bytes list"
  od_replication_sets :: "SpockRepSet list"
  replicate_only_table :: "(bytes \<times> bytes) option"

text \<open>What \<open>palloc0\<close> gives.\<close>

definition zero_output_data :: SpockOutputData where
  "zero_output_data = \<lparr>allow_internal_basetypes = False, allow_binary_basetypes = False,
     od_api = None, od_local_node_id = 0, forward_changeset_origins = False,
     field_datum_encoding = 0, client_pg_version = 0, client_max_proto_version = 0,
     client_min_proto_version = 0, client_expected_encoding = None, client_protocol_format = None,
     client_binary_basetypes_major_version = 0, client_want_internal_basetypes_set = False,
     client_want_internal_basetypes = False, client_want_binary_basetypes_set = False,
     client_want_binary_basetypes = False, client_binary_bigendian_set = False,
     client_binary_bigendian = False, client_binary_sizeofdatum = 0, client_binary_sizeofint = 0,
     client_binary_sizeoflong = 0, client_binary_float4byval_set = False,
     client_binary_float4byval = False, client_binary_float8byval_set = False,
     client_binary_float8byval = False, client_binary_intdatetimes_set = False,
     client_binary_intdatetimes = False, client_no_txinfo = False, startup_params_format = 0,
     od_spock_version = None, spock_version_num = 0, negotiated_proto_version = 0,
     od_forward_origins = [], od_replication_sets = [], replicate_only_table = None\<rparr>"

section \<open>Numbers in C strings\<close>

text \<open>
  The C library's conversion of a decimal number: white space, a sign, digits.  The result is the
  sign, the magnitude and the number of bytes taken, nothing when there is no digit.
\<close>

definition c_isspace :: "byte \<Rightarrow> bool" where
  "c_isspace c \<longleftrightarrow> c = 32 \<or> (9 \<le> c \<and> c \<le> 13)"

definition c_isdigit :: "byte \<Rightarrow> bool" where
  "c_isdigit c \<longleftrightarrow> 48 \<le> c \<and> c \<le> 57"

definition dec_value :: "bytes \<Rightarrow> nat" where
  "dec_value s = foldl (\<lambda>n c. 10 * n + (unat c - 48)) 0 s"

definition scan_sign :: "bytes \<Rightarrow> bool \<times> bytes" where
  "scan_sign s = (case s of [] \<Rightarrow> (False, s)
     | c # r \<Rightarrow> if c = 45 then (True, r) else if c = 43 then (False, r) else (False, s))"

definition scan_decimal :: "bytes \<Rightarrow> (bool \<times> nat \<times> nat) option" where
  "scan_decimal s =
     (let (neg, r) = scan_sign (dropWhile c_isspace s);
          ds = takeWhile c_isdigit r
      in if ds = [] then None else Some (neg, dec_value ds, length s - length r + length ds))"

text \<open>\<open>strtoi64\<close> saturates; the second component is the distance of \<open>endptr\<close>.\<close>

definition strtoi64 :: "bytes \<Rightarrow> int \<times> nat" where
  "strtoi64 s = (case scan_decimal s of None \<Rightarrow> (0, 0)
     | Some (neg, n, used) \<Rightarrow> (max (- (2 ^ 63)) (min (2 ^ 63 - 1) (if neg then - int n else int n)), used))"

text \<open>\<open>strtoul\<close>: the value, the distance of \<open>endptr\<close>, and whether \<open>errno\<close> was set.\<close>

definition strtoul :: "bytes \<Rightarrow> uint64 \<times> nat \<times> bool" where
  "strtoul s = (case scan_decimal s of None \<Rightarrow> (0, 0, False)
     | Some (neg, n, used) \<Rightarrow>
         if n \<ge> 2 ^ 64 then (- 1, used, True)
         else (if neg then - word_of_nat n else word_of_nat n, used, False))"

section \<open>Parsing a value\<close>

definition PG_UINT32_MAX :: int where "PG_UINT32_MAX = 2 ^ 32 - 1"
definition PG_INT32_MAX :: int where "PG_INT32_MAX = 2 ^ 31 - 1"
definition PG_INT32_MIN :: int where "PG_INT32_MIN = - (2 ^ 31)"

definition parse_param_bool :: "output_server \<Rightarrow> bytes \<Rightarrow> bytes \<Rightarrow> output_error + bool" where
  "parse_param_bool srv name str =
     (case parse_bool srv str of None \<Rightarrow> Inl (Bool_unparsed str name) | Some b \<Rightarrow> Inr b)"

text \<open>The part that the two integer parsers share, with the bounds of the type.\<close>

definition parse_param_int :: "int \<Rightarrow> int \<Rightarrow> output_server \<Rightarrow> bytes \<Rightarrow> bytes \<Rightarrow> output_error + uint32" where
  "parse_param_int lo hi srv name str =
     (case strtoi64 str of (res, used) \<Rightarrow>
        if used = 0 \<or> used \<noteq> length str then Inl (Integer_unparsed str name)
        else if res > hi \<or> res < lo then Inl (Value_out_of_range str name)
        else Inr (word_of_int res))"

definition parse_param_uint32 :: "output_server \<Rightarrow> bytes \<Rightarrow> bytes \<Rightarrow> output_error + uint32" where
  "parse_param_uint32 = parse_param_int 0 PG_UINT32_MAX"

definition parse_param_int32 :: "output_server \<Rightarrow> bytes \<Rightarrow> bytes \<Rightarrow> output_error + uint32" where
  "parse_param_int32 = parse_param_int PG_INT32_MIN PG_INT32_MAX"

definition parse_param_string :: "output_server \<Rightarrow> bytes \<Rightarrow> bytes \<Rightarrow> output_error + bytes" where
  "parse_param_string srv name str = Inr str"

text \<open>
  \<open>get_param_value\<close> with the parser of the wanted type; no caller allows a NULL.
\<close>

definition get_param_value ::
    "output_server \<Rightarrow> DefElem \<Rightarrow> (output_server \<Rightarrow> bytes \<Rightarrow> bytes \<Rightarrow> output_error + 'a) \<Rightarrow> output_error + 'a" where
  "get_param_value srv elem parse =
     (case de_arg elem of None \<Rightarrow> Inl (Param_null (defname elem))
      | Some str \<Rightarrow> parse srv (defname elem) str)"

text \<open>\<open>get_param\<close>; no caller lets the option be missing.\<close>

fun get_param ::
    "output_server \<Rightarrow> DefElem list \<Rightarrow> bytes \<Rightarrow> (output_server \<Rightarrow> bytes \<Rightarrow> bytes \<Rightarrow> output_error + 'a)
     \<Rightarrow> output_error + 'a" where
  "get_param srv [] name parse = Inl (Missing_param name)"
| "get_param srv (elem # options) name parse =
     (if pg_strcasecmp srv name (defname elem) \<noteq> 0 then get_param srv options name parse
      else get_param_value srv elem parse)"

section \<open>The options\<close>

datatype OutputPluginParamKey =
    PARAM_UNRECOGNISED | PARAM_MAX_PROTOCOL_VERSION | PARAM_MIN_PROTOCOL_VERSION
  | PARAM_PROTOCOL_FORMAT | PARAM_EXPECTED_ENCODING | PARAM_BINARY_BIGENDIAN
  | PARAM_BINARY_SIZEOF_DATUM | PARAM_BINARY_SIZEOF_INT | PARAM_BINARY_SIZEOF_LONG
  | PARAM_BINARY_FLOAT4BYVAL | PARAM_BINARY_FLOAT8BYVAL | PARAM_BINARY_INTEGER_DATETIMES
  | PARAM_BINARY_WANT_INTERNAL_BASETYPES | PARAM_BINARY_WANT_BINARY_BASETYPES
  | PARAM_BINARY_BASETYPES_MAJOR_VERSION | PARAM_SPOCK_FORWARD_ORIGINS
  | PARAM_SPOCK_REPLICATION_SET_NAMES | PARAM_SPOCK_REPLICATE_ONLY_TABLE
  | PARAM_HOOKS_SETUP_FUNCTION | PARAM_PG_VERSION | PARAM_NO_TXINFO | PARAM_STARTUP_FORMAT
  | PARAM_SPOCK_VERSION | PARAM_SPOCK_VERSION_NUM

definition param_lookup :: "(bytes \<times> OutputPluginParamKey) list" where
  "param_lookup =
     [(cs ''max_proto_version'', PARAM_MAX_PROTOCOL_VERSION),
      (cs ''min_proto_version'', PARAM_MIN_PROTOCOL_VERSION),
      (cs ''proto_format'', PARAM_PROTOCOL_FORMAT),
      (cs ''expected_encoding'', PARAM_EXPECTED_ENCODING),
      (cs ''binary.bigendian'', PARAM_BINARY_BIGENDIAN),
      (cs ''binary.sizeof_datum'', PARAM_BINARY_SIZEOF_DATUM),
      (cs ''binary.sizeof_int'', PARAM_BINARY_SIZEOF_INT),
      (cs ''binary.sizeof_long'', PARAM_BINARY_SIZEOF_LONG),
      (cs ''binary.float4_byval'', PARAM_BINARY_FLOAT4BYVAL),
      (cs ''binary.float8_byval'', PARAM_BINARY_FLOAT8BYVAL),
      (cs ''binary.integer_datetimes'', PARAM_BINARY_INTEGER_DATETIMES),
      (cs ''binary.want_internal_basetypes'', PARAM_BINARY_WANT_INTERNAL_BASETYPES),
      (cs ''binary.want_binary_basetypes'', PARAM_BINARY_WANT_BINARY_BASETYPES),
      (cs ''binary.basetypes_major_version'', PARAM_BINARY_BASETYPES_MAJOR_VERSION),
      (cs ''spock.forward_origins'', PARAM_SPOCK_FORWARD_ORIGINS),
      (cs ''spock.replication_set_names'', PARAM_SPOCK_REPLICATION_SET_NAMES),
      (cs ''spock.replicate_only_table'', PARAM_SPOCK_REPLICATE_ONLY_TABLE),
      (cs ''hooks.setup_function'', PARAM_HOOKS_SETUP_FUNCTION),
      (cs ''pg_version'', PARAM_PG_VERSION),
      (cs ''no_txinfo'', PARAM_NO_TXINFO),
      (cs ''startup_params_format'', PARAM_STARTUP_FORMAT),
      (cs ''spock_version'', PARAM_SPOCK_VERSION),
      (cs ''spock_version_num'', PARAM_SPOCK_VERSION_NUM)]"

definition get_param_key :: "bytes \<Rightarrow> OutputPluginParamKey" where
  "get_param_key param_name =
     (case map_of param_lookup param_name of None \<Rightarrow> PARAM_UNRECOGNISED | Some k \<Rightarrow> k)"

text \<open>\<open>all\<close> is the only name allowed in the list of forwarded origins.\<close>

definition check_forward_origins :: "bytes list \<Rightarrow> output_error + bytes list" where
  "check_forward_origins names =
     (case find (\<lambda>n. n \<noteq> REPLICATION_ORIGIN_ALL) names of
        Some n \<Rightarrow> Inl (Origin_not_allowed n)
      | None \<Rightarrow> Inr names)"

text \<open>One option of \<open>process_parameters_v1\<close>: a case of its \<open>switch\<close>.\<close>

definition process_param ::
    "output_server \<Rightarrow> 'f repset_db \<Rightarrow> DefElem \<Rightarrow> SpockOutputData \<Rightarrow> output_error + SpockOutputData" where
  "process_param srv db elem data =
     (let bool_param = (\<lambda>k. res_bind (get_param_value srv elem parse_param_bool) (\<lambda>b. Inr (k b)));
          uint_param = (\<lambda>k. res_bind (get_param_value srv elem parse_param_uint32) (\<lambda>w. Inr (k w)));
          string_param = (\<lambda>k. res_bind (get_param_value srv elem parse_param_string) k)
      in case get_param_key (defname elem) of
           PARAM_BINARY_BIGENDIAN \<Rightarrow>
             bool_param (\<lambda>b. data\<lparr>client_binary_bigendian_set := True, client_binary_bigendian := b\<rparr>)
         | PARAM_BINARY_SIZEOF_DATUM \<Rightarrow> uint_param (\<lambda>w. data\<lparr>client_binary_sizeofdatum := w\<rparr>)
         | PARAM_BINARY_SIZEOF_INT \<Rightarrow> uint_param (\<lambda>w. data\<lparr>client_binary_sizeofint := w\<rparr>)
         | PARAM_BINARY_SIZEOF_LONG \<Rightarrow> uint_param (\<lambda>w. data\<lparr>client_binary_sizeoflong := w\<rparr>)
         | PARAM_BINARY_FLOAT4BYVAL \<Rightarrow>
             bool_param (\<lambda>b. data\<lparr>client_binary_float4byval_set := True, client_binary_float4byval := b\<rparr>)
         | PARAM_BINARY_FLOAT8BYVAL \<Rightarrow>
             bool_param (\<lambda>b. data\<lparr>client_binary_float8byval_set := True, client_binary_float8byval := b\<rparr>)
         | PARAM_BINARY_INTEGER_DATETIMES \<Rightarrow>
             bool_param (\<lambda>b. data\<lparr>client_binary_intdatetimes_set := True, client_binary_intdatetimes := b\<rparr>)
         | PARAM_PROTOCOL_FORMAT \<Rightarrow> string_param (\<lambda>s. Inr (data\<lparr>client_protocol_format := Some s\<rparr>))
         | PARAM_EXPECTED_ENCODING \<Rightarrow> string_param (\<lambda>s. Inr (data\<lparr>client_expected_encoding := Some s\<rparr>))
         | PARAM_PG_VERSION \<Rightarrow> uint_param (\<lambda>w. data\<lparr>client_pg_version := w\<rparr>)
         | PARAM_BINARY_WANT_INTERNAL_BASETYPES \<Rightarrow>
             bool_param (\<lambda>b. data\<lparr>client_want_internal_basetypes_set := True, client_want_internal_basetypes := b\<rparr>)
         | PARAM_BINARY_WANT_BINARY_BASETYPES \<Rightarrow>
             bool_param (\<lambda>b. data\<lparr>client_want_binary_basetypes_set := True, client_want_binary_basetypes := b\<rparr>)
         | PARAM_BINARY_BASETYPES_MAJOR_VERSION \<Rightarrow>
             uint_param (\<lambda>w. data\<lparr>client_binary_basetypes_major_version := w\<rparr>)
         | PARAM_SPOCK_FORWARD_ORIGINS \<Rightarrow>
             string_param (\<lambda>s. case SplitIdentifierString srv s (ch CHR '','') of
                 None \<Rightarrow> Inl (Origins_unparsed s)
               | Some names \<Rightarrow> res_bind (check_forward_origins names) (\<lambda>names.
                   Inr (data\<lparr>od_forward_origins := names\<rparr>)))
         | PARAM_SPOCK_REPLICATION_SET_NAMES \<Rightarrow>
             string_param (\<lambda>s. case SplitIdentifierString srv s (ch CHR '','') of
                 None \<Rightarrow> Inl (Sets_unparsed s)
               | Some names \<Rightarrow>
                   (case get_replication_sets db (od_local_node_id data) names False of
                      Inl e \<Rightarrow> Inl (Catalog e)
                    | Inr sets \<Rightarrow> Inr (data\<lparr>od_replication_sets := sets\<rparr>)))
         | PARAM_SPOCK_REPLICATE_ONLY_TABLE \<Rightarrow>
             string_param (\<lambda>s. case SplitIdentifierString srv s (ch CHR ''.'') of
                 None \<Rightarrow> Inl (Only_table_unparsed s)
               | Some (nsp # rel # _) \<Rightarrow> Inr (data\<lparr>replicate_only_table := Some (nsp, rel)\<rparr>)
               | Some _ \<Rightarrow> Inl List_too_short)
         | PARAM_NO_TXINFO \<Rightarrow> bool_param (\<lambda>b. data\<lparr>client_no_txinfo := b\<rparr>)
         | PARAM_STARTUP_FORMAT \<Rightarrow> uint_param (\<lambda>w. data\<lparr>startup_params_format := w\<rparr>)
         | PARAM_SPOCK_VERSION \<Rightarrow> string_param (\<lambda>s. Inr (data\<lparr>od_spock_version := Some s\<rparr>))
         | PARAM_SPOCK_VERSION_NUM \<Rightarrow> uint_param (\<lambda>w. data\<lparr>spock_version_num := w\<rparr>)
         | PARAM_HOOKS_SETUP_FUNCTION \<Rightarrow> Inr data
         | PARAM_UNRECOGNISED \<Rightarrow> Inr data
         | PARAM_MAX_PROTOCOL_VERSION \<Rightarrow> Inr data
         | PARAM_MIN_PROTOCOL_VERSION \<Rightarrow> Inr data)"

definition process_parameters_v1 ::
    "output_server \<Rightarrow> 'f repset_db \<Rightarrow> DefElem list \<Rightarrow> SpockOutputData \<Rightarrow> output_error + SpockOutputData" where
  "process_parameters_v1 srv db options data =
     res_bind (get_param srv options (cs ''max_proto_version'') parse_param_uint32) (\<lambda>vmax.
     res_bind (get_param srv options (cs ''min_proto_version'') parse_param_uint32) (\<lambda>vmin.
       res_fold (process_param srv db) options
         (data\<lparr>client_max_proto_version := vmax, client_min_proto_version := vmin\<rparr>)))"

definition process_parameters ::
    "output_server \<Rightarrow> 'f repset_db \<Rightarrow> DefElem list \<Rightarrow> SpockOutputData \<Rightarrow> output_error + uint32 \<times> SpockOutputData" where
  "process_parameters srv db options data =
     res_bind (get_param srv options (cs ''startup_params_format'') parse_param_uint32) (\<lambda>params_format.
       if params_format = SPOCK_STARTUP_PARAM_FORMAT_FLAT
       then res_bind (process_parameters_v1 srv db options data) (\<lambda>data. Inr (params_format, data))
       else Inl (Params_format_unsupported params_format))"

section \<open>The startup message\<close>

definition show_int32 :: "uint32 \<Rightarrow> bytes" where
  "show_int32 w = (if sint w < 0 then cs ''-'' @ show_nat (nat (- sint w)) else show_nat (nat (sint w)))"

definition add_startup_msg_s :: "string \<Rightarrow> bytes \<Rightarrow> (bytes \<times> bytes) list \<Rightarrow> (bytes \<times> bytes) list" where
  "add_startup_msg_s key val l = l @ [(cs key, val)]"

definition add_startup_msg_i :: "string \<Rightarrow> uint32 \<Rightarrow> (bytes \<times> bytes) list \<Rightarrow> (bytes \<times> bytes) list" where
  "add_startup_msg_i key val l = l @ [(cs key, show_int32 val)]"

definition add_startup_msg_b :: "string \<Rightarrow> bool \<Rightarrow> (bytes \<times> bytes) list \<Rightarrow> (bytes \<times> bytes) list" where
  "add_startup_msg_b key val l = l @ [(cs key, if val then cs ''t'' else cs ''f'')]"

definition prepare_startup_message :: "output_server \<Rightarrow> SpockOutputData \<Rightarrow> (bytes \<times> bytes) list" where
  "prepare_startup_message srv data =
     (let l = [];
          l = add_startup_msg_i ''max_proto_version'' SPOCK_PROTO_VERSION_NUM l;
          l = add_startup_msg_i ''min_proto_version'' SPOCK_PROTO_MIN_VERSION_NUM l;
          l = add_startup_msg_i ''proto_version'' (negotiated_proto_version data) l;
          l = add_startup_msg_b ''coltypes'' False l;
          l = add_startup_msg_i ''pg_version_num'' (PG_VERSION_NUM srv) l;
          l = add_startup_msg_s ''pg_version'' (PG_VERSION srv) l;
          l = add_startup_msg_i ''pg_catversion'' (CATALOG_VERSION_NO srv) l;
          l = add_startup_msg_s ''database_encoding'' (GetDatabaseEncodingName srv) l;
          l = add_startup_msg_s ''encoding'' (pg_encoding_to_char srv (field_datum_encoding data)) l;
          l = add_startup_msg_b ''forward_changeset_origins'' (forward_changeset_origins data) l;
          l = add_startup_msg_i ''walsender_pid'' (MyProcPid srv) l;
          l = add_startup_msg_s ''spock_version'' SPOCK_VERSION l;
          l = add_startup_msg_i ''spock_version_num'' SPOCK_VERSION_NUM l;
          l = add_startup_msg_b ''binary.internal_basetypes'' (allow_internal_basetypes data) l;
          l = add_startup_msg_b ''binary.binary_basetypes'' (allow_binary_basetypes data) l;
          l = add_startup_msg_i ''binary.basetypes_major_version'' (PG_VERSION_NUM srv div 100) l;
          l = add_startup_msg_i ''binary.sizeof_int'' (sizeof_int srv) l;
          l = add_startup_msg_i ''binary.sizeof_long'' (sizeof_long srv) l;
          l = add_startup_msg_i ''binary.sizeof_datum'' (sizeof_Datum srv) l;
          l = add_startup_msg_i ''binary.maxalign'' (MAXIMUM_ALIGNOF srv) l;
          l = add_startup_msg_b ''binary.bigendian'' (server_bigendian srv) l;
          l = add_startup_msg_b ''binary.float4_byval'' (server_float4_byval srv) l;
          l = add_startup_msg_b ''binary.float8_byval'' (server_float8_byval srv) l;
          l = add_startup_msg_b ''binary.integer_datetimes'' (server_integer_datetimes srv) l;
          l = add_startup_msg_i ''binary.binary_pg_version'' (PG_VERSION_NUM srv div 100) l;
          l = add_startup_msg_b ''no_txinfo'' (client_no_txinfo data) l
      in l)"

section \<open>The subscriber\<close>

text \<open>
  The options of the replication command; the server's grammar takes the quotes of a literal off
  again.
\<close>

definition option_of :: "string \<Rightarrow> bytes \<Rightarrow> DefElem" where
  "option_of name val = \<lparr>defname = cs name, de_arg = Some val\<rparr>"

definition show_flag :: "bool \<Rightarrow> bytes" where
  "show_flag b = (if b then cs ''1'' else cs ''0'')"

definition optional_option :: "string \<Rightarrow> bytes option \<Rightarrow> DefElem list" where
  "optional_option name val = (case val of None \<Rightarrow> [] | Some v \<Rightarrow> [option_of name v])"

definition start_replication_options ::
    "output_server \<Rightarrow> bytes option \<Rightarrow> bytes option \<Rightarrow> bytes option \<Rightarrow> bool \<Rightarrow> DefElem list" where
  "start_replication_options srv forward_origins replication_sets only_table force_text_transfer =
     [option_of ''expected_encoding'' (GetDatabaseEncodingName srv),
      option_of ''min_proto_version'' (show_int32 SPOCK_PROTO_MIN_VERSION_NUM),
      option_of ''max_proto_version'' (show_int32 SPOCK_PROTO_VERSION_NUM),
      option_of ''startup_params_format'' (cs ''1''),
      option_of ''binary.want_internal_basetypes'' (show_flag (\<not> force_text_transfer)),
      option_of ''binary.want_binary_basetypes'' (show_flag (\<not> force_text_transfer)),
      option_of ''binary.basetypes_major_version'' (show_nat (unat (PG_VERSION_NUM srv div 100))),
      option_of ''binary.sizeof_datum'' (show_nat (unat (sizeof_Datum srv))),
      option_of ''binary.sizeof_int'' (show_nat (unat (sizeof_int srv))),
      option_of ''binary.sizeof_long'' (show_nat (unat (sizeof_long srv))),
      option_of ''binary.bigendian'' (show_flag (server_bigendian srv)),
      option_of ''binary.float4_byval'' (show_flag (server_float4_byval srv)),
      option_of ''binary.float8_byval'' (show_flag (server_float8_byval srv)),
      option_of ''binary.integer_datetimes'' (show_flag (server_integer_datetimes srv)),
      option_of ''hooks.setup_function'' (cs ''spock.spock_hooks_setup'')] @
     optional_option ''spock.forward_origins'' forward_origins @
     optional_option ''spock.replicate_only_table'' only_table @
     optional_option ''spock.replication_set_names'' replication_sets @
     [option_of ''pg_version'' (show_nat (unat (PG_VERSION_NUM srv))),
      option_of ''spock_version'' SPOCK_VERSION,
      option_of ''spock_version_num'' (show_int32 SPOCK_VERSION_NUM)]"

datatype startup_error =
    Startup_message_version byte
  | Startup_data_error
  | Startup_key_empty
  | Startup_key_without_value bytes
  | Startup_encoding bytes
  | Startup_bool bytes bytes
  | Startup_proto_version bytes

text \<open>
  One parameter of the startup message; the state is \<open>spock_apply_proto_version\<close>.
\<close>

definition handle_startup_param ::
    "output_server \<Rightarrow> bytes \<Rightarrow> bytes \<Rightarrow> uint32 \<Rightarrow> startup_error + uint32" where
  "handle_startup_param srv key val version =
     (if key = cs ''encoding'' \<and> pg_char_to_encoding srv val \<noteq> GetDatabaseEncoding srv
      then Inl (Startup_encoding val)
      else if key = cs ''forward_changeset_origins'' \<and> parse_bool srv val = None
      then Inl (Startup_bool key val)
      else if key = cs ''proto_version'' then
        (case strtoul val of (proto_version, used, range_error) \<Rightarrow>
           if range_error \<or> used \<noteq> length val then Inl (Startup_proto_version val)
           else Inr (ucast proto_version))
      else Inr version)"

text \<open>The loop over the pairs; \<open>fuel\<close> bounds their number, \<^const>\<open>None\<close> is running out of it.\<close>

primrec startup_params ::
    "nat \<Rightarrow> pqformat \<Rightarrow> output_server \<Rightarrow> bytes \<Rightarrow> uint32 \<Rightarrow> (startup_error + uint32) option" where
  "startup_params 0 pq srv s version = None"
| "startup_params (Suc fuel) pq srv s version =
     (case pq_getmsgstring pq s of
        None \<Rightarrow> Some (Inl Startup_data_error)
      | Some (k, s) \<Rightarrow>
          if k = [] then Some (Inl Startup_key_empty)
          else if s = [] then Some (Inl (Startup_key_without_value k))
          else (case pq_getmsgstring pq s of
                  None \<Rightarrow> Some (Inl Startup_data_error)
                | Some (v, s) \<Rightarrow>
                    (case handle_startup_param srv k v version of
                       Inl e \<Rightarrow> Some (Inl e)
                     | Inr version \<Rightarrow> if s = [] then Some (Inr version)
                         else startup_params fuel pq srv s version)))"

definition handle_startup ::
    "nat \<Rightarrow> pqformat \<Rightarrow> output_server \<Rightarrow> bytes \<Rightarrow> uint32 \<Rightarrow> (startup_error + uint32) option" where
  "handle_startup fuel pq srv s version =
     (case pq_getmsgint8 pq s of
        None \<Rightarrow> Some (Inl Startup_data_error)
      | Some (msgver, s) \<Rightarrow>
          if msgver \<noteq> SPOCK_STARTUP_MSG_FORMAT_FLAT then Some (Inl (Startup_message_version msgver))
          else startup_params fuel pq srv s version)"

end
