(* ===== verification/Spock_Handshake.thy ===== *)
theory Spock_Handshake
  imports Spock_Output_Config Spock_Repset_Props
begin

text \<open>
  The start of a connection: what the publisher understands of the options of \<open>spock_start_replication\<close>,
  and what the subscriber takes from the startup message it is answered with.
\<close>

section \<open>Numbers as text\<close>

lemma show_nat_digits: "list_all c_isdigit (show_nat n) \<and> show_nat n \<noteq> [] \<and> dec_value (show_nat n) = n"
proof (induction n rule: show_nat.induct)
  case (1 n)
  have digit: "c_isdigit (word_of_nat (48 + k)) \<and> unat (word_of_nat (48 + k) :: byte) = 48 + k" if "k < 10" for k
  proof -
    have "unat (word_of_nat (48 + k) :: byte) = 48 + k" using that by (simp add: unat_of_nat del: of_nat_add)
    then show ?thesis using that by (simp add: c_isdigit_def word_le_nat_alt del: of_nat_add)
  qed
  show ?case
  proof (cases "n < 10")
    case True
    then have "show_nat n = [word_of_nat (48 + n)]" by (subst show_nat.simps) simp
    then show ?thesis using digit [OF True] by (simp add: dec_value_def del: of_nat_add)
  next
    case False
    then have "show_nat n = show_nat (n div 10) @ [word_of_nat (48 + n mod 10)]" by (subst show_nat.simps) simp
    then show ?thesis using digit [of "n mod 10"] 1 [OF False] by (simp add: dec_value_def del: of_nat_add)
  qed
qed

lemma scan_show_nat: "scan_decimal (show_nat n) = Some (False, n, length (show_nat n))"
proof -
  note d = show_nat_digits [of n]
  then obtain c r where c: "show_nat n = c # r" "c_isdigit c" by (cases "show_nat n") auto
  have "\<not> c_isspace c" "c \<noteq> 45" "c \<noteq> 43" using c(2)
    by (auto simp: c_isspace_def c_isdigit_def word_le_nat_alt)
  then have sign: "scan_sign (dropWhile c_isspace (show_nat n)) = (False, show_nat n)" using c(1) by (simp add: scan_sign_def)
  have digits: "takeWhile c_isdigit (show_nat n) = show_nat n" using d by (simp add: list_all_iff takeWhile_eq_all_conv)
  show ?thesis using d by (simp add: scan_decimal_def Let_def sign digits)
qed

lemma strtoi64_show_nat: "n < 2 ^ 63 \<Longrightarrow> strtoi64 (show_nat n) = (int n, length (show_nat n))"
  by (simp add: strtoi64_def scan_show_nat)

lemma strtoul_show_nat: "n < 2 ^ 64 \<Longrightarrow> strtoul (show_nat n) = (word_of_nat n, length (show_nat n), False)"
  by (simp add: strtoul_def scan_show_nat)

lemma show_int32_nat: "unat w < 2 ^ 31 \<Longrightarrow> show_int32 w = show_nat (unat w)"
  using sint_len32 [of "unat w"] by (simp add: show_int32_def)

lemma parse_uint32_show:
  "parse_param_uint32 srv name (show_nat (unat (w :: uint32))) = Inr w"
proof -
  have "unat w < 2 ^ LENGTH(32)" "uint w < 2 ^ LENGTH(32)" by (rule unsigned_less)+
  then show ?thesis using show_nat_digits [of "unat w"]
    by (simp add: parse_param_uint32_def parse_param_int_def strtoi64_show_nat PG_UINT32_MAX_def)
qed

section \<open>The startup message\<close>

context pq_format
begin

lemma sendstring_nonempty: "cstr s \<Longrightarrow> pq_sendstring pq s \<noteq> []"
proof
  assume s: "cstr s" "pq_sendstring pq s = []"
  have "pq_getmsgstring pq r = Some (s, r)" for r using get_sendstring [OF s(1), of r] s(2) by simp
  moreover have "cstr []" "cstr [1]" by (simp_all add: cstr_def)
  ultimately show False using get_sendstring [of "[]" "[]"] get_sendstring [of "[1]" "[]"] by simp
qed

text \<open>Reading the pairs that were written hands each to \<open>handle_startup_param\<close>.\<close>

lemma startup_params_written:
  assumes "\<forall>(k, v) \<in> set l. k \<noteq> [] \<and> cstr k \<and> cstr v" "l \<noteq> []" "length l \<le> fuel"
  shows "startup_params fuel pq srv (concat (map (\<lambda>(k, v). pq_sendstring pq k @ pq_sendstring pq v) l)) version =
    Some (res_fold (\<lambda>(k, v). handle_startup_param srv k v) l version)"
  using assms
proof (induction l arbitrary: fuel version)
  case (Cons kv l)
  obtain k v where kv: "kv = (k, v)" by (cases kv)
  then have k: "k \<noteq> []" "cstr k" "cstr v" using Cons.prems(1) by auto
  obtain f where f: "fuel = Suc f" "length l \<le> f" using Cons.prems(3) by (cases fuel) auto
  have end_iff: "concat (map (\<lambda>(k, v). pq_sendstring pq k @ pq_sendstring pq v) l) = [] \<longleftrightarrow> l = []"
    using Cons.prems(1) by (cases l) (auto simp: sendstring_nonempty)
  show ?case
  proof (cases "handle_startup_param srv k v version")
    case (Inl e) then show ?thesis using f kv k by (simp add: get_sendstring sendstring_nonempty res_bind_def)
  next
    case (Inr version')
    show ?thesis
    proof (cases "l = []")
      case True
      then show ?thesis using f kv k Inr get_sendstring [of v "[]"]
        by (simp add: get_sendstring sendstring_nonempty res_bind_def)
    next
      case False
      then show ?thesis using f kv k Inr Cons.IH [of f version'] Cons.prems(1) end_iff
        by (simp add: get_sendstring sendstring_nonempty res_bind_def del: concat_eq_Nil_conv)
    qed
  qed
qed simp

end

section \<open>C string literals\<close>

lemma unat_ch: "unat (ch c) = of_char c"
  using of_char_mod_256 [of c, where ?'a = nat] by (simp add: ch_def unat_of_nat)

lemma ch_inject [simp]: "ch a = ch b \<longleftrightarrow> a = b"
  by (metis unat_ch of_char_eq_iff)

lemma cs_inject [simp]: "cs a = cs b \<longleftrightarrow> a = b"
  unfolding cs_def by (rule inj_map_eq_map) (simp add: inj_def)

lemma cs_Nil [simp]: "cs a = [] \<longleftrightarrow> a = []"
  by (simp add: cs_def)

lemma cstr_cs: "cstr (cs a) \<longleftrightarrow> CHR 0x00 \<notin> set a"
proof -
  have "ch CHR 0x00 = 0" by (simp add: ch_def)
  then have "0 \<in> ch ` set a \<longleftrightarrow> CHR 0x00 \<in> set a" by (metis (no_types) ch_inject image_iff)
  then show ?thesis by (simp add: cstr_def cs_def)
qed

lemma cstr_show_nat: "cstr (show_nat n)"
proof -
  have "\<not> c_isdigit 0" by code_simp
  then show ?thesis using show_nat_digits [of n] by (auto simp: cstr_def list_all_iff)
qed

lemma cstr_show_int32: "cstr (show_int32 w)"
  using cstr_show_nat cstr_cs [of "''-''"] by (auto simp: show_int32_def cstr_def)

section \<open>Agreement on the protocol\<close>

lemma handle_proto_version:
  assumes "unat v < 2 ^ 31"
  shows "handle_startup_param srv (cs ''proto_version'') (show_int32 v) version = Inr v"
proof -
  have "unat v < 2 ^ 64" using assms by simp
  then have "strtoul (show_int32 v) = (word_of_nat (unat v), length (show_int32 v), False)"
    using strtoul_show_nat show_int32_nat [OF assms] by simp
  moreover have "ucast (ucast v :: uint64) = v" by (rule bit_word_eqI) (simp add: bit_unsigned_iff bit_imp_le_length)
  ultimately show ?thesis by (simp add: handle_startup_param_def)
qed

lemma handle_other_param:
  "key \<notin> {''encoding'', ''forward_changeset_origins'', ''proto_version''} \<Longrightarrow>
     handle_startup_param srv (cs key) val version = Inr version"
  by (simp add: handle_startup_param_def)

text \<open>
  C10: Whatever version the publisher negotiated, the apply worker uses that version after it has read
  the publisher's startup message.  The databases have the same encoding, and no string of the
  server holds a NUL.
\<close>

theorem startup_agrees:
  assumes "pq_format pq" "unat (negotiated_proto_version data) < 2 ^ 31" "26 \<le> fuel"
    and "cstr (PG_VERSION p)" "cstr (GetDatabaseEncodingName p)"
    and "cstr (pg_encoding_to_char p (field_datum_encoding data))"
    and "pg_char_to_encoding s (pg_encoding_to_char p (field_datum_encoding data)) = GetDatabaseEncoding s"
    and "parse_bool s (cs ''t'') = Some True" "parse_bool s (cs ''f'') = Some False"
  shows "\<exists>body. write_startup_message pq (prepare_startup_message p data) = put_char pq (CHR ''S'') @ body \<and>
    handle_startup fuel pq s body version = Some (Inr (negotiated_proto_version data))"
proof -
  let ?l = "prepare_startup_message p data"
  let ?body = "pq_sendint8 pq SPOCK_STARTUP_MSG_FORMAT_FLAT @
    concat (map (\<lambda>(k, v). pq_sendstring pq k @ pq_sendstring pq v) ?l)"
  note msg = prepare_startup_message_def add_startup_msg_s_def add_startup_msg_i_def add_startup_msg_b_def Let_def
  have l: "\<forall>(k, v) \<in> set ?l. k \<noteq> [] \<and> cstr k \<and> cstr v" "?l \<noteq> []" "length ?l \<le> fuel"
    using assms(3-6) by (simp_all add: msg cstr_cs cstr_show_int32 SPOCK_VERSION_def)
  have enc: "handle_startup_param s (cs ''encoding'') (pg_encoding_to_char p (field_datum_encoding data)) v = Inr v"
    and fwd: "handle_startup_param s (cs ''forward_changeset_origins'') (if b then cs ''t'' else cs ''f'') v = Inr v" for v b
    using assms(7-9) by (auto simp: handle_startup_param_def)
  have "res_fold (\<lambda>(k, v). handle_startup_param s k v) ?l version = Inr (negotiated_proto_version data)"
    by (simp add: msg handle_other_param handle_proto_version [OF assms(2)] enc fwd res_bind_def del: if_split)
  then have "handle_startup fuel pq s ?body version = Some (Inr (negotiated_proto_version data))"
    using pq_format.startup_params_written [OF assms(1) l, of s version] pq_format.get_send8 [OF assms(1)]
    by (simp add: handle_startup_def)
  then show ?thesis by (intro exI [of _ ?body]) (simp add: write_startup_message_def)
qed

section \<open>The options of the subscriber\<close>

text \<open>
  \<open>pg_strcasecmp\<close> folds the ASCII letters, and \<open>parse_bool\<close> takes \<open>1\<close> and \<open>0\<close>.
\<close>

definition fold_case :: "byte \<Rightarrow> byte" where
  "fold_case c = (if 65 \<le> c \<and> c \<le> 90 then c + 32 else c)"

definition options_server :: "output_server \<Rightarrow> bool" where
  "options_server srv \<longleftrightarrow>
     (\<forall>a b. pg_strcasecmp srv a b = 0 \<longleftrightarrow> map fold_case a = map fold_case b) \<and>
     parse_bool srv (cs ''1'') = Some True \<and> parse_bool srv (cs ''0'') = Some False"

lemma option_keys:
  "get_param_key (cs ''max_proto_version'') = PARAM_MAX_PROTOCOL_VERSION"
  "get_param_key (cs ''min_proto_version'') = PARAM_MIN_PROTOCOL_VERSION"
  "get_param_key (cs ''expected_encoding'') = PARAM_EXPECTED_ENCODING"
  "get_param_key (cs ''binary.bigendian'') = PARAM_BINARY_BIGENDIAN"
  "get_param_key (cs ''binary.sizeof_datum'') = PARAM_BINARY_SIZEOF_DATUM"
  "get_param_key (cs ''binary.sizeof_int'') = PARAM_BINARY_SIZEOF_INT"
  "get_param_key (cs ''binary.sizeof_long'') = PARAM_BINARY_SIZEOF_LONG"
  "get_param_key (cs ''binary.float4_byval'') = PARAM_BINARY_FLOAT4BYVAL"
  "get_param_key (cs ''binary.float8_byval'') = PARAM_BINARY_FLOAT8BYVAL"
  "get_param_key (cs ''binary.integer_datetimes'') = PARAM_BINARY_INTEGER_DATETIMES"
  "get_param_key (cs ''binary.want_internal_basetypes'') = PARAM_BINARY_WANT_INTERNAL_BASETYPES"
  "get_param_key (cs ''binary.want_binary_basetypes'') = PARAM_BINARY_WANT_BINARY_BASETYPES"
  "get_param_key (cs ''binary.basetypes_major_version'') = PARAM_BINARY_BASETYPES_MAJOR_VERSION"
  "get_param_key (cs ''spock.forward_origins'') = PARAM_SPOCK_FORWARD_ORIGINS"
  "get_param_key (cs ''spock.replication_set_names'') = PARAM_SPOCK_REPLICATION_SET_NAMES"
  "get_param_key (cs ''spock.replicate_only_table'') = PARAM_SPOCK_REPLICATE_ONLY_TABLE"
  "get_param_key (cs ''hooks.setup_function'') = PARAM_HOOKS_SETUP_FUNCTION"
  "get_param_key (cs ''pg_version'') = PARAM_PG_VERSION"
  "get_param_key (cs ''startup_params_format'') = PARAM_STARTUP_FORMAT"
  "get_param_key (cs ''spock_version'') = PARAM_SPOCK_VERSION"
  "get_param_key (cs ''spock_version_num'') = PARAM_SPOCK_VERSION_NUM"
  by (simp_all add: get_param_key_def param_lookup_def)

lemma show_flag_parse: "options_server srv \<Longrightarrow> parse_param_bool srv name (show_flag b) = Inr b"
  by (simp add: options_server_def parse_param_bool_def show_flag_def)

lemma parse_int32_show: "unat w < 2 ^ 31 \<Longrightarrow> parse_param_uint32 srv name (show_int32 w) = Inr w"
  by (simp add: show_int32_nat parse_uint32_show)

lemma parse_literals:
  "parse_param_uint32 p name (cs ''1'') = Inr 1"
  "parse_param_uint32 p name (show_int32 SPOCK_VERSION_NUM) = Inr SPOCK_VERSION_NUM"
  "parse_param_uint32 p name (show_int32 SPOCK_PROTO_VERSION_NUM) = Inr SPOCK_PROTO_VERSION_NUM"
  "parse_param_uint32 p name (show_int32 SPOCK_PROTO_MIN_VERSION_NUM) = Inr SPOCK_PROTO_MIN_VERSION_NUM"
proof -
  have "cs ''1'' = show_nat (unat (1 :: uint32))" by code_simp
  then show "parse_param_uint32 p name (cs ''1'') = Inr 1" by (simp only: parse_uint32_show)
qed (rule parse_int32_show, simp add: SPOCK_VERSION_NUM_def SPOCK_PROTO_VERSION_NUM_def SPOCK_PROTO_MIN_VERSION_NUM_def)+

lemma get_param_names:
  assumes "options_server p"
  shows "get_param p (start_replication_options s fo rs ot force) (cs ''startup_params_format'') parse_param_uint32 = Inr 1"
    and "get_param p (start_replication_options s fo rs ot force) (cs ''max_proto_version'') parse_param_uint32
      = Inr SPOCK_PROTO_VERSION_NUM"
    and "get_param p (start_replication_options s fo rs ot force) (cs ''min_proto_version'') parse_param_uint32
      = Inr SPOCK_PROTO_MIN_VERSION_NUM"
proof -
  have cmp: "pg_strcasecmp p a b = 0 \<longleftrightarrow> map fold_case a = map fold_case b" for a b
    using assms by (simp add: options_server_def)
  have neq: "map fold_case (cs ''startup_params_format'') \<noteq> map fold_case (cs ''expected_encoding'')"
    "map fold_case (cs ''startup_params_format'') \<noteq> map fold_case (cs ''min_proto_version'')"
    "map fold_case (cs ''startup_params_format'') \<noteq> map fold_case (cs ''max_proto_version'')"
    "map fold_case (cs ''max_proto_version'') \<noteq> map fold_case (cs ''expected_encoding'')"
    "map fold_case (cs ''max_proto_version'') \<noteq> map fold_case (cs ''min_proto_version'')"
    "map fold_case (cs ''min_proto_version'') \<noteq> map fold_case (cs ''expected_encoding'')"
    by code_simp+
  show "get_param p (start_replication_options s fo rs ot force) (cs ''startup_params_format'') parse_param_uint32 = Inr 1"
    "get_param p (start_replication_options s fo rs ot force) (cs ''max_proto_version'') parse_param_uint32
      = Inr SPOCK_PROTO_VERSION_NUM"
    "get_param p (start_replication_options s fo rs ot force) (cs ''min_proto_version'') parse_param_uint32
      = Inr SPOCK_PROTO_MIN_VERSION_NUM"
    by (simp_all add: start_replication_options_def option_of_def cmp neq get_param_value_def parse_literals)
qed

lemma process_steps:
  assumes "options_server p"
  shows "get_param_key (cs n) = PARAM_EXPECTED_ENCODING \<Longrightarrow>
      process_param p db (option_of n v) data = Inr (data\<lparr>client_expected_encoding := Some v\<rparr>)"
    and "get_param_key (cs n) = PARAM_MIN_PROTOCOL_VERSION \<Longrightarrow> process_param p db (option_of n v) data = Inr data"
    and "get_param_key (cs n) = PARAM_MAX_PROTOCOL_VERSION \<Longrightarrow> process_param p db (option_of n v) data = Inr data"
    and "get_param_key (cs n) = PARAM_HOOKS_SETUP_FUNCTION \<Longrightarrow> process_param p db (option_of n v) data = Inr data"
    and "get_param_key (cs n) = PARAM_STARTUP_FORMAT \<Longrightarrow>
      process_param p db (option_of n (cs ''1'')) data = Inr (data\<lparr>startup_params_format := 1\<rparr>)"
    and "get_param_key (cs n) = PARAM_BINARY_WANT_INTERNAL_BASETYPES \<Longrightarrow> process_param p db (option_of n (show_flag b)) data =
      Inr (data\<lparr>client_want_internal_basetypes_set := True, client_want_internal_basetypes := b\<rparr>)"
    and "get_param_key (cs n) = PARAM_BINARY_WANT_BINARY_BASETYPES \<Longrightarrow> process_param p db (option_of n (show_flag b)) data =
      Inr (data\<lparr>client_want_binary_basetypes_set := True, client_want_binary_basetypes := b\<rparr>)"
    and "get_param_key (cs n) = PARAM_BINARY_BASETYPES_MAJOR_VERSION \<Longrightarrow>
      process_param p db (option_of n (show_nat (unat w))) data = Inr (data\<lparr>client_binary_basetypes_major_version := w\<rparr>)"
    and "get_param_key (cs n) = PARAM_BINARY_SIZEOF_DATUM \<Longrightarrow>
      process_param p db (option_of n (show_nat (unat w))) data = Inr (data\<lparr>client_binary_sizeofdatum := w\<rparr>)"
    and "get_param_key (cs n) = PARAM_BINARY_SIZEOF_INT \<Longrightarrow>
      process_param p db (option_of n (show_nat (unat w))) data = Inr (data\<lparr>client_binary_sizeofint := w\<rparr>)"
    and "get_param_key (cs n) = PARAM_BINARY_SIZEOF_LONG \<Longrightarrow>
      process_param p db (option_of n (show_nat (unat w))) data = Inr (data\<lparr>client_binary_sizeoflong := w\<rparr>)"
    and "get_param_key (cs n) = PARAM_BINARY_BIGENDIAN \<Longrightarrow> process_param p db (option_of n (show_flag b)) data =
      Inr (data\<lparr>client_binary_bigendian_set := True, client_binary_bigendian := b\<rparr>)"
    and "get_param_key (cs n) = PARAM_BINARY_FLOAT4BYVAL \<Longrightarrow> process_param p db (option_of n (show_flag b)) data =
      Inr (data\<lparr>client_binary_float4byval_set := True, client_binary_float4byval := b\<rparr>)"
    and "get_param_key (cs n) = PARAM_BINARY_FLOAT8BYVAL \<Longrightarrow> process_param p db (option_of n (show_flag b)) data =
      Inr (data\<lparr>client_binary_float8byval_set := True, client_binary_float8byval := b\<rparr>)"
    and "get_param_key (cs n) = PARAM_BINARY_INTEGER_DATETIMES \<Longrightarrow> process_param p db (option_of n (show_flag b)) data =
      Inr (data\<lparr>client_binary_intdatetimes_set := True, client_binary_intdatetimes := b\<rparr>)"
    and "get_param_key (cs n) = PARAM_PG_VERSION \<Longrightarrow>
      process_param p db (option_of n (show_nat (unat w))) data = Inr (data\<lparr>client_pg_version := w\<rparr>)"
    and "get_param_key (cs n) = PARAM_SPOCK_VERSION \<Longrightarrow>
      process_param p db (option_of n v) data = Inr (data\<lparr>od_spock_version := Some v\<rparr>)"
    and "get_param_key (cs n) = PARAM_SPOCK_VERSION_NUM \<Longrightarrow>
      process_param p db (option_of n (show_int32 SPOCK_VERSION_NUM)) data = Inr (data\<lparr>spock_version_num := SPOCK_VERSION_NUM\<rparr>)"
  by (simp_all add: process_param_def Let_def option_of_def get_param_value_def res_bind_def parse_param_string_def
      parse_uint32_show show_flag_parse [OF assms] parse_literals)

lemmas option_step = process_param_def Let_def option_of_def optional_option_def get_param_value_def res_bind_def
  parse_param_string_def option_keys

text \<open>The three options that may be left out.\<close>

definition origins_option :: "output_server \<Rightarrow> bytes option \<Rightarrow> bytes list \<Rightarrow> bool" where
  "origins_option srv val origins \<longleftrightarrow>
     (case val of None \<Rightarrow> origins = []
      | Some str \<Rightarrow> SplitIdentifierString srv str (ch CHR '','') = Some origins \<and> set origins \<subseteq> {REPLICATION_ORIGIN_ALL})"

definition sets_option :: "output_server \<Rightarrow> 'f repset_db \<Rightarrow> Oid \<Rightarrow> bytes option \<Rightarrow> SpockRepSet list \<Rightarrow> bool" where
  "sets_option srv db nodeid val sets \<longleftrightarrow>
     (case val of None \<Rightarrow> sets = []
      | Some str \<Rightarrow> (\<exists>names. SplitIdentifierString srv str (ch CHR '','') = Some names \<and>
          get_replication_sets db nodeid names False = Inr sets))"

definition table_option :: "output_server \<Rightarrow> bytes option \<Rightarrow> (bytes \<times> bytes) option \<Rightarrow> bool" where
  "table_option srv val only \<longleftrightarrow>
     (case val of None \<Rightarrow> only = None
      | Some str \<Rightarrow> (\<exists>nsp rel r. SplitIdentifierString srv str (ch CHR ''.'') = Some (nsp # rel # r) \<and> only = Some (nsp, rel)))"

lemma origins_step:
  assumes "origins_option p fo origins" "od_forward_origins data = []"
  shows "res_fold (process_param p db) (optional_option ''spock.forward_origins'' fo) data =
    Inr (data\<lparr>od_forward_origins := origins\<rparr>)"
proof -
  have "check_forward_origins names = Inr names" if "set names \<subseteq> {REPLICATION_ORIGIN_ALL}" for names
    using that by (auto simp: check_forward_origins_def find_None_iff split: option.splits dest: find_Some_iff [THEN iffD1])
  then show ?thesis using assms by (cases fo) (auto simp: option_step origins_option_def)
qed

lemma table_step:
  assumes "table_option p ot only" "replicate_only_table data = None"
  shows "res_fold (process_param p db) (optional_option ''spock.replicate_only_table'' ot) data =
    Inr (data\<lparr>replicate_only_table := only\<rparr>)"
  using assms by (cases ot) (auto simp: option_step table_option_def)

lemma sets_step:
  assumes "sets_option p db nodeid rs sets" "od_replication_sets data = []" "od_local_node_id data = nodeid"
  shows "res_fold (process_param p db) (optional_option ''spock.replication_set_names'' rs) data =
    Inr (data\<lparr>od_replication_sets := sets\<rparr>)"
  using assms by (cases rs) (auto simp: option_step sets_option_def)

text \<open>
  C11: The publisher understands the command that the subscriber sends: every option arrives with the
  value the subscriber gave it, the range of protocol versions included.
\<close>

theorem options_understood:
  assumes "options_server p" "origins_option p fo origins" "table_option p ot only" "sets_option p db nodeid rs sets"
  shows "\<exists>data. process_parameters p db (start_replication_options s fo rs ot force)
        (zero_output_data\<lparr>od_local_node_id := nodeid\<rparr>) = Inr (SPOCK_STARTUP_PARAM_FORMAT_FLAT, data) \<and>
      client_max_proto_version data = SPOCK_PROTO_VERSION_NUM \<and> client_min_proto_version data = SPOCK_PROTO_MIN_VERSION_NUM \<and>
      client_expected_encoding data = Some (GetDatabaseEncodingName s) \<and> client_pg_version data = PG_VERSION_NUM s \<and>
      client_want_internal_basetypes_set data \<and> client_want_internal_basetypes data = (\<not> force) \<and>
      client_want_binary_basetypes_set data \<and> client_want_binary_basetypes data = (\<not> force) \<and>
      client_binary_basetypes_major_version data = PG_VERSION_NUM s div 100 \<and>
      client_binary_sizeofdatum data = sizeof_Datum s \<and> client_binary_sizeofint data = sizeof_int s \<and>
      client_binary_sizeoflong data = sizeof_long s \<and>
      client_binary_bigendian_set data \<and> client_binary_bigendian data = server_bigendian s \<and>
      client_binary_float4byval_set data \<and> client_binary_float4byval data = server_float4_byval s \<and>
      client_binary_float8byval_set data \<and> client_binary_float8byval data = server_float8_byval s \<and>
      client_binary_intdatetimes_set data \<and> client_binary_intdatetimes data = server_integer_datetimes s \<and>
      od_forward_origins data = origins \<and> od_replication_sets data = sets \<and> replicate_only_table data = only \<and>
      od_spock_version data = Some SPOCK_VERSION \<and> spock_version_num data = SPOCK_VERSION_NUM" (is "\<exists>data. _ \<and> ?received data")
proof -
  let ?opts = "start_replication_options s fo rs ot force"
  let ?data0 = "zero_output_data\<lparr>od_local_node_id := nodeid, client_max_proto_version := SPOCK_PROTO_VERSION_NUM,
    client_min_proto_version := SPOCK_PROTO_MIN_VERSION_NUM\<rparr>"
  note steps = process_steps [OF assms(1)] option_keys res_bind_def
  have "\<exists>data. res_fold (process_param p db) ?opts ?data0 = Inr data \<and> ?received data"
    unfolding start_replication_options_def
    by (simp add: res_fold_append steps origins_step [OF assms(2)] table_step [OF assms(3)] sets_step [OF assms(4)] zero_output_data_def)
  then show ?thesis using get_param_names [OF assms(1), of s fo rs ot force]
    by (auto simp: process_parameters_def process_parameters_v1_def res_bind_def SPOCK_STARTUP_PARAM_FORMAT_FLAT_def)
qed

section \<open>A concrete server\<close>

definition demo_output_server :: output_server where
  "demo_output_server =
     \<lparr>parse_bool = (\<lambda>s. if s \<in> {cs ''1'', cs ''t''} then Some True else if s \<in> {cs ''0'', cs ''f''} then Some False else None),
      pg_strcasecmp = (\<lambda>a b. if map fold_case a = map fold_case b then 0 else 1),
      SplitIdentifierString = (\<lambda>s sep. if sep \<in> set s
        then Some [takeWhile (\<lambda>c. c \<noteq> sep) s, tl (dropWhile (\<lambda>c. c \<noteq> sep) s)] else Some [s]),
      pg_char_to_encoding = (\<lambda>s. if s = cs ''UTF8'' then 6 else - 1),
      pg_encoding_to_char = (\<lambda>e. if e = 6 then cs ''UTF8'' else []),
      pg_get_client_encoding = 6, GetDatabaseEncoding = 6, GetDatabaseEncodingName = cs ''UTF8'',
      PG_VERSION = cs ''17.0'', PG_VERSION_NUM = 170000, CATALOG_VERSION_NO = 202406281, MyProcPid = 4711,
      sizeof_Datum = 8, sizeof_int = 4, sizeof_long = 8, MAXIMUM_ALIGNOF = 8, server_bigendian = False,
      server_float4_byval = True, server_float8_byval = True, server_integer_datetimes = True\<rparr>"

theorem startup_agrees_witness:
  "\<exists>body. write_startup_message pq_network (prepare_startup_message demo_output_server
        (zero_output_data\<lparr>negotiated_proto_version := 4, field_datum_encoding := 6\<rparr>)) = put_char pq_network (CHR ''S'') @ body \<and>
    handle_startup 26 pq_network demo_output_server body 5 = Some (Inr 4)"
  using startup_agrees [of pq_network "zero_output_data\<lparr>negotiated_proto_version := 4, field_datum_encoding := 6\<rparr>" 26
      demo_output_server demo_output_server 5] net.pq_format_axioms
  by (simp add: demo_output_server_def zero_output_data_def cstr_cs)

theorem options_understood_witness:
  "\<exists>data. process_parameters demo_output_server demo_repset_db
      (start_replication_options demo_output_server (Some (cs ''all'')) (Some (cs ''default'')) (Some (cs ''public.t'')) True)
      (zero_output_data\<lparr>od_local_node_id := 1\<rparr>) = Inr (1, data) \<and>
    od_replication_sets data = [demo_set] \<and> replicate_only_table data = Some (cs ''public'', cs ''t'') \<and>
    \<not> client_want_binary_basetypes data"
proof -
  have "options_server demo_output_server" by (auto simp: options_server_def demo_output_server_def)
  moreover have "origins_option demo_output_server (Some (cs ''all'')) [cs ''all'']" by code_simp
  moreover have "table_option demo_output_server (Some (cs ''public.t'')) (Some (cs ''public'', cs ''t''))"
    unfolding table_option_def option.case by (intro exI conjI) code_simp+
  moreover have "sets_option demo_output_server demo_repset_db 1 (Some (cs ''default'')) [demo_set]"
    unfolding sets_option_def option.case by (intro exI conjI) code_simp+
  ultimately show ?thesis
    using options_understood [of demo_output_server "Some (cs ''all'')" "[cs ''all'']" "Some (cs ''public.t'')"
        "Some (cs ''public'', cs ''t'')" demo_repset_db 1 "Some (cs ''default'')" "[demo_set]" demo_output_server True]
    by (auto simp: SPOCK_STARTUP_PARAM_FORMAT_FLAT_def)
qed

end
