(* ===== verification/Spec2Isabelle.thy ===== *)
theory Spec2Isabelle
  imports Spock_Proto_Props Spock_Apply_Heap Spock_Progress_Recovery Spock_Manager Spock_Replay Spock_Feedback
    Spock_Exception Spock_Sequences Spock_Change_Log Spock_Table_Sync Spock_Functions_Props Spock_Handshake
begin

text \<open>
  Verification of Spock, logical multi-master replication for PostgreSQL.

  \<^bold>\<open>The program.\<close>  On the provider an output plugin turns decoded transactions into messages; on
  the subscriber a manager per database starts one apply worker per subscription, which reads the
  messages, applies them with conflict resolution, and reports its progress.  A new table is copied by
  a sync worker of its own, which the apply worker meets in a handshake.  Replication sets say which
  tables and which actions are replicated.

  \<^bold>\<open>Conventions.\<close>  Machine integers are words of their width, timestamps 64-bit words compared as
  signed numbers, C strings lists of octets without NUL.  Every \<open>ereport (ERROR)\<close> is an \<open>Inl\<close> of the
  component's error type.  Structs are records, hash tables association lists, catalogs lists of rows
  in the order of a scan.  What belongs to the server (heap access, type input and output, buffered
  files, locks, the clock, expression evaluation) is an argument, usually a record of functions, and
  what the code relies on is a hypothesis with a name; each such theorem has a witness that runs on a
  concrete instance.  Memory contexts, logging and assertions are left out.

  \<^bold>\<open>The theories\<close>, in the order of the imports (files are under \<open>src/src\<close> and \<open>src/include\<close>):

  \<^item> \<open>Spock_Prelude\<close>: machine types, C strings, results, the reader monad, hash tables.
  \<^item> \<open>Spock_Wire\<close>: the \<open>pqformat\<close> routines of the server as a record with the locale \<open>pq_format\<close> of
    their laws, interpreted on the network byte order.
  \<^item> \<open>Spock_Relcache\<close> (\<open>spock_relcache.c\<close>): the cache of remote relations.  Shown: opening an
    entry maps every remote column to the local column of its name, in every reachable cache.
  \<^item> \<open>Spock_Proto_Native\<close>, \<open>Spock_Proto_Props\<close> (\<open>spock_proto_native.c\<close>): the writers and the readers
    of all messages.  Shown: round trips of relation, row and transaction messages; the row messages
    for every format a column is sent in, under the locale \<open>datum_io\<close> of type input and output.
  \<^item> \<open>Spock_Conflict\<close> (\<open>spock_conflict.c\<close>): resolution by time, origin and tiebreaker, and the log.
    Shown: replicas that see the same versions agree; where three nodes need not.
  \<^item> \<open>Spock_Group\<close>, \<open>Spock_Progress_Recovery\<close> (\<open>spock_group.c\<close>, \<open>spock_rmgr.c\<close>,
    \<open>spock_progress_recovery.c\<close>): the shared progress table, its resource file and WAL records, and
    its recovery.  Shown: consistency in every reachable table, the round trip of the file, and what
    the commit-timestamp scan finds.
  \<^item> \<open>Spock_Worker\<close>, \<open>Spock_Manager\<close> (\<open>spock_worker.c\<close>, \<open>spock_manager.c\<close>, \<open>spock.c\<close>): the registry
    of workers in shared memory and a round of the manager.
  \<^item> \<open>Spock_Apply_Heap\<close> (\<open>spock_apply_heap.c\<close>): INSERT, UPDATE and DELETE on a local table with
    conflicts and delta columns.
  \<^item> \<open>Spock_Replay\<close>, \<open>Spock_Feedback\<close>, \<open>Spock_Exception\<close> (\<open>spock_apply.c\<close>,
    \<open>spock_exception_handler.c\<close>): the replay queue with its spill file as a refinement of a list, the
    positions reported to the provider, and the exception slots and log.
  \<^item> \<open>Spock_Queue\<close>, \<open>Spock_Sequences\<close>, \<open>Spock_Change_Log\<close> (\<open>spock_queue.c\<close>, \<open>spock_sequences.c\<close>,
    \<open>spock_change_log.c\<close>): queued messages, the announced values of sequences, the change log.
  \<^item> \<open>Spock_Sync\<close>, \<open>Spock_Table_Sync\<close> (\<open>spock_sync.c\<close>, \<open>spock_apply.c\<close>): the status catalog, the
    handshake, and all interleavings of the apply worker with the sync worker of a table.  Shown: a
    table that became ready has every change exactly once, and how a restart breaks this.
  \<^item> \<open>Spock_Dependency\<close>, \<open>Spock_Repset\<close>, \<open>Spock_Repset_Props\<close> (\<open>spock_dependency.c\<close>,
    \<open>spock_repset.c\<close>): dependencies and replication sets.  Shown: the recursive search always
    returns and finds exactly the dependents; the catalogs stay well-formed; what a drop removes.
  \<^item> \<open>Spock_Node\<close>, \<open>Spock_Functions\<close>, \<open>Spock_Functions_Props\<close> (\<open>spock_node.c\<close>,
    \<open>spock_functions.c\<close>): the catalogs of nodes, interfaces and subscriptions, and the SQL functions
    over them and over the replication sets.  \<open>catalog_step\<close> is a call of one of them.  Shown: the
    references of every reachable catalog lead to rows, so that what is stored can be loaded, unless
    the interface of the local node is dropped, and what happens then; names of slots are valid.
  \<^item> \<open>Spock_Proto_Json\<close> (\<open>spock_proto_json.c\<close>): the writers of the JSON protocol.  Shown: their
    output is JSON, given names that need no escape and a server whose output functions keep to it
    (\<open>json_io\<close>).
  \<^item> \<open>Spock_Output_Config\<close>, \<open>Spock_Handshake\<close> (\<open>spock_output_config.c\<close>, parts of \<open>spock.c\<close> and
    \<open>spock_apply.c\<close>): the options of a connection and the startup message.  Shown: the publisher
    receives the options as they were meant, and the subscriber takes over the negotiated version.

  \<^bold>\<open>Bounds.\<close>  Loops over arrays and messages are structural recursion.  The recursion of
  \<open>findDependentObjects\<close> carries a depth; the number of rows of \<open>spock.depend\<close> plus two is shown to be
  enough, and three levels for \<open>spock_tryDropDependencies\<close> on Spock's own rows.  The retry loop of
  the row lookup and the commit-timestamp scan run over the bounds of the source.  A value of
  composite or array type nests as deep as its JSON depth argument, the stack check of the server;
  \<open>handle_startup\<close> counts the pairs of the message, of which the publisher sends 26.

  \<^bold>\<open>Not modelled.\<close>  Memory management, logging and error texts; the scheduling of background
  workers by the server; the collection of
  the objects an expression refers to (\<open>find_expr_references_walker\<close>, a copy of the server's walker
  over its node types); the callbacks of the output plugin; the synchronisation of failover slots;
  the hooks of utility commands.  The components the manifest
  lists as \<open>not_modelled\<close> or \<open>partly\<close> say what is missing.
\<close>

end
